(* ===== verification/Go_Float.thy ===== *)
theory Go_Float
  imports Complex_Main "HOL-Library.Log_Nat"
begin

text \<open>
  Go's \<open>float64\<close>, as far as Replicator uses it: conversion from \<open>int\<close>, addition,
  multiplication, division, the comparisons \<open><\<close>, \<open>\<le>\<close> and \<open>==\<close>.  A finite value is a
  rational; every operation rounds its exact result to 53 significant bits, to nearest
  with ties to even, as IEEE 754 prescribes for binary64.  Infinities and NaN are the
  results of the divisions by zero that occur when a worker pool has no capacity.  The
  exponent is not bounded: the program only forms sums, products and quotients of 64-bit
  integers and of percentages derived from them, which neither overflow nor underflow.
  The sign of a zero is not kept: it is observable only through division by that zero,
  and every divisor of the program is a converted integer, hence a positive zero.
\<close>

section \<open>Rounding to 53 bits\<close>

definition round_even :: "rat \<Rightarrow> int" where
  "round_even x =
     (let f = \<lfloor>x\<rfloor>; r = x - of_int f in
      if r < 1 / 2 then f else if 1 / 2 < r then f + 1 else if even f then f else f + 1)"

definition expo :: "rat \<Rightarrow> int" where
  "expo q =
     (let (n, d) = quotient_of \<bar>q\<bar>;
          k = int (floorlog 2 (nat n)) - int (floorlog 2 (nat d))
      in if 2 powi k \<le> \<bar>q\<bar> then k else k - 1)"

definition rnd :: "rat \<Rightarrow> rat" where
  "rnd q =
     (if q = 0 then 0
      else let u = 2 powi (expo q - 52) in of_int (round_even (q / u)) * u)"

lemma round_even_of_int [simp]: "round_even (of_int n) = n"
  by (simp add: round_even_def)

lemma round_even_near: "\<bar>of_int (round_even x) - x\<bar> \<le> 1 / 2"
  unfolding round_even_def Let_def abs_le_iff by (auto split: if_splits) linarith+

lemma round_even_mono: "x \<le> y \<Longrightarrow> round_even x \<le> round_even y"
proof -
  assume le: "x \<le> y"
  show ?thesis
  proof (cases "\<lfloor>x\<rfloor> = \<lfloor>y\<rfloor>")
    case True
    with le show ?thesis by (auto simp: round_even_def Let_def)
  next
    case False
    with le have "\<lfloor>x\<rfloor> + 1 \<le> \<lfloor>y\<rfloor>" using floor_mono [OF le] by linarith
    moreover have "round_even x \<le> \<lfloor>x\<rfloor> + 1" and "\<lfloor>y\<rfloor> \<le> round_even y"
      by (auto simp: round_even_def Let_def)
    ultimately show ?thesis by linarith
  qed
qed

lemma round_even_minus: "round_even (- x) = - round_even x"
proof (cases "x = of_int \<lfloor>x\<rfloor>")
  case True
  have "round_even (- of_int \<lfloor>x\<rfloor>) = - round_even (of_int \<lfloor>x\<rfloor>)"
    by (metis of_int_minus round_even_of_int)
  with True show ?thesis by metis
next
  case False
  have "\<lfloor>- x\<rfloor> = - \<lfloor>x\<rfloor> - 1"
    using False by (intro floor_unique) (auto, linarith+)
  then show ?thesis
    by (simp add: round_even_def Let_def)
qed

subsection \<open>The binade of a rational\<close>

lemma powi_frac_bounds:
  assumes n: "0 < n" and d: "0 < d"
  defines "k \<equiv> int (floorlog 2 n) - int (floorlog 2 d)"
  shows "(2::rat) powi (k - 1) < of_nat n / of_nat d"
    and "of_nat n / of_nat d < (2::rat) powi (k + 1)"
proof -
  let ?a = "floorlog 2 n" and ?b = "floorlog 2 d"
  have n1: "2 ^ (?a - 1) \<le> n" and n2: "n < 2 ^ ?a"
    using floorlog_bounds [of n 2] n by auto
  have d1: "2 ^ (?b - 1) \<le> d" and d2: "d < 2 ^ ?b"
    using floorlog_bounds [of d 2] d by auto
  have a0: "0 < ?a" and b0: "0 < ?b"
    using n d n2 d2 by (metis gr0I less_one not_less_zero power_0)+
  have n1': "(2::rat) powi (int ?a - 1) \<le> of_nat n"
    using n1 a0 of_nat_mono [OF n1, where 'a = rat]
    by (simp add: power_int_def nat_diff_distrib flip: of_nat_power)
  have n2': "of_nat n < (2::rat) powi (int ?a)"
    using n2 by (metis of_nat_less_iff of_nat_numeral of_nat_power power_int_of_nat)
  have d1': "(2::rat) powi (int ?b - 1) \<le> of_nat d"
    using d1 b0 of_nat_mono [OF d1, where 'a = rat]
    by (simp add: power_int_def nat_diff_distrib flip: of_nat_power)
  have d2': "of_nat d < (2::rat) powi (int ?b)"
    using d2 by (metis of_nat_less_iff of_nat_numeral of_nat_power power_int_of_nat)
  have "(2::rat) powi (k - 1) = 2 powi (int ?a - 1) / 2 powi (int ?b)"
    by (simp add: k_def power_int_diff)
  also have "\<dots> < of_nat n / of_nat d"
    using n1' d2' n d by (intro frac_less2) auto
  finally show "(2::rat) powi (k - 1) < of_nat n / of_nat d" .
  have "of_nat n / of_nat d < (2::rat) powi (int ?a) / 2 powi (int ?b - 1)"
    using n2' d1' n d by (intro frac_less) auto
  also have "\<dots> = (2::rat) powi (int ?a - (int ?b - 1))"
    by (rule power_int_diff [symmetric]) simp
  also have "\<dots> = (2::rat) powi (k + 1)"
    by (simp add: k_def algebra_simps)
  finally show "of_nat n / of_nat d < (2::rat) powi (k + 1)" .
qed

lemma expo_bounds:
  assumes "q \<noteq> 0"
  shows "2 powi expo q \<le> \<bar>q\<bar>" and "\<bar>q\<bar> < 2 powi (expo q + 1)"
proof -
  obtain n d where nd: "quotient_of \<bar>q\<bar> = (n, d)" by (cases "quotient_of \<bar>q\<bar>")
  have q: "\<bar>q\<bar> = of_int n / of_int d" using quotient_of_div [OF nd] .
  have d: "0 < d" using quotient_of_denom_pos [OF nd] .
  have n: "0 < n" using assms q d by (metis abs_ge_zero abs_zero div_by_0 divide_less_0_iff
    eq_iff_diff_eq_0 less_eq_rat_def linorder_neqE_linordered_idom not_less of_int_0 of_int_0_less_iff
    of_int_less_0_iff abs_eq_0 divide_eq_0_iff)
  let ?k = "int (floorlog 2 (nat n)) - int (floorlog 2 (nat d))"
  have q': "\<bar>q\<bar> = of_nat (nat n) / of_nat (nat d)" using q n d by simp
  have lo: "2 powi (?k - 1) < \<bar>q\<bar>" and hi: "\<bar>q\<bar> < 2 powi (?k + 1)"
    unfolding q' using powi_frac_bounds [of "nat n" "nat d"] n d by auto
  have e: "expo q = (if 2 powi ?k \<le> \<bar>q\<bar> then ?k else ?k - 1)"
    by (simp add: expo_def nd)
  show "2 powi expo q \<le> \<bar>q\<bar>" and "\<bar>q\<bar> < 2 powi (expo q + 1)"
    using lo hi unfolding e by (auto split: if_splits)
qed

lemma powi_pos: "(0::rat) < 2 powi i"
  by (rule zero_less_power_int) simp

lemma powi_mono_rat: "i \<le> j \<Longrightarrow> (2::rat) powi i \<le> 2 powi j"
  by (simp add: power_int_increasing)

lemma powi_less_cancel: "(2::rat) powi i < 2 powi j \<Longrightarrow> i < j"
  by (meson leD not_less powi_mono_rat)

lemma expo_unique:
  assumes "2 powi e \<le> \<bar>q\<bar>" and "\<bar>q\<bar> < 2 powi (e + 1)"
  shows "expo q = e"
proof -
  have q: "q \<noteq> 0" using assms(1) powi_pos [of e] by (metis abs_zero not_le)
  have "(2::rat) powi e < 2 powi (expo q + 1)" and "(2::rat) powi expo q < 2 powi (e + 1)"
    using expo_bounds [OF q] assms by linarith+
  then show ?thesis by (fastforce dest: powi_less_cancel)
qed

lemma expo_minus [simp]: "expo (- q) = expo q"
  by (simp add: expo_def)

lemma expo_mono: "0 < x \<Longrightarrow> x \<le> y \<Longrightarrow> expo x \<le> expo y"
proof -
  assume "0 < x" and "x \<le> y"
  then have "(2::rat) powi expo x < 2 powi (expo y + 1)"
    using expo_bounds [of x] expo_bounds [of y] by auto
  then show "expo x \<le> expo y" using powi_less_cancel by fastforce
qed

subsection \<open>Rounding is monotone and keeps small integers\<close>

lemma rnd_0 [simp]: "rnd 0 = 0"
  by (simp add: rnd_def)

lemma rnd_minus: "rnd (- q) = - rnd q"
  by (simp add: rnd_def Let_def round_even_minus)

lemma rnd_binade:
  assumes "0 < q"
  shows "2 powi expo q \<le> rnd q" and "rnd q \<le> 2 powi (expo q + 1)"
proof -
  let ?u = "(2::rat) powi (expo q - 52)"
  have u: "0 < ?u" by simp
  have b: "2 powi expo q \<le> q" "q < 2 powi (expo q + 1)" using expo_bounds [of q] assms by auto
  have lo: "2 powi expo q = of_int (2 ^ 52) * ?u" and hi: "2 powi (expo q + 1) = of_int (2 ^ 53) * ?u"
    by (simp_all add: power_int_diff power_int_add)
  have "of_int (2 ^ 52) \<le> q / ?u" and "q / ?u \<le> of_int (2 ^ 53)"
    using b u unfolding lo hi by (simp_all add: pos_le_divide_eq pos_divide_le_eq)
  then have "2 ^ 52 \<le> round_even (q / ?u)" and "round_even (q / ?u) \<le> 2 ^ 53"
    using round_even_mono round_even_of_int by metis+
  then have "of_int (2 ^ 52) \<le> (of_int (round_even (q / ?u)) :: rat)"
    and "of_int (round_even (q / ?u)) \<le> (of_int (2 ^ 53) :: rat)"
    by (simp_all only: of_int_le_iff)
  then show "2 powi expo q \<le> rnd q" and "rnd q \<le> 2 powi (expo q + 1)"
    using u assms unfolding lo hi by (auto simp: rnd_def Let_def)
qed

lemma rnd_mono_pos: "0 < x \<Longrightarrow> x \<le> y \<Longrightarrow> rnd x \<le> rnd y"
proof -
  assume x: "0 < x" and le: "x \<le> y"
  show ?thesis
  proof (cases "expo x = expo y")
    case True
    have "round_even (x / 2 powi (expo y - 52)) \<le> round_even (y / 2 powi (expo y - 52))"
      using le by (intro round_even_mono divide_right_mono) auto
    with True x le show ?thesis by (simp add: rnd_def Let_def)
  next
    case False
    with expo_mono [OF x le] have "expo x + 1 \<le> expo y" by simp
    then have "(2::rat) powi (expo x + 1) \<le> 2 powi expo y" by (rule powi_mono_rat)
    with rnd_binade [of x] rnd_binade [of y] x le show ?thesis by linarith
  qed
qed

lemma rnd_pos: "0 < q \<Longrightarrow> 0 < rnd q"
  using rnd_binade(1) [of q] powi_pos [of "expo q"] by linarith

lemma rnd_nonneg: "0 \<le> q \<Longrightarrow> 0 \<le> rnd q"
  using rnd_pos [of q] by (cases "q = 0") auto

lemma rnd_eq_0_iff [simp]: "rnd q = 0 \<longleftrightarrow> q = 0"
  using rnd_pos [of q] rnd_pos [of "- q"] rnd_minus [of q] by (cases q "0::rat" rule: linorder_cases) auto

lemma rnd_mono: "x \<le> y \<Longrightarrow> rnd x \<le> rnd y"
proof (cases "0 < x")
  case True
  then show "x \<le> y \<Longrightarrow> rnd x \<le> rnd y" by (rule rnd_mono_pos)
next
  case False
  assume le: "x \<le> y"
  show ?thesis
  proof (cases "0 \<le> y")
    case True
    with False have "0 \<le> rnd (- x)" and "0 \<le> rnd y" by (auto intro: rnd_nonneg)
    then show ?thesis by (simp add: rnd_minus)
  next
    case False
    with le have "rnd (- y) \<le> rnd (- x)" by (intro rnd_mono_pos) auto
    then show ?thesis by (simp add: rnd_minus)
  qed
qed

lemma rnd_int_pos:
  assumes "0 < n" and "n < 2 ^ 53"
  shows "rnd (of_int n) = of_int n"
proof -
  let ?e = "expo (of_int n)"
  have "(2::rat) powi ?e < 2 powi 53" and "(2::rat) powi 0 < 2 powi (?e + 1)"
  proof -
    have "(of_int n :: rat) < of_int (2 ^ 53)" using assms(2) by (simp only: of_int_less_iff)
    then show "(2::rat) powi ?e < 2 powi 53"
      using expo_bounds(1) [of "of_int n"] assms(1) by simp
    show "(2::rat) powi 0 < 2 powi (?e + 1)"
      using expo_bounds(2) [of "of_int n"] assms(1) by (simp add: le_less_trans [of 1 "of_int n"])
  qed
  from powi_less_cancel [OF this(1)] powi_less_cancel [OF this(2)]
  have e: "0 \<le> ?e" "?e < 53" by simp_all
  have u: "(2::rat) powi (?e - 52) = 1 / of_int (2 ^ nat (52 - ?e))"
    using e by (simp add: power_int_def field_simps split: if_splits)
  have "of_int n / (2::rat) powi (?e - 52) = of_int (n * 2 ^ nat (52 - ?e))"
    unfolding u by simp
  then have "round_even (of_int n / 2 powi (?e - 52)) = n * 2 ^ nat (52 - ?e)"
    by (simp only: round_even_of_int)
  with assms(1) show ?thesis unfolding rnd_def Let_def by (simp add: u)
qed

lemma rnd_int: "\<bar>n\<bar> < 2 ^ 53 \<Longrightarrow> rnd (of_int n) = of_int n"
  using rnd_int_pos [of n] rnd_int_pos [of "- n"] rnd_minus [of "of_int n"]
  by (cases n "0::int" rule: linorder_cases) auto

lemma rnd_numeral [simp]: "numeral w < (2::int) ^ 53 \<Longrightarrow> rnd (numeral w) = numeral w"
  using rnd_int [of "numeral w"] by simp

lemma rnd_1 [simp]: "rnd 1 = 1"
  using rnd_int [of 1] by simp

section \<open>Values, operations and comparisons\<close>

datatype float64 = Fin rat | PInf | NInf | NaN

definition float_of_int :: "int \<Rightarrow> float64" where
  "float_of_int n = Fin (rnd (of_int n))"

fun fadd :: "float64 \<Rightarrow> float64 \<Rightarrow> float64" where
  "fadd NaN _ = NaN"
| "fadd _ NaN = NaN"
| "fadd PInf NInf = NaN"
| "fadd NInf PInf = NaN"
| "fadd PInf _ = PInf"
| "fadd _ PInf = PInf"
| "fadd NInf _ = NInf"
| "fadd _ NInf = NInf"
| "fadd (Fin a) (Fin b) = Fin (rnd (a + b))"

fun fmul :: "float64 \<Rightarrow> float64 \<Rightarrow> float64" where
  "fmul NaN _ = NaN"
| "fmul _ NaN = NaN"
| "fmul (Fin a) (Fin b) = Fin (rnd (a * b))"
| "fmul (Fin a) PInf = (if a = 0 then NaN else if 0 < a then PInf else NInf)"
| "fmul (Fin a) NInf = (if a = 0 then NaN else if 0 < a then NInf else PInf)"
| "fmul PInf (Fin b) = (if b = 0 then NaN else if 0 < b then PInf else NInf)"
| "fmul NInf (Fin b) = (if b = 0 then NaN else if 0 < b then NInf else PInf)"
| "fmul PInf PInf = PInf"
| "fmul NInf NInf = PInf"
| "fmul _ _ = NInf"

fun fdiv :: "float64 \<Rightarrow> float64 \<Rightarrow> float64" where
  "fdiv NaN _ = NaN"
| "fdiv _ NaN = NaN"
| "fdiv (Fin a) (Fin b) =
     (if b = 0 then (if a = 0 then NaN else if 0 < a then PInf else NInf)
      else Fin (rnd (a / b)))"
| "fdiv (Fin a) _ = Fin 0"
| "fdiv PInf (Fin b) = (if 0 \<le> b then PInf else NInf)"
| "fdiv NInf (Fin b) = (if 0 \<le> b then NInf else PInf)"
| "fdiv _ _ = NaN"

fun feq :: "float64 \<Rightarrow> float64 \<Rightarrow> bool" where
  "feq NaN _ = False"
| "feq x y = (x = y)"

text \<open>
  The order of Go's \<open><\<close> and \<open><=\<close>, to which a value that is not a number is not related, not even to
  itself: it is an instance of the class of the symbols, and of none of the orders.
\<close>

instantiation float64 :: ord
begin

fun less_float64 :: "float64 \<Rightarrow> float64 \<Rightarrow> bool" where
  "NaN < (_::float64) = False"
| "(_::float64) < NaN = False"
| "Fin a < Fin b = (a < b)"
| "NInf < y = (y \<noteq> NInf)"
| "x < PInf = (x \<noteq> PInf)"
| "(_::float64) < _ = False"

definition less_eq_float64 :: "float64 \<Rightarrow> float64 \<Rightarrow> bool" where
  "x \<le> y = (x < y \<or> feq x y)" for x y :: float64

instance ..

end

text \<open>Go's conversion \<open>int(f)\<close> of a float, with the value amd64 gives outside the range.\<close>

fun int_of_float :: "float64 \<Rightarrow> int" where
  "int_of_float (Fin a) =
     (let t = (if 0 \<le> a then \<lfloor>a\<rfloor> else \<lceil>a\<rceil>)
      in if - (2 ^ 63) \<le> t \<and> t < 2 ^ 63 then t else - (2 ^ 63))"
| "int_of_float _ = - (2 ^ 63)"

fun math_Floor :: "float64 \<Rightarrow> float64" where
  "math_Floor (Fin a) = Fin (of_int \<lfloor>a\<rfloor>)"
| "math_Floor x = x"

lemma fle_Fin [simp]: "Fin a \<le> Fin b = (a \<le> b)"
  by (auto simp: less_eq_float64_def)

lemma float_of_int_0 [simp]: "float_of_int 0 = Fin 0"
  by (simp add: float_of_int_def)

lemma float_of_int_exact: "\<bar>n\<bar> < 2 ^ 53 \<Longrightarrow> float_of_int n = Fin (of_int n)"
  by (simp add: float_of_int_def rnd_int)

lemma flt_trans: fixes x y z :: float64 shows "x < y \<Longrightarrow> y < z \<Longrightarrow> x < z"
  by (cases x; cases y; cases z) auto

lemma feq_iff: "x \<noteq> NaN \<Longrightarrow> feq x y \<longleftrightarrow> x = y"
  by (cases x) auto

lemma flt_total: fixes x y :: float64 shows "x \<noteq> NaN \<Longrightarrow> y \<noteq> NaN \<Longrightarrow> x < y \<or> x = y \<or> y < x"
  by (cases x; cases y) auto

lemma flt_irrefl [simp]: fixes x :: float64 shows "\<not> x < x"
  by (cases x) auto

end
