(* ===== verification/Go_Base.thy ===== *)
theory Go_Base
  imports Go_Float "HOL-Library.AList" "HOL-Library.Multiset"
begin

text \<open>
  The prelude: what the components share of the Go language and its runtime.
  Integers of type \<open>int\<close> are 64 bits wide and wrap (\<open>i64\<close>); maps are association lists
  whose iteration order is chosen by the runtime; a computation that talks to the outside
  world is a function on the history of the calls made so far, and ends by returning, by
  a panic, or by never proceeding.  The last section is a small logic for such
  computations: \<open>obeys P m Q\<close> says that every call \<open>m\<close> makes satisfies \<open>P\<close> and every
  value it returns satisfies \<open>Q\<close>.
\<close>

named_theorems obeys_intro \<open>rules that follow the structure of a computation\<close>
named_theorems go_simps \<open>evaluation of computations on a given history\<close>

section \<open>Integers and time\<close>

definition i64 :: "int \<Rightarrow> int" where
  "i64 x = (x + 2 ^ 63) mod 2 ^ 64 - 2 ^ 63"

abbreviation in64 :: "int \<Rightarrow> bool" where
  "in64 x \<equiv> - (2 ^ 63) \<le> x \<and> x < 2 ^ 63"

lemma i64_id: "in64 x \<Longrightarrow> i64 x = x"
  by (simp add: i64_def)

lemma i64_range [simp]: "in64 (i64 x)"
proof -
  have "0 \<le> (x + 2 ^ 63) mod 2 ^ 64" and "(x + 2 ^ 63) mod 2 ^ 64 < (2 ^ 64 :: int)"
    by (rule pos_mod_sign, simp, rule pos_mod_bound, simp)
  then show ?thesis by (simp add: i64_def)
qed

lemma i64_small [simp]: "0 \<le> x \<Longrightarrow> x < 2 ^ 62 \<Longrightarrow> i64 (x + 1) = x + 1"
  by (rule i64_id) simp

lemma i64_numeral [simp]: "(numeral w :: int) < 2 ^ 63 \<Longrightarrow> i64 (numeral w) = numeral w"
  by (rule i64_id) (simp add: order.trans [of "- (2 ^ 63)" 0])

lemma i64_0 [simp]: "i64 0 = 0" and i64_1 [simp]: "i64 1 = 1"
  by (simp_all add: i64_def)

lemma i64_add [simp]: "i64 (i64 x + y) = i64 (x + y)" and i64_add_right [simp]: "i64 (x + i64 y) = i64 (x + y)"
  by (simp_all add: i64_def mod_simps algebra_simps)

lemma i64_idem [simp]: "i64 (i64 x) = i64 x"
  using i64_add [of x 0] by simp

text \<open>Go's integer division truncates towards zero; the callers test the divisor.\<close>

definition tdiv :: "int \<Rightarrow> int \<Rightarrow> int" where
  "tdiv a b = sgn a * sgn b * (\<bar>a\<bar> div \<bar>b\<bar>)"

lemma tdiv_nonneg: "0 \<le> a \<Longrightarrow> 0 < b \<Longrightarrow> tdiv a b = a div b"
  by (cases "a = 0") (simp_all add: tdiv_def sgn_if)

text \<open>
  A \<open>time.Time\<close> is an instant in nanoseconds since Go's zero time (1 January of year 1,
  UTC); a \<open>time.Duration\<close> is a 64-bit count of nanoseconds.
\<close>

type_synonym time = int

definition Second :: int where "Second = 1000000000"

abbreviation IsZero :: "time \<Rightarrow> bool" where "IsZero t \<equiv> t = 0"

definition duration_seconds :: "int \<Rightarrow> int" where
  "duration_seconds n = i64 (n * Second)"

section \<open>Errors\<close>

text \<open>
  An \<open>error\<close> value is the message an API returned, or one built by \<open>fmt.Errorf\<close> from a
  format and, where the format prints one, another error.
\<close>

datatype go_error = ApiErr string | Errorf string "go_error option"

type_synonym 'a result = "go_error + 'a"

fun err_of :: "'a result \<Rightarrow> go_error option" where
  "err_of (Inl e) = Some e"
| "err_of (Inr _) = None"

fun is_prefix :: "string \<Rightarrow> string \<Rightarrow> bool" where
  "is_prefix [] s = True"
| "is_prefix (x # xs) [] = False"
| "is_prefix (x # xs) (y # ys) = (x = y \<and> is_prefix xs ys)"

text \<open>\<open>strings.Contains\<close>, and its use on the text of an error.\<close>

fun str_contains :: "string \<Rightarrow> string \<Rightarrow> bool" where
  "str_contains [] sub = (sub = [])"
| "str_contains (x # xs) sub = (is_prefix sub (x # xs) \<or> str_contains xs sub)"

fun err_contains :: "go_error \<Rightarrow> string \<Rightarrow> bool" where
  "err_contains (ApiErr s) sub = str_contains s sub"
| "err_contains (Errorf s None) sub = str_contains s sub"
| "err_contains (Errorf s (Some e)) sub = (str_contains s sub \<or> err_contains e sub)"

section \<open>Maps\<close>

type_synonym ('k, 'v) gomap = "('k \<times> 'v) list"

definition wf_map :: "('k, 'v) gomap \<Rightarrow> bool" where
  "wf_map m = distinct (map fst m)"

abbreviation has_key :: "('k, 'v) gomap \<Rightarrow> 'k \<Rightarrow> bool" where
  "has_key m k \<equiv> map_of m k \<noteq> None"

lemma wf_map_Nil [simp]: "wf_map []"
  by (simp add: wf_map_def)

lemma wf_map_update [simp]: "wf_map m \<Longrightarrow> wf_map (AList.update k v m)"
  by (simp add: wf_map_def AList.distinct_update)

lemma wf_map_delete [simp]: "wf_map m \<Longrightarrow> wf_map (AList.delete k m)"
  by (simp add: wf_map_def AList.distinct_delete)

lemmas gomap_conv [simp] = AList.update_conv' AList.delete_conv'

lemma has_key_set: "has_key m k \<longleftrightarrow> k \<in> fst ` set m"
  by (metis dom_map_of_conv_image_fst domIff)

lemma map_of_eq_None_Nil: "m \<noteq> [] \<longleftrightarrow> (\<exists>k. has_key m k)"
  by (cases m) (auto split: if_splits)

lemma map_of_all_None: "m = [] \<longleftrightarrow> (\<forall>k. map_of m k = None)"
  by (cases m) (auto dest: spec split: if_splits)

lemma delete_Nil_iff:
  assumes "has_key m n"
  shows "AList.delete n m = [] \<longleftrightarrow> dom (map_of m) = {n}"
proof -
  have "AList.delete n m = [] \<longleftrightarrow> (\<forall>k. map_of (AList.delete n m) k = None)"
    by (rule map_of_all_None)
  also have "\<dots> \<longleftrightarrow> (\<forall>k. k = n \<or> map_of m k = None)" by auto
  also have "\<dots> \<longleftrightarrow> dom (map_of m) = {n}" using assms by auto
  finally show ?thesis .
qed

lemma length_gomap: "wf_map m \<Longrightarrow> length m = card (dom (map_of m))"
  by (metis distinct_card dom_map_of_conv_image_fst length_map set_map wf_map_def)

text \<open>
  \<open>range\<close> over a map visits its keys in an order the runtime chooses; any permutation can
  be chosen, and nothing but a permutation.
\<close>

definition range_order :: "('k list \<Rightarrow> 'k list) \<Rightarrow> ('k, 'v) gomap \<Rightarrow> 'k list" where
  "range_order perm m =
     (let ks = map fst m; p = perm ks in if mset p = mset ks then p else ks)"

lemma mset_range_order [simp]: "mset (range_order c m) = mset (map fst m)"
  by (simp add: range_order_def Let_def)

lemma set_range_order [simp]: "set (range_order c m) = fst ` set m"
  by (metis mset_range_order set_map set_mset_mset)

lemma distinct_range_order: "wf_map m \<Longrightarrow> distinct (range_order c m)"
  by (metis mset_range_order wf_map_def mset_eq_imp_distinct_iff)

lemma length_range_order [simp]: "length (range_order c m) = length m"
  by (metis length_map mset_range_order size_mset)

section \<open>Computations\<close>

text \<open>
  \<open>Panic\<close> ends the process; \<open>Block\<close> is a goroutine that never proceeds: it waits for a
  lock nobody will release, or loops without end.
\<close>

datatype 'a outcome = Ret 'a | Panic | Block

type_synonym ('e, 'a) go = "'e list \<Rightarrow> 'a outcome \<times> 'e list"

definition ret :: "'a \<Rightarrow> ('e, 'a) go" where
  "ret a = (\<lambda>h. (Ret a, h))"

definition panic :: "('e, 'a) go" where
  "panic = (\<lambda>h. (Panic, h))"

definition block :: "('e, 'a) go" where
  "block = (\<lambda>h. (Block, h))"

definition bnd :: "('e, 'a) go \<Rightarrow> ('a \<Rightarrow> ('e, 'b) go) \<Rightarrow> ('e, 'b) go" where
  "bnd m f = (\<lambda>h. case m h of (Ret a, h') \<Rightarrow> f a h' | (Panic, h') \<Rightarrow> (Panic, h') | (Block, h') \<Rightarrow> (Block, h'))"

text \<open>An external call: it is appended to the history, and its answer may depend on all before it.\<close>

definition call :: "'e \<Rightarrow> ('e list \<Rightarrow> 'a) \<Rightarrow> ('e, 'a) go" where
  "call e f = (\<lambda>h. (Ret (f h), h @ [e]))"

text \<open>A choice of the runtime or of other goroutines that is not a call.\<close>

definition ask :: "('e list \<Rightarrow> 'a) \<Rightarrow> ('e, 'a) go" where
  "ask f = (\<lambda>h. (Ret (f h), h))"

text \<open>
  The loop \<open>for { select { case <-timeout.C: t; case <-ticker.C: body } }\<close>: the body runs
  for the ticks that are served before the timeout is; \<open>Inl\<close> returns from the function,
  \<open>Inr\<close> carries the variables of the loop to the next tick.
\<close>

primrec poll :: "nat \<Rightarrow> ('s \<Rightarrow> ('e, 'a + 's) go) \<Rightarrow> ('s \<Rightarrow> ('e, 'a) go) \<Rightarrow> 's \<Rightarrow> ('e, 'a) go" where
  "poll 0 body tmo s = tmo s"
| "poll (Suc n) body tmo s =
     bnd (body s) (\<lambda>r. case r of Inl a \<Rightarrow> ret a | Inr s' \<Rightarrow> poll n body tmo s')"

lemma bnd_assoc: "bnd (bnd m f) g = bnd m (\<lambda>a. bnd (f a) g)"
  by (rule ext) (simp add: bnd_def split: prod.splits outcome.splits)

lemma bnd_ret [simp]: "bnd (ret a) f = f a"
  by (rule ext) (simp add: bnd_def ret_def)

lemma bnd_panic [simp]: "bnd panic f = panic"
  by (rule ext) (simp add: bnd_def panic_def)

lemma bnd_block [simp]: "bnd block f = block"
  by (rule ext) (simp add: bnd_def block_def)

lemma ret_app [go_simps]: "ret a h = (Ret a, h)"
  by (simp add: ret_def)

lemma panic_app [go_simps]: "panic h = (Panic, h)"
  by (simp add: panic_def)

lemma block_app [go_simps]: "block h = (Block, h)"
  by (simp add: block_def)

lemma call_app [go_simps]: "call e f h = (Ret (f h), h @ [e])"
  by (simp add: call_def)

lemma ask_app [go_simps]: "ask f h = (Ret (f h), h)"
  by (simp add: ask_def)

lemma bnd_app [go_simps]:
  "bnd m f h = (case m h of (Ret a, h') \<Rightarrow> f a h' | (Panic, h') \<Rightarrow> (Panic, h') | (Block, h') \<Rightarrow> (Block, h'))"
  by (simp add: bnd_def)

lemma bnd_call [go_simps]: "bnd (call e f) g h = g (f h) (h @ [e])"
  by (simp add: bnd_def call_def)

lemma bnd_ask [go_simps]: "bnd (ask f) g h = g (f h) h"
  by (simp add: bnd_def ask_def)

lemma bnd_RetE:
  assumes "bnd m f h = (Ret b, h'')"
  obtains a h' where "m h = (Ret a, h')" and "f a h' = (Ret b, h'')"
  using assms by (auto simp: bnd_def split: prod.splits outcome.splits)

lemma bnd_cong [fundef_cong]:
  "m = m' \<Longrightarrow> (\<And>a. f a = f' a) \<Longrightarrow> bnd m f = bnd m' f'"
  by (rule arg_cong2 [where f = bnd]) (simp_all add: ext)

section \<open>A logic of the calls a computation makes\<close>

definition obeys :: "('e \<Rightarrow> bool) \<Rightarrow> ('e, 'a) go \<Rightarrow> ('a \<Rightarrow> bool) \<Rightarrow> bool" where
  "obeys P m Q \<longleftrightarrow>
     (\<forall>h. \<exists>new. snd (m h) = h @ new \<and> (\<forall>e \<in> set new. P e) \<and> (\<forall>a. fst (m h) = Ret a \<longrightarrow> Q a))"

lemma obeysI:
  assumes "\<And>h. \<exists>new. snd (m h) = h @ new \<and> (\<forall>e \<in> set new. P e) \<and> (\<forall>a. fst (m h) = Ret a \<longrightarrow> Q a)"
  shows "obeys P m Q"
  using assms by (simp add: obeys_def)

lemma obeysE:
  assumes "obeys P m Q"
  obtains new where "snd (m h) = h @ new" and "\<forall>e \<in> set new. P e"
    and "\<And>a. fst (m h) = Ret a \<Longrightarrow> Q a"
  using assms unfolding obeys_def by blast

lemma obeys_weaken:
  assumes "obeys P m Q" and "\<And>e. P e \<Longrightarrow> P' e" and "\<And>a. Q a \<Longrightarrow> Q' a"
  shows "obeys P' m Q'"
  using assms unfolding obeys_def by meson

lemma obeys_post: "obeys P m Q \<Longrightarrow> (\<And>a. Q a \<Longrightarrow> Q' a) \<Longrightarrow> obeys P m Q'"
  by (rule obeys_weaken)

lemma obeys_conj:
  assumes "obeys P m Q" and "obeys P' m Q'"
  shows "obeys (\<lambda>e. P e \<and> P' e) m (\<lambda>a. Q a \<and> Q' a)"
proof (rule obeysI)
  fix h
  obtain n where n: "snd (m h) = h @ n" "\<forall>e \<in> set n. P e" "\<And>a. fst (m h) = Ret a \<Longrightarrow> Q a"
    using obeysE [OF assms(1)] by blast
  obtain n' where n': "snd (m h) = h @ n'" "\<forall>e \<in> set n'. P' e" "\<And>a. fst (m h) = Ret a \<Longrightarrow> Q' a"
    using obeysE [OF assms(2)] by blast
  show "\<exists>new. snd (m h) = h @ new \<and> (\<forall>e \<in> set new. P e \<and> P' e) \<and>
    (\<forall>a. fst (m h) = Ret a \<longrightarrow> Q a \<and> Q' a)"
    using n n' by auto
qed

lemma obeys_ret [obeys_intro]: "Q a \<Longrightarrow> obeys P (ret a) Q"
  by (simp add: obeys_def ret_def)

lemma obeys_panic [obeys_intro]: "obeys P panic Q"
  by (simp add: obeys_def panic_def)

lemma obeys_block [obeys_intro]: "obeys P block Q"
  by (simp add: obeys_def block_def)

lemma obeys_call [obeys_intro]: "P e \<Longrightarrow> (\<And>h. Q (f h)) \<Longrightarrow> obeys P (call e f) Q"
  by (simp add: obeys_def call_def)

lemma obeys_ask [obeys_intro]: "(\<And>h. Q (f h)) \<Longrightarrow> obeys P (ask f) Q"
  by (simp add: obeys_def ask_def)

lemma obeys_bnd:
  assumes m: "obeys P m R" and f: "\<And>a. R a \<Longrightarrow> obeys P (f a) Q"
  shows "obeys P (bnd m f) Q"
proof (rule obeysI)
  fix h
  obtain n where n: "snd (m h) = h @ n" "\<forall>e \<in> set n. P e" "\<And>a. fst (m h) = Ret a \<Longrightarrow> R a"
    using obeysE [OF m] by blast
  show "\<exists>new. snd (bnd m f h) = h @ new \<and> (\<forall>e \<in> set new. P e) \<and>
    (\<forall>a. fst (bnd m f h) = Ret a \<longrightarrow> Q a)"
  proof (cases "m h")
    case (Pair r h')
    show ?thesis
    proof (cases r)
      case (Ret a)
      with n Pair have "R a" and h': "h' = h @ n" by auto
      then obtain n' where n': "snd (f a h') = h' @ n'" "\<forall>e \<in> set n'. P e"
          "\<And>b. fst (f a h') = Ret b \<Longrightarrow> Q b"
        using obeysE [OF f [of a]] by blast
      show ?thesis
        using n n' h' Pair Ret by (intro exI [of _ "n @ n'"]) (auto simp: bnd_def)
    next
      case Panic
      with n Pair show ?thesis by (intro exI [of _ n]) (auto simp: bnd_def)
    next
      case Block
      with n Pair show ?thesis by (intro exI [of _ n]) (auto simp: bnd_def)
    qed
  qed
qed

lemma obeys_bnd_mono:
  "obeys P m R \<Longrightarrow> (\<And>e. P e \<Longrightarrow> P' e) \<Longrightarrow> (\<And>a. R a \<Longrightarrow> obeys P' (f a) Q) \<Longrightarrow> obeys P' (bnd m f) Q"
  by (rule obeys_bnd [OF obeys_weaken])

lemma obeys_bnd_any:
  "obeys P m (\<lambda>_. True) \<Longrightarrow> (\<And>a. obeys P (f a) Q) \<Longrightarrow> obeys P (bnd m f) Q"
  by (rule obeys_bnd)

lemma obeys_if [obeys_intro]:
  "(b \<Longrightarrow> obeys P m Q) \<Longrightarrow> (\<not> b \<Longrightarrow> obeys P m' Q) \<Longrightarrow> obeys P (if b then m else m') Q"
  by simp

lemma obeys_sum [obeys_intro]:
  "(\<And>a. x = Inl a \<Longrightarrow> obeys P (f a) Q) \<Longrightarrow> (\<And>b. x = Inr b \<Longrightarrow> obeys P (g b) Q) \<Longrightarrow>
     obeys P (case x of Inl a \<Rightarrow> f a | Inr b \<Rightarrow> g b) Q"
  by (cases x) auto

lemma obeys_option [obeys_intro]:
  "(x = None \<Longrightarrow> obeys P m Q) \<Longrightarrow> (\<And>a. x = Some a \<Longrightarrow> obeys P (f a) Q) \<Longrightarrow>
     obeys P (case x of None \<Rightarrow> m | Some a \<Rightarrow> f a) Q"
  by (cases x) auto

lemma obeys_prod [obeys_intro]:
  "(\<And>a b. x = (a, b) \<Longrightarrow> obeys P (f a b) Q) \<Longrightarrow> obeys P (case x of (a, b) \<Rightarrow> f a b) Q"
  by (cases x) auto

lemma obeys_list [obeys_intro]:
  "(xs = [] \<Longrightarrow> obeys P m Q) \<Longrightarrow> (\<And>y ys. xs = y # ys \<Longrightarrow> obeys P (f y ys) Q) \<Longrightarrow>
     obeys P (case xs of [] \<Rightarrow> m | y # ys \<Rightarrow> f y ys) Q"
  by (cases xs) auto

lemma obeys_Let [obeys_intro]: "obeys P (f a) Q \<Longrightarrow> obeys P (let x = a in f x) Q"
  by simp

lemma obeys_poll:
  assumes body: "\<And>s. I s \<Longrightarrow> obeys P (body s) (\<lambda>r. case r of Inl a \<Rightarrow> Q a | Inr s' \<Rightarrow> I s')"
    and tmo: "\<And>s. I s \<Longrightarrow> obeys P (tmo s) Q" and s: "I s"
  shows "obeys P (poll n body tmo s) Q"
  using s
proof (induction n arbitrary: s)
  case 0
  then show ?case by (simp add: tmo)
next
  case (Suc n)
  show ?case unfolding poll.simps
    by (rule obeys_bnd [OF body [OF Suc.prems]]) (auto intro: obeys_ret Suc.IH split: sum.splits)
qed

text \<open>A computation that returns from every history: it neither panics nor waits for ever.\<close>

definition returns :: "('e, 'a) go \<Rightarrow> bool" where
  "returns m \<longleftrightarrow> (\<forall>h. \<exists>a h'. m h = (Ret a, h'))"

named_theorems returns_intro \<open>rules for \<open>returns\<close>\<close>

lemma returnsE:
  assumes "returns m"
  obtains a h' where "m h = (Ret a, h')"
  using assms unfolding returns_def by blast

lemma returns_ret [returns_intro]: "returns (ret a)"
  by (simp add: returns_def ret_def)

lemma returns_call [returns_intro]: "returns (call e f)"
  by (simp add: returns_def call_def)

lemma returns_ask [returns_intro]: "returns (ask f)"
  by (simp add: returns_def ask_def)

lemma returns_bnd [returns_intro]: "returns m \<Longrightarrow> (\<And>a. returns (f a)) \<Longrightarrow> returns (bnd m f)"
  unfolding returns_def bnd_def by (metis (no_types, lifting) case_prod_conv outcome.simps(8))

lemma returns_if [returns_intro]:
  "(b \<Longrightarrow> returns m) \<Longrightarrow> (\<not> b \<Longrightarrow> returns m') \<Longrightarrow> returns (if b then m else m')"
  by simp

lemma returns_sum [returns_intro]:
  "(\<And>a. x = Inl a \<Longrightarrow> returns (f a)) \<Longrightarrow> (\<And>b. x = Inr b \<Longrightarrow> returns (g b)) \<Longrightarrow>
     returns (case x of Inl a \<Rightarrow> f a | Inr b \<Rightarrow> g b)"
  by (cases x) auto

lemma returns_option [returns_intro]:
  "(x = None \<Longrightarrow> returns m) \<Longrightarrow> (\<And>a. x = Some a \<Longrightarrow> returns (f a)) \<Longrightarrow>
     returns (case x of None \<Rightarrow> m | Some a \<Rightarrow> f a)"
  by (cases x) auto

lemma returns_prod [returns_intro]:
  "(\<And>a b. x = (a, b) \<Longrightarrow> returns (f a b)) \<Longrightarrow> returns (case x of (a, b) \<Rightarrow> f a b)"
  by (cases x) auto

lemma returns_Let [returns_intro]: "returns (f a) \<Longrightarrow> returns (let x = a in f x)"
  by simp

lemma returns_poll:
  assumes "\<And>s. returns (body s)" and "\<And>s. returns (tmo s)"
  shows "returns (poll n body tmo s)"
  by (induction n arbitrary: s) (auto intro!: returns_intro assms split: sum.splits)

text \<open>What one run of a computation adds to the history.\<close>

definition calls :: "('e, 'a) go \<Rightarrow> 'e list \<Rightarrow> 'e list" where
  "calls m h = drop (length h) (snd (m h))"

lemma obeys_calls: "obeys P m Q \<Longrightarrow> e \<in> set (calls m h) \<Longrightarrow> P e"
  by (erule obeysE [of P m Q h]) (simp add: calls_def)

lemma obeys_result: "obeys P m Q \<Longrightarrow> fst (m h) = Ret a \<Longrightarrow> Q a"
  by (erule obeysE [of P m Q h]) blast

lemma obeys_history: "obeys P m Q \<Longrightarrow> snd (m h) = h @ calls m h"
  by (erule obeysE [of P m Q h]) (simp add: calls_def)

lemma obeys_run:
  assumes "obeys P m Q" and "m h = (r, h')"
  shows "h' = h @ calls m h" and "\<And>e. e \<in> set (calls m h) \<Longrightarrow> P e" and "\<And>a. r = Ret a \<Longrightarrow> Q a"
  using obeys_history [OF assms(1), of h] obeys_calls [OF assms(1)] obeys_result [OF assms(1), of h] assms(2)
  by auto

lemma obeys_filter: "obeys (\<lambda>e. \<not> M e) m Q \<Longrightarrow> filter M (snd (m h)) = filter M h"
  by (erule obeysE [of _ m Q h]) simp

lemma bnd_cong_obeys:
  assumes "obeys P m R" and "\<And>a. R a \<Longrightarrow> f a = g a"
  shows "bnd m f = bnd m g"
proof (rule ext)
  fix h
  show "bnd m f h = bnd m g h"
    using obeys_result [OF assms(1), of h] assms(2) by (auto simp: bnd_def split: prod.splits outcome.splits)
qed

lemma returns_bnd_obeys:
  assumes "returns m" and "obeys P m R" and "\<And>a. R a \<Longrightarrow> returns (f a)"
  shows "returns (bnd m f)"
  unfolding returns_def
proof
  fix h
  obtain a h' where m: "m h = (Ret a, h')" using assms(1) by (rule returnsE)
  then have "R a" using obeys_result [OF assms(2), of h] by simp
  then obtain b h'' where "f a h' = (Ret b, h'')" using assms(3) returnsE by blast
  with m show "\<exists>b h''. bnd m f h = (Ret b, h'')" by (simp add: bnd_def)
qed

text \<open>How often a computation can make a call of a given kind.\<close>

definition at_most :: "nat \<Rightarrow> ('e \<Rightarrow> bool) \<Rightarrow> ('e, 'a) go \<Rightarrow> bool" where
  "at_most k M m \<longleftrightarrow> (\<forall>h. \<exists>new. snd (m h) = h @ new \<and> length (filter M new) \<le> k)"

lemma at_most_bnd:
  assumes m: "at_most a M m" and f: "\<And>x. at_most b M (f x)" and k: "a + b \<le> k"
  shows "at_most k M (bnd m f)"
  unfolding at_most_def
proof
  fix h
  obtain n where n: "snd (m h) = h @ n" "length (filter M n) \<le> a" using m unfolding at_most_def by blast
  show "\<exists>new. snd (bnd m f h) = h @ new \<and> length (filter M new) \<le> k"
  proof (cases "m h")
    case (Pair r h')
    show ?thesis
    proof (cases r)
      case (Ret x)
      obtain n' where "snd (f x h') = h' @ n'" "length (filter M n') \<le> b"
        using f [of x] unfolding at_most_def by blast
      with n Pair Ret k show ?thesis by (intro exI [of _ "n @ n'"]) (simp add: bnd_def)
    qed (use n Pair k in \<open>auto simp: bnd_def intro!: exI [of _ n]\<close>)
  qed
qed

lemma at_most_mono: "at_most a M m \<Longrightarrow> a \<le> b \<Longrightarrow> at_most b M m"
  unfolding at_most_def by (meson order.trans)

lemma at_most_0: "obeys (\<lambda>e. \<not> M e) m Q \<Longrightarrow> at_most k M m"
  unfolding at_most_def by (metis (no_types, lifting) filter_empty_conv le0 list.size(3) obeysE)

lemma at_most_ret [simp]: "at_most k M (ret a)"
  by (rule at_most_0 [OF obeys_ret]) (rule TrueI)

lemma at_most_panic [simp]: "at_most k M panic" and at_most_block [simp]: "at_most k M block"
  by (auto intro: at_most_0 obeys_intro)

lemma at_most_call: "at_most (Suc k) M (call e f)"
  by (simp add: at_most_def call_def)

lemma at_most_calls: "at_most k M m \<Longrightarrow> length (filter M (calls m h)) \<le> k"
  unfolding at_most_def calls_def by (metis append_eq_conv_conj)

end
