(* ===== verification/Structs.thy ===== *)
theory Structs
  imports Go_Base
begin

text \<open>
  The data of the program: the structs of \<open>replicator/structs\<close>, \<open>notifier\<close> and
  \<open>replicator/leader.go\<close>, and the records of the Nomad, Consul and AWS APIs that the
  program reads, with the fields it reads.  Field names carry a short prefix of their
  struct, since Isabelle's record selectors share one name space.  A \<open>sync.RWMutex\<close> is
  the number of its readers and whether a writer holds it.  Pointers to structs that are
  reached through one owner only are the structs themselves; \<open>nil\<close> pointers are \<open>None\<close>.
  The one exception is the state of a worker pool, \<open>nil\<close> until its first evaluation: every
  evaluation installs a fresh state before it reads it, and the model starts with the empty
  one.  The service of an \<open>AwsScalingProvider\<close> is the region it was created for.
\<close>

section \<open>Constants\<close>

abbreviation "ScalingMetricNone \<equiv> ''None''"
abbreviation "ScalingMetricDisk \<equiv> ''Disk''"
abbreviation "ScalingMetricMemory \<equiv> ''Memory''"
abbreviation "ScalingMetricProcessor \<equiv> ''CPU''"

abbreviation "ScalingDirectionOut \<equiv> ''Out''"
abbreviation "ScalingDirectionIn \<equiv> ''In''"
abbreviation "ScalingDirectionNone \<equiv> ''None''"

abbreviation "NodeStatusReady \<equiv> ''ready''"
abbreviation "NodeStatusDown \<equiv> ''down''"

abbreviation "ClusterType \<equiv> ''worker_pool''"
abbreviation "JobType \<equiv> ''job_group''"

section \<open>Records of the external APIs\<close>

record resources =
  rs_CPU :: int
  rs_MemoryMB :: int
  rs_DiskMB :: int

text \<open>\<open>nomad.Node\<close>; \<open>nd_IP\<close> is the attribute \<open>unique.network.ip-address\<close>.\<close>

record node =
  nd_ID :: string
  nd_Status :: string
  nd_Drain :: bool
  nd_Meta :: "(string, string) gomap"
  nd_HTTPAddr :: string
  nd_IP :: string
  nd_Resources :: resources

text \<open>\<open>nomad.NodeListStub\<close>.\<close>

record node_stub =
  ns_ID :: string
  ns_Status :: string
  ns_Drain :: bool
  ns_ModifyIndex :: int

text \<open>\<open>nomad.Allocation\<close> and \<open>nomad.AllocationListStub\<close>.\<close>

record allocation =
  al_ID :: string
  al_NodeID :: string
  al_ClientStatus :: string
  al_DesiredStatus :: string
  al_Resources :: resources

record task_group =
  tg_Name :: string
  tg_Count :: int
  tg_Tasks :: "resources list"
  tg_Meta :: "(string, string) gomap"
  tg_HasUpdate :: bool

text \<open>\<open>nomad.Job\<close> and \<open>nomad.JobListStub\<close>.\<close>

record job =
  jb_ID :: string
  jb_Type :: string
  jb_Status :: string
  jb_TaskGroups :: "task_group list"

record job_stub =
  js_ID :: string
  js_Status :: string
  js_ModifyIndex :: int

text \<open>\<open>autoscaling.Group\<close>.\<close>

record asg =
  ag_DesiredCapacity :: int
  ag_MinSize :: int
  ag_MaxSize :: int
  ag_Instances :: "string list"

record activity =
  ac_ID :: string
  ac_StatusCode :: string

text \<open>\<open>ec2.Instance\<close>.\<close>

record instance_info =
  ii_ID :: string
  ii_PrivateIP :: string
  ii_LaunchTime :: time

section \<open>structs/state.go\<close>

text \<open>\<open>ScalingState\<close>, without its mutex, which the program never locks.\<close>

record scaling_state =
  st_EligibleNodes :: "string list"
  st_FailsafeAdmin :: bool
  st_FailsafeMode :: bool
  st_FailureCount :: int
  st_LastNotificationEvent :: time
  st_LastScalingEvent :: time
  st_LastUpdated :: time
  st_ResourceName :: string
  st_ResourceType :: string
  st_ScaleInRequests :: int
  st_ScaleOutRequests :: int
  st_ScalingDirection :: string
  st_StatePath :: string

definition empty_state :: scaling_state where
  "empty_state =
     \<lparr>st_EligibleNodes = [], st_FailsafeAdmin = False, st_FailsafeMode = False,
      st_FailureCount = 0, st_LastNotificationEvent = 0, st_LastScalingEvent = 0,
      st_LastUpdated = 0, st_ResourceName = [], st_ResourceType = [], st_ScaleInRequests = 0,
      st_ScaleOutRequests = 0, st_ScalingDirection = [], st_StatePath = []\<rparr>"

section \<open>structs/node\_discovery.go\<close>

datatype scaling_provider_kind = AwsScalingProvider string

record worker_pool =
  wp_Cooldown :: int
  wp_FaultTolerance :: int
  wp_Name :: string
  wp_NodeRegistrations :: "(string, time) gomap"
  wp_Nodes :: "(string, node) gomap"
  wp_NotificationUID :: string
  wp_ProtectedNode :: string
  wp_ProviderName :: string
  wp_Region :: string
  wp_RetryThreshold :: int
  wp_ScalingEnabled :: bool
  wp_ScalingProvider :: "scaling_provider_kind option"
  wp_ScalingThreshold :: int
  wp_State :: scaling_state

record rwlock =
  lk_Writer :: bool
  lk_Readers :: nat

record node_registry =
  nr_LastChangeIndex :: int
  nr_Lock :: rwlock
  nr_RegisteredNodes :: "(string, string) gomap"
  nr_RegisteredNodesHash :: int
  nr_WorkerPools :: "(string, worker_pool) gomap"

definition unlocked :: rwlock where
  "unlocked = \<lparr>lk_Writer = False, lk_Readers = 0\<rparr>"

definition NewNodeRegistry :: node_registry where
  "NewNodeRegistry =
     \<lparr>nr_LastChangeIndex = 0, nr_Lock = unlocked, nr_RegisteredNodes = [],
      nr_RegisteredNodesHash = 0, nr_WorkerPools = []\<rparr>"

definition NewWorkerPool :: worker_pool where
  "NewWorkerPool =
     \<lparr>wp_Cooldown = 300, wp_FaultTolerance = 1, wp_Name = [], wp_NodeRegistrations = [],
      wp_Nodes = [], wp_NotificationUID = [], wp_ProtectedNode = [], wp_ProviderName = [],
      wp_Region = [], wp_RetryThreshold = 3, wp_ScalingEnabled = False,
      wp_ScalingProvider = None, wp_ScalingThreshold = 3, wp_State = empty_state\<rparr>"

record most_recent_node =
  mr_InstanceID :: string
  mr_InstanceIP :: string
  mr_MostRecentLaunch :: time

definition no_recent_node :: most_recent_node where
  "no_recent_node = \<lparr>mr_InstanceID = [], mr_InstanceIP = [], mr_MostRecentLaunch = 0\<rparr>"

section \<open>structs/nomad.go\<close>

record allocation_resources =
  ar_MemoryMB :: int
  ar_CPUMHz :: int
  ar_DiskMB :: int
  ar_MemoryPercent :: float64
  ar_CPUPercent :: float64
  ar_DiskPercent :: float64

definition no_resources :: allocation_resources where
  "no_resources =
     \<lparr>ar_MemoryMB = 0, ar_CPUMHz = 0, ar_DiskMB = 0, ar_MemoryPercent = Fin 0,
      ar_CPUPercent = Fin 0, ar_DiskPercent = Fin 0\<rparr>"

record scaling_metric =
  sm_Type :: string
  sm_Capacity :: int
  sm_Utilization :: int

record node_allocation =
  na_NodeID :: string
  na_UsedCapacity :: allocation_resources

record cluster_capacity =
  cc_NodeCount :: int
  cc_ScalingMetric :: scaling_metric
  cc_MaxAllowedUtilization :: int
  cc_TotalCapacity :: allocation_resources
  cc_UsedCapacity :: allocation_resources
  cc_TaskAllocation :: allocation_resources
  cc_NodeList :: "string list"
  cc_NodeAllocations :: "node_allocation list"
  cc_ScalingDirection :: string

definition empty_capacity :: cluster_capacity where
  "empty_capacity =
     \<lparr>cc_NodeCount = 0, cc_ScalingMetric = \<lparr>sm_Type = [], sm_Capacity = 0, sm_Utilization = 0\<rparr>,
      cc_MaxAllowedUtilization = 0, cc_TotalCapacity = no_resources,
      cc_UsedCapacity = no_resources, cc_TaskAllocation = no_resources, cc_NodeList = [],
      cc_NodeAllocations = [], cc_ScalingDirection = []\<rparr>"

section \<open>structs/job\_scaling.go\<close>

text \<open>\<open>gp_Tasks\<close> stands for the field \<open>Tasks.Resources\<close>; \<open>Tasks.TaskName\<close> is never used.\<close>

record group_policy =
  gp_Cooldown :: int
  gp_Enabled :: bool
  gp_RetryThreshold :: int
  gp_GroupName :: string
  gp_Max :: int
  gp_Min :: int
  gp_ScaleDirection :: string
  gp_ScaleInCPU :: float64
  gp_ScaleInMem :: float64
  gp_ScalingMetric :: string
  gp_ScaleOutCPU :: float64
  gp_ScaleOutMem :: float64
  gp_Tasks :: allocation_resources
  gp_UID :: string

definition NewGroupScalingPolicy :: group_policy where
  "NewGroupScalingPolicy =
     \<lparr>gp_Cooldown = 60, gp_Enabled = False, gp_RetryThreshold = 1, gp_GroupName = [],
      gp_Max = 0, gp_Min = 0, gp_ScaleDirection = [], gp_ScaleInCPU = Fin 0,
      gp_ScaleInMem = Fin 0, gp_ScalingMetric = [], gp_ScaleOutCPU = Fin 0,
      gp_ScaleOutMem = Fin 0, gp_Tasks = no_resources, gp_UID = []\<rparr>"

text \<open>
  \<open>JobScalingPolicies\<close>, without its lock, which every critical section releases on all its
  paths.  The slices of \<open>Policies\<close> hold pointers, and one update may store the same pointer
  several times, so the policies live in a heap of their own: \<open>jp_Next\<close> is the next free
  address.
\<close>

type_synonym ptr = nat

record job_policies =
  jp_LastChangeIndex :: int
  jp_Policies :: "(string, ptr list) gomap"
  jp_Heap :: "ptr \<Rightarrow> group_policy"
  jp_Next :: ptr

definition newJobScalingPolicy :: job_policies where
  "newJobScalingPolicy =
     \<lparr>jp_LastChangeIndex = 0, jp_Policies = [], jp_Heap = (\<lambda>_. NewGroupScalingPolicy), jp_Next = 0\<rparr>"

section \<open>notifier/notifier.go\<close>

record failure_message =
  fm_AlertUID :: string
  fm_ClusterIdentifier :: string
  fm_Reason :: string
  fm_ResourceID :: string
  fm_ResourceType :: string
  fm_StatePath :: string

section \<open>structs/config.go\<close>

text \<open>
  The configured notification backends are their names and configurations; the two
  clients are part of the environment.  \<open>RPCAddr\<close> is an address and a port.
\<close>

record notifier =
  no_Name :: string
  no_Config :: "(string, string) gomap"

record telemetry =
  tl_StatsdAddress :: string

record notification =
  nt_ClusterIdentifier :: string
  nt_PagerDutyServiceKey :: string
  nt_OpsGenieAPIKey :: string
  nt_Notifiers :: "notifier list"

record config =
  cf_BindAddress :: string
  cf_ClusterScalingDisable :: bool
  cf_ClusterScalingInterval :: int
  cf_Consul :: string
  cf_ConsulKeyRoot :: string
  cf_ConsulToken :: string
  cf_HTTPPort :: string
  cf_JobScalingDisable :: bool
  cf_JobScalingInterval :: int
  cf_LogLevel :: string
  cf_Nomad :: string
  cf_NomadToken :: string
  cf_NomadTLSServerName :: string
  cf_Notification :: "notification option"
  cf_RPCAddr :: "(string \<times> int) option"
  cf_RPCPort :: int
  cf_ScalingConcurrency :: int
  cf_Telemetry :: "telemetry option"

end
