(* ===== verification/Flags.thy ===== *)
theory Flags
  imports Structs
begin

text \<open>
  The command line, as Go's \<open>flag\<close> package reads it (of the release the repository is built
  with): a set of flags gives for each name the variable it sets, and \<open>Parse\<close> works through the
  arguments up to the first that is no flag.  The variables are the fields of a record of type
  \<open>'c\<close>, given by their updates.
\<close>

datatype 'c flag_var =
    StringVar "string \<Rightarrow> 'c \<Rightarrow> 'c"
  | IntVar "int \<Rightarrow> 'c \<Rightarrow> 'c"
  | BoolVar "bool \<Rightarrow> 'c \<Rightarrow> 'c"

type_synonym 'c flag_set = "(string \<times> 'c flag_var) list"

section \<open>strconv\<close>

definition ParseBool :: "string \<Rightarrow> bool option" where
  "ParseBool s =
     (if s \<in> set [''1'', ''t'', ''T'', ''true'', ''TRUE'', ''True''] then Some True
      else if s \<in> set [''0'', ''f'', ''F'', ''false'', ''FALSE'', ''False''] then Some False
      else None)"

definition digit_val :: "nat \<Rightarrow> char \<Rightarrow> nat option" where
  "digit_val base c =
     (let n = (of_char c :: nat);
          v = (if 48 \<le> n \<and> n \<le> 57 then n - 48
               else if 97 \<le> n \<and> n \<le> 122 then n - 87
               else if 65 \<le> n \<and> n \<le> 90 then n - 55
               else base)
      in if v < base then Some v else None)"

fun parse_digits :: "nat \<Rightarrow> nat \<Rightarrow> string \<Rightarrow> nat option" where
  "parse_digits base acc [] = Some acc"
| "parse_digits base acc (c # cs) =
     (case digit_val base c of None \<Rightarrow> None | Some v \<Rightarrow> parse_digits base (acc * base + v) cs)"

text \<open>\<open>ParseUint(s, 0, 64)\<close>: the base is taken from the prefix.\<close>

definition ParseUint :: "string \<Rightarrow> nat option" where
  "ParseUint s =
     (if s = [] then None
      else if hd s = CHR ''0'' \<and> 1 < length s \<and> s ! 1 \<in> {CHR ''x'', CHR ''X''} then
        (if length s < 3 then None else parse_digits 16 0 (drop 2 s))
      else if hd s = CHR ''0'' then parse_digits 8 0 (tl s)
      else parse_digits 10 0 s)"

definition ParseInt :: "string \<Rightarrow> int option" where
  "ParseInt s =
     (let neg = (s \<noteq> [] \<and> hd s = CHR ''-'');
          digits = (if s \<noteq> [] \<and> hd s \<in> {CHR ''+'', CHR ''-''} then tl s else s)
      in case ParseUint digits of
           None \<Rightarrow> None
         | Some n \<Rightarrow>
             (if \<not> neg \<and> 2 ^ 63 \<le> n \<or> neg \<and> 2 ^ 63 < n then None
              else Some (if neg then - int n else int n)))"

section \<open>flag\<close>

datatype argument = NonFlag | Terminator | BadFlag | Flag string "string option"

definition named_flag :: "string \<Rightarrow> argument" where
  "named_flag name =
     (if name = [] \<or> hd name \<in> {CHR ''-'', CHR ''=''} then BadFlag
      else
        let value = dropWhile (\<lambda>c. c \<noteq> CHR ''='') name
        in Flag (takeWhile (\<lambda>c. c \<noteq> CHR ''='') name) (if value = [] then None else Some (tl value)))"

definition argument_of :: "string \<Rightarrow> argument" where
  "argument_of s =
     (if length s < 2 \<or> hd s \<noteq> CHR ''-'' then NonFlag
      else if s ! 1 = CHR ''-'' then (if length s = 2 then Terminator else named_flag (drop 2 s))
      else named_flag (drop 1 s))"

text \<open>A boolean flag takes a value only after \<open>=\<close>; the others take the next argument.\<close>

definition take_value :: "string option \<Rightarrow> string list \<Rightarrow> (string \<times> string list) option" where
  "take_value value rest =
     (case value of
        Some v \<Rightarrow> Some (v, rest)
      | None \<Rightarrow> (case rest of [] \<Rightarrow> None | v # rest' \<Rightarrow> Some (v, rest')))"

definition set_flag :: "'c flag_var \<Rightarrow> string option \<Rightarrow> string list \<Rightarrow> 'c \<Rightarrow> ('c \<times> string list) option" where
  "set_flag var value rest c =
     (case var of
        BoolVar f \<Rightarrow>
          (case value of
             None \<Rightarrow> Some (f True c, rest)
           | Some v \<Rightarrow> map_option (\<lambda>b. (f b c, rest)) (ParseBool v))
      | StringVar f \<Rightarrow> map_option (\<lambda>(v, rest'). (f v c, rest')) (take_value value rest)
      | IntVar f \<Rightarrow>
          (case take_value value rest of
             None \<Rightarrow> None
           | Some (v, rest') \<Rightarrow> map_option (\<lambda>i. (f i c, rest')) (ParseInt v)))"

lemma set_flag_rest: "set_flag var value rest c = Some (c', rest') \<Longrightarrow> length rest' \<le> length rest"
  by (auto simp: set_flag_def take_value_def split: flag_var.splits option.splits list.splits)

function Parse :: "'c flag_set \<Rightarrow> string list \<Rightarrow> 'c \<Rightarrow> ('c \<times> string list) option" where
  "Parse flags [] c = Some (c, [])"
| "Parse flags (s # rest) c =
     (case argument_of s of
        NonFlag \<Rightarrow> Some (c, s # rest)
      | Terminator \<Rightarrow> Some (c, rest)
      | BadFlag \<Rightarrow> None
      | Flag name value \<Rightarrow>
          (case map_of flags name of
             None \<Rightarrow> None
           | Some var \<Rightarrow>
               (case set_flag var value rest c of
                  None \<Rightarrow> None
                | Some (c', rest') \<Rightarrow> Parse flags rest' c')))"
  by pat_completeness auto
termination
  by (relation "measure (\<lambda>(flags, args, c). length args)") (auto dest: set_flag_rest)

section \<open>What a command line can do\<close>

text \<open>A property that every flag keeps is kept by the parser, and a value in its width is one
  that a Go variable can hold.\<close>

fun var_keeps :: "('c \<Rightarrow> bool) \<Rightarrow> 'c flag_var \<Rightarrow> bool" where
  "var_keeps P (StringVar f) = (\<forall>v c. P c \<longrightarrow> P (f v c))"
| "var_keeps P (IntVar f) = (\<forall>v c. P c \<longrightarrow> in64 v \<longrightarrow> P (f v c))"
| "var_keeps P (BoolVar f) = (\<forall>v c. P c \<longrightarrow> P (f v c))"

lemma ParseInt_width: "ParseInt s = Some i \<Longrightarrow> in64 i"
  by (auto simp: ParseInt_def Let_def split: option.splits if_splits)

lemma set_flag_keeps: "var_keeps P var \<Longrightarrow> P c \<Longrightarrow> set_flag var value rest c = Some (c', rest') \<Longrightarrow> P c'"
  by (cases var) (auto simp: set_flag_def dest: ParseInt_width split: option.splits)

lemma Parse_keeps:
  assumes "\<And>n v. (n, v) \<in> set flags \<Longrightarrow> var_keeps P v" and "P c" and "Parse flags args c = Some (c', rest)"
  shows "P c'"
  using assms
proof (induction flags args c rule: Parse.induct)
  case (2 flags s rest0 c)
  show ?case
  proof (cases "argument_of s")
    case (Flag n opt)
    obtain var c1 rest1 where "map_of flags n = Some var" "set_flag var opt rest0 c = Some (c1, rest1)"
      "Parse flags rest1 c1 = Some (c', rest)"
      using "2.prems"(3) Flag by (auto split: option.splits)
    moreover from this have "P c1" using set_flag_keeps "2.prems"(1,2) map_of_SomeD by metis
    ultimately show ?thesis using "2.IH" [OF Flag _ _ refl] "2.prems"(1) by blast
  qed (use "2.prems" in \<open>auto\<close>)
qed auto

end
