(* ===== verification/World.thy ===== *)
theory World
  imports Structs
begin

text \<open>
  The outside of the program.  Consul, Nomad, AWS, the clock, the scheduler and the
  notification services are not code of the repository: the environment \<open>env\<close> is a
  parameter of every operation that uses them, a record of functions that give the answer
  to each call from the history of all calls made before it.  Nothing is assumed of these
  answers; a theorem that needs a law of a service names it as a hypothesis.  Each call
  of the program is one wrapper below, which appends its event to the history.
\<close>

section \<open>Stored values\<close>

text \<open>
  A value of the Consul key/value store, as \<open>encoding/json\<close> sees its text.  \<open>JTime\<close> is a
  string in RFC 3339 form, given by its instant; \<open>JInvalid\<close> is text that is not JSON.
\<close>

datatype json =
  JNull | JBool bool | JInt int | JTime time | JStr string
  | JArr "json list" | JObj "(string \<times> json) list" | JInvalid

record kvpair =
  kp_Value :: json
  kp_Session :: string

record session =
  ss_ID :: string
  ss_Node :: string

section \<open>Events\<close>

datatype event =
    Now
  | KVGet string | KVPut string json
  | KVAcquire string string | KVRelease string string
  | SessionCreate int | SessionInfo string | SessionRenew string | SessionDestroy string
  | NodesList int | NodeInfo string | NodeAllocations string | UpdateDrain string
  | JobsList int | JobInfo string | JobAllocations string | JobRegister job
  | LatestDeployment string
  | AllocInfo string | AllocStats string | EvalInfo string | DeploymentInfo string int
  | DescribeASG string string | UpdateASG string string int | DetachInstances string string string
  | DescribeActivities string string | DescribeInstancesASG string string
  | DescribeInstancesIP string string | TerminateInstances string string
  | DescribeInstanceStatus string string
  | Notify notifier failure_message

type_synonym log = "event list"
type_synonym 'a act = "(event, 'a) go"

section \<open>The environment\<close>

record runtime =
  en_now :: "log \<Rightarrow> time"
  en_ticks :: "log \<Rightarrow> nat"
  en_order :: "log \<Rightarrow> string list \<Rightarrow> string list"
  en_registry :: "log \<Rightarrow> node_registry"
  en_getenv :: "string \<Rightarrow> string"
  en_spare :: "log \<Rightarrow> nat"
  en_sched :: "log \<Rightarrow> nat"

record consul_api = runtime +
  en_kv_get :: "log \<Rightarrow> string \<Rightarrow> kvpair option result"
  en_kv_put :: "log \<Rightarrow> string \<Rightarrow> json \<Rightarrow> go_error option"
  en_kv_acquire :: "log \<Rightarrow> string \<Rightarrow> string \<Rightarrow> bool result"
  en_kv_release :: "log \<Rightarrow> string \<Rightarrow> string \<Rightarrow> bool result"
  en_session_create :: "log \<Rightarrow> int \<Rightarrow> string result"
  en_session_info :: "log \<Rightarrow> string \<Rightarrow> session option result"
  en_session_renew :: "log \<Rightarrow> string \<Rightarrow> int option result"
  en_session_destroy :: "log \<Rightarrow> string \<Rightarrow> go_error option"

record nomad_api = consul_api +
  en_nodes_list :: "log \<Rightarrow> (node_stub list \<times> int) result"
  en_node_info :: "log \<Rightarrow> string \<Rightarrow> node result"
  en_node_allocs :: "log \<Rightarrow> string \<Rightarrow> allocation list result"
  en_update_drain :: "log \<Rightarrow> string \<Rightarrow> go_error option"
  en_jobs_list :: "log \<Rightarrow> (job_stub list \<times> int) result"
  en_job_info :: "log \<Rightarrow> string \<Rightarrow> job result"
  en_job_allocs :: "log \<Rightarrow> string \<Rightarrow> allocation list result"
  en_job_register :: "log \<Rightarrow> job \<Rightarrow> string result"
  en_latest_deployment :: "log \<Rightarrow> string \<Rightarrow> string option result"
  en_alloc_info :: "log \<Rightarrow> string \<Rightarrow> allocation option result"
  en_alloc_stats :: "log \<Rightarrow> string \<Rightarrow> (float64 \<times> int) result"
  en_eval_info :: "log \<Rightarrow> string \<Rightarrow> string result"
  en_deployment_info :: "log \<Rightarrow> string \<Rightarrow> (string \<times> int) result"

record env = nomad_api +
  en_describe_asg :: "log \<Rightarrow> string \<Rightarrow> string \<Rightarrow> asg list \<times> go_error option"
  en_update_asg :: "log \<Rightarrow> string \<Rightarrow> string \<Rightarrow> int \<Rightarrow> go_error option"
  en_detach :: "log \<Rightarrow> string \<Rightarrow> string \<Rightarrow> string \<Rightarrow> activity list result"
  en_activities :: "log \<Rightarrow> string \<Rightarrow> string \<Rightarrow> activity list result"
  en_instances_asg :: "log \<Rightarrow> string \<Rightarrow> instance_info list list result"
  en_instances_ip :: "log \<Rightarrow> string \<Rightarrow> instance_info list list result"
  en_terminate :: "log \<Rightarrow> string \<Rightarrow> go_error option"
  en_instance_status :: "log \<Rightarrow> string \<Rightarrow> string list result"

section \<open>The calls\<close>

definition time_Now :: "env \<Rightarrow> time act" where
  "time_Now E = call Now (en_now E)"

definition ticks :: "env \<Rightarrow> nat act" where
  "ticks E = ask (en_ticks E)"

definition range_keys :: "env \<Rightarrow> (string, 'v) gomap \<Rightarrow> string list act" where
  "range_keys E m = ask (\<lambda>h. range_order (en_order E h) m)"

definition view_registry :: "env \<Rightarrow> node_registry act" where
  "view_registry E = ask (en_registry E)"

text \<open>The room a slice has beyond its length, and a choice of the scheduler.\<close>

definition spare :: "env \<Rightarrow> nat act" where
  "spare E = ask (en_spare E)"

definition sched :: "env \<Rightarrow> nat act" where
  "sched E = ask (en_sched E)"

definition kv_get :: "env \<Rightarrow> string \<Rightarrow> kvpair option result act" where
  "kv_get E k = call (KVGet k) (\<lambda>h. en_kv_get E h k)"

definition kv_put :: "env \<Rightarrow> string \<Rightarrow> json \<Rightarrow> go_error option act" where
  "kv_put E k v = call (KVPut k v) (\<lambda>h. en_kv_put E h k v)"

definition kv_acquire :: "env \<Rightarrow> string \<Rightarrow> string \<Rightarrow> bool result act" where
  "kv_acquire E k s = call (KVAcquire k s) (\<lambda>h. en_kv_acquire E h k s)"

definition kv_release :: "env \<Rightarrow> string \<Rightarrow> string \<Rightarrow> bool result act" where
  "kv_release E k s = call (KVRelease k s) (\<lambda>h. en_kv_release E h k s)"

definition session_create :: "env \<Rightarrow> int \<Rightarrow> string result act" where
  "session_create E ttl = call (SessionCreate ttl) (\<lambda>h. en_session_create E h ttl)"

definition session_info :: "env \<Rightarrow> string \<Rightarrow> session option result act" where
  "session_info E s = call (SessionInfo s) (\<lambda>h. en_session_info E h s)"

definition session_renew :: "env \<Rightarrow> string \<Rightarrow> int option result act" where
  "session_renew E s = call (SessionRenew s) (\<lambda>h. en_session_renew E h s)"

definition session_destroy :: "env \<Rightarrow> string \<Rightarrow> go_error option act" where
  "session_destroy E s = call (SessionDestroy s) (\<lambda>h. en_session_destroy E h s)"

definition nodes_list :: "env \<Rightarrow> int \<Rightarrow> (node_stub list \<times> int) result act" where
  "nodes_list E w = call (NodesList w) (en_nodes_list E)"

definition node_info :: "env \<Rightarrow> string \<Rightarrow> node result act" where
  "node_info E n = call (NodeInfo n) (\<lambda>h. en_node_info E h n)"

definition node_allocs :: "env \<Rightarrow> string \<Rightarrow> allocation list result act" where
  "node_allocs E n = call (NodeAllocations n) (\<lambda>h. en_node_allocs E h n)"

definition update_drain :: "env \<Rightarrow> string \<Rightarrow> go_error option act" where
  "update_drain E n = call (UpdateDrain n) (\<lambda>h. en_update_drain E h n)"

definition jobs_list :: "env \<Rightarrow> int \<Rightarrow> (job_stub list \<times> int) result act" where
  "jobs_list E w = call (JobsList w) (en_jobs_list E)"

definition job_info :: "env \<Rightarrow> string \<Rightarrow> job result act" where
  "job_info E j = call (JobInfo j) (\<lambda>h. en_job_info E h j)"

definition job_allocs :: "env \<Rightarrow> string \<Rightarrow> allocation list result act" where
  "job_allocs E j = call (JobAllocations j) (\<lambda>h. en_job_allocs E h j)"

definition job_register :: "env \<Rightarrow> job \<Rightarrow> string result act" where
  "job_register E j = call (JobRegister j) (\<lambda>h. en_job_register E h j)"

definition latest_deployment :: "env \<Rightarrow> string \<Rightarrow> string option result act" where
  "latest_deployment E j = call (LatestDeployment j) (\<lambda>h. en_latest_deployment E h j)"

definition alloc_info :: "env \<Rightarrow> string \<Rightarrow> allocation option result act" where
  "alloc_info E a = call (AllocInfo a) (\<lambda>h. en_alloc_info E h a)"

definition alloc_stats :: "env \<Rightarrow> string \<Rightarrow> (float64 \<times> int) result act" where
  "alloc_stats E a = call (AllocStats a) (\<lambda>h. en_alloc_stats E h a)"

definition eval_info :: "env \<Rightarrow> string \<Rightarrow> string result act" where
  "eval_info E v = call (EvalInfo v) (\<lambda>h. en_eval_info E h v)"

definition deployment_info :: "env \<Rightarrow> string \<Rightarrow> int \<Rightarrow> (string \<times> int) result act" where
  "deployment_info E d w = call (DeploymentInfo d w) (\<lambda>h. en_deployment_info E h d)"

definition describe_asg :: "env \<Rightarrow> string \<Rightarrow> string \<Rightarrow> (asg list \<times> go_error option) act" where
  "describe_asg E svc n = call (DescribeASG svc n) (\<lambda>h. en_describe_asg E h svc n)"

definition update_asg :: "env \<Rightarrow> string \<Rightarrow> string \<Rightarrow> int \<Rightarrow> go_error option act" where
  "update_asg E svc n c = call (UpdateASG svc n c) (\<lambda>h. en_update_asg E h svc n c)"

definition detach_instances :: "env \<Rightarrow> string \<Rightarrow> string \<Rightarrow> string \<Rightarrow> activity list result act" where
  "detach_instances E svc n i = call (DetachInstances svc n i) (\<lambda>h. en_detach E h svc n i)"

definition describe_activities :: "env \<Rightarrow> string \<Rightarrow> string \<Rightarrow> activity list result act" where
  "describe_activities E svc a = call (DescribeActivities svc a) (\<lambda>h. en_activities E h svc a)"

definition describe_instances_asg :: "env \<Rightarrow> string \<Rightarrow> string \<Rightarrow> instance_info list list result act" where
  "describe_instances_asg E n r = call (DescribeInstancesASG n r) (\<lambda>h. en_instances_asg E h n)"

definition describe_instances_ip :: "env \<Rightarrow> string \<Rightarrow> string \<Rightarrow> instance_info list list result act" where
  "describe_instances_ip E ip r = call (DescribeInstancesIP ip r) (\<lambda>h. en_instances_ip E h ip)"

definition terminate_instances :: "env \<Rightarrow> string \<Rightarrow> string \<Rightarrow> go_error option act" where
  "terminate_instances E i r = call (TerminateInstances i r) (\<lambda>h. en_terminate E h i)"

definition instance_status :: "env \<Rightarrow> string \<Rightarrow> string \<Rightarrow> string list result act" where
  "instance_status E i r = call (DescribeInstanceStatus i r) (\<lambda>h. en_instance_status E h i)"

definition send_notification :: "notifier \<Rightarrow> failure_message \<Rightarrow> unit act" where
  "send_notification n m = call (Notify n m) (\<lambda>_. ())"

lemmas api_defs [go_simps] =
  time_Now_def ticks_def range_keys_def view_registry_def spare_def sched_def kv_get_def kv_put_def kv_acquire_def
  kv_release_def session_create_def session_info_def session_renew_def session_destroy_def
  nodes_list_def node_info_def node_allocs_def update_drain_def jobs_list_def job_info_def
  job_allocs_def job_register_def latest_deployment_def alloc_info_def alloc_stats_def
  eval_info_def deployment_info_def describe_asg_def update_asg_def detach_instances_def
  describe_activities_def describe_instances_asg_def describe_instances_ip_def
  terminate_instances_def instance_status_def send_notification_def

section \<open>The calls that change something outside\<close>

text \<open>The calls that alter the cluster: its nodes, its jobs, its autoscaling groups.\<close>

fun mutating :: "event \<Rightarrow> bool" where
  "mutating (UpdateDrain _) = True"
| "mutating (JobRegister _) = True"
| "mutating (UpdateASG _ _ _) = True"
| "mutating (DetachInstances _ _ _) = True"
| "mutating (TerminateInstances _ _) = True"
| "mutating _ = False"

text \<open>The calls that change nothing outside: they read the clock or ask a service.\<close>

fun reading :: "event \<Rightarrow> bool" where
  "reading (KVPut _ _) = False"
| "reading (KVAcquire _ _) = False"
| "reading (KVRelease _ _) = False"
| "reading (SessionCreate _) = False"
| "reading (SessionRenew _) = False"
| "reading (SessionDestroy _) = False"
| "reading (Notify _ _) = False"
| "reading e = (\<not> mutating e)"

lemma reading_quiet: "reading e \<Longrightarrow> \<not> mutating e"
  by (cases e) auto

abbreviation quiet :: "event \<Rightarrow> bool" where
  "quiet e \<equiv> \<not> mutating e"

section \<open>A reference environment\<close>

text \<open>
  An environment in which every service works: the key/value store returns what was last
  written, calls succeed, the clock stands still.  The witnesses of the development are
  evaluated in it or in variations of it.
\<close>

fun last_put :: "log \<Rightarrow> string \<Rightarrow> json option" where
  "last_put [] k = None"
| "last_put (e # es) k =
     (case last_put es k of
        Some v \<Rightarrow> Some v
      | None \<Rightarrow> (case e of KVPut k' v \<Rightarrow> (if k' = k then Some v else None) | _ \<Rightarrow> None))"

lemma last_put_append:
  "last_put (h @ h') k = (case last_put h' k of Some v \<Rightarrow> Some v | None \<Rightarrow> last_put h k)"
  by (induction h) (auto split: option.splits)

definition ref_env :: env where
  "ref_env =
     \<lparr>en_now = (\<lambda>_. 63650000000 * Second), en_ticks = (\<lambda>_. 2), en_order = (\<lambda>_ ks. ks),
      en_registry = (\<lambda>_. NewNodeRegistry), en_getenv = (\<lambda>_. []), en_spare = (\<lambda>_. 0), en_sched = (\<lambda>_. 0),
      en_kv_get = (\<lambda>h k. Inr (map_option (\<lambda>v. \<lparr>kp_Value = v, kp_Session = []\<rparr>) (last_put h k))),
      en_kv_put = (\<lambda>_ _ _. None), en_kv_acquire = (\<lambda>_ _ _. Inr True),
      en_kv_release = (\<lambda>_ _ _. Inr True), en_session_create = (\<lambda>_ _. Inr ''s1''),
      en_session_info = (\<lambda>_ s. Inr (Some \<lparr>ss_ID = s, ss_Node = ''n1''\<rparr>)),
      en_session_renew = (\<lambda>_ _. Inr (Some 12)), en_session_destroy = (\<lambda>_ _. None),
      en_nodes_list = (\<lambda>_. Inr ([], 1)), en_node_info = (\<lambda>_ _. Inl (ApiErr ''404'')),
      en_node_allocs = (\<lambda>_ _. Inr []), en_update_drain = (\<lambda>_ _. None),
      en_jobs_list = (\<lambda>_. Inr ([], 1)), en_job_info = (\<lambda>_ _. Inl (ApiErr ''404'')),
      en_job_allocs = (\<lambda>_ _. Inr []), en_job_register = (\<lambda>_ _. Inr ''e1''),
      en_latest_deployment = (\<lambda>_ _. Inr None), en_alloc_info = (\<lambda>_ _. Inr None),
      en_alloc_stats = (\<lambda>_ _. Inr (Fin 0, 0)), en_eval_info = (\<lambda>_ _. Inr ''d1''),
      en_deployment_info = (\<lambda>_ _. Inr (''successful'', 2)),
      en_describe_asg = (\<lambda>_ _ _. ([], None)), en_update_asg = (\<lambda>_ _ _ _. None),
      en_detach = (\<lambda>_ _ _ _. Inr []), en_activities = (\<lambda>_ _ _. Inr []),
      en_instances_asg = (\<lambda>_ _. Inr []), en_instances_ip = (\<lambda>_ _. Inr []),
      en_terminate = (\<lambda>_ _. None), en_instance_status = (\<lambda>_ _. Inr [''terminated''])\<rparr>"

definition demo_message :: failure_message where
  "demo_message =
     \<lparr>fm_AlertUID = ''REP1'', fm_ClusterIdentifier = [], fm_Reason = [], fm_ResourceID = ''pool'',
      fm_ResourceType = ClusterType, fm_StatePath = []\<rparr>"

definition demo_config :: config where
  "demo_config =
     \<lparr>cf_BindAddress = ''127.0.0.1'', cf_ClusterScalingDisable = False, cf_ClusterScalingInterval = 10,
      cf_Consul = ''localhost:8500'', cf_ConsulKeyRoot = ''replicator/config'', cf_ConsulToken = [],
      cf_HTTPPort = ''1313'', cf_JobScalingDisable = False, cf_JobScalingInterval = 10,
      cf_LogLevel = ''INFO'', cf_Nomad = ''http://localhost:4646'', cf_NomadToken = [],
      cf_NomadTLSServerName = [],
      cf_Notification = Some \<lparr>nt_ClusterIdentifier = [], nt_PagerDutyServiceKey = ''k'', nt_OpsGenieAPIKey = [],
        nt_Notifiers = [\<lparr>no_Name = ''pagerduty'', no_Config = []\<rparr>]\<rparr>,
      cf_RPCAddr = None, cf_RPCPort = 1314, cf_ScalingConcurrency = 10, cf_Telemetry = None\<rparr>"

definition demo_node :: node where
  "demo_node =
     \<lparr>nd_ID = ''n1'', nd_Status = NodeStatusReady, nd_Drain = False, nd_Meta = [],
      nd_HTTPAddr = ''10.0.0.1:4646'', nd_IP = ''10.0.0.1'',
      nd_Resources = \<lparr>rs_CPU = 1000, rs_MemoryMB = 1000, rs_DiskMB = 1000\<rparr>\<rparr>"

definition demo_pool :: worker_pool where
  "demo_pool = NewWorkerPool\<lparr>wp_Name := ''pool'', wp_Region := ''r'', wp_ProviderName := ''aws'',
     wp_Nodes := [(''n1'', demo_node), (''n2'', demo_node\<lparr>nd_ID := ''n2'', nd_HTTPAddr := ''10.0.0.2:4646''\<rparr>)],
     wp_ScalingProvider := Some (AwsScalingProvider ''r''), wp_ScalingEnabled := True,
     wp_State := empty_state\<lparr>st_ScalingDirection := ScalingDirectionOut, st_StatePath := ''p'',
       st_EligibleNodes := [''10.0.0.1'']\<rparr>\<rparr>"

end
