(* ===== verification/State_Store.thy ===== *)
theory State_Store
  imports World
begin

text \<open>
  Persistent scaling state: \<open>client/state.go\<close> over the Consul key/value store, and the
  part of the \<open>ConsulClient\<close> interface (\<open>structs/consul.go\<close>) that the rest of the program
  uses for it.  The locale \<open>state_store\<close> is that interface with its contract; every
  component that persists state is written against it, and \<open>consulClient\<close> implements it.
\<close>

section \<open>encoding/json on a ScalingState\<close>

text \<open>
  Members appear under their \<open>json\<close> tags; \<open>ScalingDirection\<close> has the tag \<open>"-"\<close> and is
  not stored.  \<open>Marshal\<close> fails on a time whose year is outside 0 to 9999.  On decoding, a
  key matches a tag whatever its case; \<open>null\<close> leaves a field as it is (and empties a
  list); a member of another type is recorded as an error and the remaining members are
  still decoded.
\<close>

definition day :: int where "day = 86400 * Second"

definition time_ok :: "time \<Rightarrow> bool" where
  "time_ok t \<longleftrightarrow> - (366 * day) \<le> t \<and> t < 3652059 * day"

definition json_of_state :: "scaling_state \<Rightarrow> json" where
  "json_of_state s = JObj
     [(''eligible_nodes'', JArr (map JStr (st_EligibleNodes s))),
      (''failsafe_admin'', JBool (st_FailsafeAdmin s)),
      (''failsafe_mode'', JBool (st_FailsafeMode s)),
      (''failure_count'', JInt (st_FailureCount s)),
      (''last_notification_event'', JTime (st_LastNotificationEvent s)),
      (''last_scaling_event'', JTime (st_LastScalingEvent s)),
      (''last_updated'', JTime (st_LastUpdated s)),
      (''resource_name'', JStr (st_ResourceName s)),
      (''resource_type'', JStr (st_ResourceType s)),
      (''scalein_requests'', JInt (st_ScaleInRequests s)),
      (''scaleout_requests'', JInt (st_ScaleOutRequests s)),
      (''state_path'', JStr (st_StatePath s))]"

definition marshal_state :: "scaling_state \<Rightarrow> json result" where
  "marshal_state s =
     (if time_ok (st_LastNotificationEvent s) \<and> time_ok (st_LastScalingEvent s) \<and>
         time_ok (st_LastUpdated s)
      then Inr (json_of_state s)
      else Inl (Errorf ''Time.MarshalJSON: year outside of range [0,9999]'' None))"

definition lower_char :: "char \<Rightarrow> char" where
  "lower_char c =
     (if 65 \<le> (of_char c :: nat) \<and> (of_char c :: nat) \<le> 90 then char_of ((of_char c :: nat) + 32) else c)"

definition ToLower :: "string \<Rightarrow> string" where
  "ToLower s = map lower_char s"

abbreviation type_error :: go_error where
  "type_error \<equiv> Errorf ''json: cannot unmarshal value into Go struct field'' None"

fun dec_strings :: "json list \<Rightarrow> string list \<times> go_error option" where
  "dec_strings [] = ([], None)"
| "dec_strings (j # js) =
     (let (ss, e) = dec_strings js in
      case j of JStr s \<Rightarrow> (s # ss, e) | JNull \<Rightarrow> ([] # ss, e) | _ \<Rightarrow> ([] # ss, Some type_error))"

fun dec_list :: "json \<Rightarrow> string list \<Rightarrow> string list \<times> go_error option" where
  "dec_list (JArr js) _ = dec_strings js"
| "dec_list JNull _ = ([], None)"
| "dec_list _ old = (old, Some type_error)"

fun dec_bool :: "json \<Rightarrow> bool \<Rightarrow> bool \<times> go_error option" where
  "dec_bool (JBool b) _ = (b, None)"
| "dec_bool JNull old = (old, None)"
| "dec_bool _ old = (old, Some type_error)"

fun dec_int :: "json \<Rightarrow> int \<Rightarrow> int \<times> go_error option" where
  "dec_int (JInt n) old = (if in64 n then (n, None) else (old, Some type_error))"
| "dec_int JNull old = (old, None)"
| "dec_int _ old = (old, Some type_error)"

fun dec_time :: "json \<Rightarrow> time \<Rightarrow> time \<times> go_error option" where
  "dec_time (JTime t) _ = (t, None)"
| "dec_time JNull old = (old, None)"
| "dec_time _ old = (old, Some type_error)"

fun dec_string :: "json \<Rightarrow> string \<Rightarrow> string \<times> go_error option" where
  "dec_string (JStr s) _ = (s, None)"
| "dec_string JNull old = (old, None)"
| "dec_string _ old = (old, Some type_error)"

definition dec_member :: "string \<Rightarrow> json \<Rightarrow> scaling_state \<Rightarrow> scaling_state \<times> go_error option" where
  "dec_member key v s =
     (let k = ToLower key in
      if k = ''eligible_nodes'' then
        (let (x, e) = dec_list v (st_EligibleNodes s) in (s\<lparr>st_EligibleNodes := x\<rparr>, e))
      else if k = ''failsafe_admin'' then
        (let (x, e) = dec_bool v (st_FailsafeAdmin s) in (s\<lparr>st_FailsafeAdmin := x\<rparr>, e))
      else if k = ''failsafe_mode'' then
        (let (x, e) = dec_bool v (st_FailsafeMode s) in (s\<lparr>st_FailsafeMode := x\<rparr>, e))
      else if k = ''failure_count'' then
        (let (x, e) = dec_int v (st_FailureCount s) in (s\<lparr>st_FailureCount := x\<rparr>, e))
      else if k = ''last_notification_event'' then
        (let (x, e) = dec_time v (st_LastNotificationEvent s) in (s\<lparr>st_LastNotificationEvent := x\<rparr>, e))
      else if k = ''last_scaling_event'' then
        (let (x, e) = dec_time v (st_LastScalingEvent s) in (s\<lparr>st_LastScalingEvent := x\<rparr>, e))
      else if k = ''last_updated'' then
        (let (x, e) = dec_time v (st_LastUpdated s) in (s\<lparr>st_LastUpdated := x\<rparr>, e))
      else if k = ''resource_name'' then
        (let (x, e) = dec_string v (st_ResourceName s) in (s\<lparr>st_ResourceName := x\<rparr>, e))
      else if k = ''resource_type'' then
        (let (x, e) = dec_string v (st_ResourceType s) in (s\<lparr>st_ResourceType := x\<rparr>, e))
      else if k = ''scalein_requests'' then
        (let (x, e) = dec_int v (st_ScaleInRequests s) in (s\<lparr>st_ScaleInRequests := x\<rparr>, e))
      else if k = ''scaleout_requests'' then
        (let (x, e) = dec_int v (st_ScaleOutRequests s) in (s\<lparr>st_ScaleOutRequests := x\<rparr>, e))
      else if k = ''state_path'' then
        (let (x, e) = dec_string v (st_StatePath s) in (s\<lparr>st_StatePath := x\<rparr>, e))
      else (s, None))"

fun dec_members :: "(string \<times> json) list \<Rightarrow> scaling_state \<Rightarrow> scaling_state \<times> go_error option" where
  "dec_members [] s = (s, None)"
| "dec_members ((k, v) # ms) s =
     (let (s', e) = dec_member k v s; (s'', e') = dec_members ms s'
      in (s'', case e of None \<Rightarrow> e' | Some x \<Rightarrow> Some x))"

fun unmarshal_state :: "json \<Rightarrow> scaling_state \<Rightarrow> scaling_state \<times> go_error option" where
  "unmarshal_state (JObj ms) s = dec_members ms s"
| "unmarshal_state JNull s = (s, None)"
| "unmarshal_state JInvalid s = (s, Some (Errorf ''invalid character'' None))"
| "unmarshal_state _ s = (s, Some type_error)"

section \<open>client/state.go\<close>

definition PersistState :: "env \<Rightarrow> scaling_state \<Rightarrow> (scaling_state \<times> go_error option) act" where
  "PersistState E s0 =
     bnd (time_Now E) (\<lambda>t.
     let s = s0\<lparr>st_LastUpdated := t\<rparr> in
     case marshal_state s of
       Inl e \<Rightarrow> ret (s, Some (Errorf ''client/state: an error occurred when attempting to serialize scaling state'' (Some e)))
     | Inr d \<Rightarrow>
         bnd (kv_put E (st_StatePath s) d) (\<lambda>err.
         case err of
           Some e \<Rightarrow> ret (s, Some (Errorf ''client/state: an error occurred when attempting to write scaling state data to Consul'' (Some e)))
         | None \<Rightarrow> ret (s, None)))"

definition ReadState :: "env \<Rightarrow> scaling_state \<Rightarrow> bool \<Rightarrow> scaling_state act" where
  "ReadState E s force =
     bnd (kv_get E (st_StatePath s)) (\<lambda>r.
     case r of
       Inl e \<Rightarrow> ret s
     | Inr None \<Rightarrow>
         (if force then bnd (PersistState E s) (\<lambda>(s', err). ret s') else ret s)
     | Inr (Some pair) \<Rightarrow> ret (fst (unmarshal_state (kp_Value pair) s)))"

section \<open>The interface and its contract\<close>

text \<open>
  Persisting changes nothing of the state but its timestamp, and writes no key but the
  state's own path.  A read without initialisation writes nothing at all; one with
  initialisation writes at most the state's own path.
\<close>

record consul_client =
  ci_PersistState :: "scaling_state \<Rightarrow> (scaling_state \<times> go_error option) act"
  ci_ReadState :: "scaling_state \<Rightarrow> bool \<Rightarrow> scaling_state act"

definition consulClient :: "env \<Rightarrow> consul_client" where
  "consulClient E = \<lparr>ci_PersistState = PersistState E, ci_ReadState = ReadState E\<rparr>"

lemma consulClient_sel [simp]:
  "ci_PersistState (consulClient E) = PersistState E" "ci_ReadState (consulClient E) = ReadState E"
  by (simp_all add: consulClient_def)

fun writes_at :: "string \<Rightarrow> event \<Rightarrow> bool" where
  "writes_at p (KVPut k _) = (k = p)"
| "writes_at p Now = True"
| "writes_at p _ = False"

definition same_but_updated :: "scaling_state \<Rightarrow> scaling_state \<Rightarrow> bool" where
  "same_but_updated s s' \<longleftrightarrow> s\<lparr>st_LastUpdated := 0\<rparr> = s'\<lparr>st_LastUpdated := 0\<rparr>"

lemma writes_at_quiet: "writes_at p e \<Longrightarrow> quiet e"
  by (cases e) auto

lemma same_but_updated_refl [simp]: "same_but_updated s s"
  by (simp add: same_but_updated_def)

lemma same_but_updated_upd [simp]:
  "same_but_updated s (s'\<lparr>st_LastUpdated := t\<rparr>) = same_but_updated s s'"
  by (simp add: same_but_updated_def)

lemma same_but_updated_sel:
  assumes "same_but_updated s s'"
  shows "st_FailsafeMode s' = st_FailsafeMode s" and "st_FailureCount s' = st_FailureCount s"
    and "st_StatePath s' = st_StatePath s" and "st_ScaleInRequests s' = st_ScaleInRequests s"
    and "st_ScaleOutRequests s' = st_ScaleOutRequests s" and "st_EligibleNodes s' = st_EligibleNodes s"
    and "st_ScalingDirection s' = st_ScalingDirection s"
    and "st_LastScalingEvent s' = st_LastScalingEvent s"
    and "st_FailsafeAdmin s' = st_FailsafeAdmin s"
    and "st_LastNotificationEvent s' = st_LastNotificationEvent s"
    and "st_ResourceName s' = st_ResourceName s" and "st_ResourceType s' = st_ResourceType s"
  using assms by (cases s, cases s', simp add: same_but_updated_def)+

locale state_store =
  fixes C :: consul_client
  assumes persist: "obeys (writes_at (st_StatePath s)) (ci_PersistState C s) (\<lambda>(s', e). same_but_updated s s')"
    and read_force: "obeys (\<lambda>e. e = KVGet (st_StatePath s) \<or> writes_at (st_StatePath s) e)
      (ci_ReadState C s True) (\<lambda>_. True)"
    and read_only: "obeys (\<lambda>e. e = KVGet (st_StatePath s)) (ci_ReadState C s False) (\<lambda>_. True)"
    and persist_returns: "returns (ci_PersistState C s)"
    and read_returns: "returns (ci_ReadState C s force)"
begin

lemma persist_quiet: "obeys quiet (ci_PersistState C s) (\<lambda>(s', e). same_but_updated s s')"
  by (rule obeys_weaken [OF persist]) (auto dest: writes_at_quiet)

lemma read_quiet: "obeys quiet (ci_ReadState C s f) (\<lambda>_. True)"
  by (cases f) (auto intro: obeys_weaken [OF read_force] obeys_weaken [OF read_only] dest: writes_at_quiet)

end

lemma PersistState_obeys:
  "obeys (writes_at (st_StatePath s)) (PersistState E s) (\<lambda>(s', e). same_but_updated s s')"
  unfolding PersistState_def api_defs
  by (intro obeys_intro obeys_bnd_any) (auto simp: marshal_state_def split: if_splits)

lemma ReadState_obeys:
  "obeys (\<lambda>e. e = KVGet (st_StatePath s) \<or> force \<and> writes_at (st_StatePath s) e) (ReadState E s force) (\<lambda>_. True)"
  unfolding ReadState_def kv_get_def
  by (intro obeys_intro obeys_bnd_any) (auto intro: obeys_weaken [OF PersistState_obeys])

lemma PersistState_returns: "returns (PersistState E s)"
  unfolding PersistState_def api_defs by (intro returns_intro)

lemma ReadState_returns: "returns (ReadState E s force)"
  unfolding ReadState_def kv_get_def by (intro returns_intro PersistState_returns)

interpretation consul: state_store "consulClient E" for E
proof
  show "obeys (writes_at (st_StatePath s)) (ci_PersistState (consulClient E) s)
      (\<lambda>(s', e). same_but_updated s s')" for s
    by (simp add: PersistState_obeys)
  show "obeys (\<lambda>e. e = KVGet (st_StatePath s) \<or> writes_at (st_StatePath s) e)
      (ci_ReadState (consulClient E) s True) (\<lambda>_. True)" for s
    using ReadState_obeys [of s True E] by simp
  show "obeys (\<lambda>e. e = KVGet (st_StatePath s)) (ci_ReadState (consulClient E) s False) (\<lambda>_. True)" for s
    using ReadState_obeys [of s False E] by simp
  show "returns (ci_PersistState (consulClient E) s)" for s
    by (simp add: PersistState_returns)
  show "returns (ci_ReadState (consulClient E) s force)" for s force
    by (simp add: ReadState_returns)
qed

section \<open>What is written is what is read\<close>

definition in64_state :: "scaling_state \<Rightarrow> bool" where
  "in64_state s \<longleftrightarrow> in64 (st_FailureCount s) \<and> in64 (st_ScaleInRequests s) \<and> in64 (st_ScaleOutRequests s)"

lemma dec_strings_map [simp]: "dec_strings (map JStr ss) = (ss, None)"
  by (induction ss) auto

lemma unmarshal_json_of_state:
  assumes "in64_state s"
  shows "unmarshal_state (json_of_state s) s0 = (s\<lparr>st_ScalingDirection := st_ScalingDirection s0\<rparr>, None)"
  using assms
  by (simp add: json_of_state_def in64_state_def dec_member_def ToLower_def lower_char_def)

text \<open>The law of the store that the program relies on: a write that succeeded is read back.\<close>

definition kv_law :: "env \<Rightarrow> bool" where
  "kv_law E \<longleftrightarrow> (\<forall>h k v. en_kv_put E h k v = None \<longrightarrow>
     (\<exists>p. en_kv_get E (h @ [KVPut k v]) k = Inr (Some p) \<and> kp_Value p = v))"

lemma kv_law_ref_env: "kv_law ref_env"
  by (simp add: kv_law_def ref_env_def last_put_append)

lemma PersistState_Ret:
  assumes "PersistState E s h = (Ret (s', None), h')"
  shows "h' = h @ [Now, KVPut (st_StatePath s) (json_of_state s')]"
    and "en_kv_put E (h @ [Now]) (st_StatePath s) (json_of_state s') = None"
    and "s' = s\<lparr>st_LastUpdated := en_now E h\<rparr>"
  using assms
  by (auto simp: PersistState_def go_simps marshal_state_def Let_def split: if_splits option.splits)

lemma persist_then_read:
  assumes kv: "kv_law E" and w: "PersistState E s h = (Ret (s', None), h')"
    and p: "st_StatePath s0 = st_StatePath s" and r: "in64_state s"
  shows "ReadState E s0 f h' = (Ret (s'\<lparr>st_ScalingDirection := st_ScalingDirection s0\<rparr>), h' @ [KVGet (st_StatePath s)])"
proof -
  note P = PersistState_Ret [OF w]
  obtain q where q: "en_kv_get E h' (st_StatePath s) = Inr (Some q)" "kp_Value q = json_of_state s'"
    using kv P(1,2) unfolding kv_law_def by (metis append.assoc append_Cons append_Nil)
  have "in64_state s'" using r P(3) by (simp add: in64_state_def)
  with q p show ?thesis by (simp add: ReadState_def unmarshal_json_of_state go_simps)
qed

end
