(* ===== verification/Failsafe.thy ===== *)
theory Failsafe
  imports State_Store
begin

text \<open>
  The failsafe circuit breaker: \<open>replicator/failsafe.go\<close>, and the \<open>failsafe\<close> command of
  the CLI that sets and resets it (\<open>command/failsafe.go\<close>).  Operations are written against
  the \<open>ConsulClient\<close> interface \<open>C\<close>, as in the code; what holds for every implementation of
  its contract is proved in the locale \<open>state_store\<close>, and the properties are stated for
  \<open>consulClient\<close>.  The message and the state are structs the code passes by pointer:
  every operation returns them updated.
\<close>

section \<open>replicator/failsafe.go\<close>

abbreviation "clusterMessage \<equiv> ''cluster_failsafe_mode''"
abbreviation "jobMessage \<equiv> ''job_group_failsafe_mode''"

fun send_all :: "notifier list \<Rightarrow> failure_message \<Rightarrow> unit act" where
  "send_all [] m = ret ()"
| "send_all (n # ns) m = bnd (send_notification n m) (\<lambda>_. send_all ns m)"

definition sendFailsafeNotification ::
  "env \<Rightarrow> consul_client \<Rightarrow> failure_message \<Rightarrow> scaling_state \<Rightarrow> config \<Rightarrow>
     (failure_message \<times> scaling_state) act" where
  "sendFailsafeNotification E C message0 state config =
     (let reason = (if fm_ResourceType message0 = ClusterType then clusterMessage
                    else if fm_ResourceType message0 = JobType then jobMessage
                    else fm_Reason message0);
          message = message0\<lparr>fm_Reason := reason, fm_StatePath := st_StatePath state\<rparr>
      in case cf_Notification config of
        None \<Rightarrow> panic
      | Some n \<Rightarrow>
          (if nt_Notifiers n \<noteq> [] then
             bnd (send_all (nt_Notifiers n) message) (\<lambda>_.
             bnd (time_Now E) (\<lambda>t.
             bnd (ci_PersistState C (state\<lparr>st_LastNotificationEvent := t\<rparr>)) (\<lambda>(state', err).
             ret (message, state'))))
           else ret (message, state)))"

definition SetFailsafeMode ::
  "env \<Rightarrow> consul_client \<Rightarrow> scaling_state \<Rightarrow> config \<Rightarrow> bool \<Rightarrow> failure_message \<Rightarrow>
     (failure_message \<times> scaling_state \<times> go_error option) act" where
  "SetFailsafeMode E C state config enabled message =
     bnd (if enabled then
            (if \<not> st_FailsafeMode state then sendFailsafeNotification E C message state config
             else ret (message, state))
          else ret (message, state\<lparr>st_FailureCount := 0\<rparr>)) (\<lambda>(message', state').
     bnd (ci_PersistState C (state'\<lparr>st_FailsafeMode := enabled\<rparr>)) (\<lambda>(state'', err).
     ret (message', state'',
          map_option (\<lambda>e. Errorf ''core/failsafe: an attempt to update the persistent state tracking information failed'' (Some e)) err)))"

definition FailsafeCheck ::
  "env \<Rightarrow> consul_client \<Rightarrow> scaling_state \<Rightarrow> config \<Rightarrow> int \<Rightarrow> failure_message \<Rightarrow>
     (bool \<times> failure_message \<times> scaling_state) act" where
  "FailsafeCheck E C state config threshold message =
     (if st_FailsafeMode state then ret (False, message, state)
      else if threshold \<le> st_FailureCount state then
        bnd (SetFailsafeMode E C state config True message) (\<lambda>(message', state', err).
        ret (False, message', state'))
      else ret (True, message, state))"

section \<open>command/failsafe.go\<close>

text \<open>
  \<open>Run\<close> after its flags are parsed: \<open>nargs\<close> is the number of arguments, \<open>conf\<close> the result
  of \<open>parseFlags\<close> (\<open>None\<close> when it fails), \<open>clients\<close> the error of \<open>InitializeClients\<close>, and
  \<open>answer\<close> what the operator types at the prompt.  The result is the exit code.
\<close>

record failsafe_mode =
  fs_Config :: config
  fs_Disable :: bool
  fs_Enable :: bool
  fs_Force :: bool

datatype confirmation = Confirmed | Cancelled int

definition confirm :: "string result \<Rightarrow> confirmation" where
  "confirm answer =
     (case answer of
        Inl e \<Rightarrow> Cancelled 1
      | Inr a \<Rightarrow>
          (if a = [] \<or> hd (ToLower a) = CHR ''n'' then Cancelled 0
           else if hd (ToLower a) = CHR ''y'' \<and> 1 < length a then Cancelled 0
           else if a \<noteq> ''y'' then Cancelled 1
           else Confirmed))"

definition failsafe_Run ::
  "env \<Rightarrow> consul_client \<Rightarrow> nat \<Rightarrow> failsafe_mode option \<Rightarrow> go_error option \<Rightarrow> string \<Rightarrow>
     string result \<Rightarrow> int act" where
  "failsafe_Run E C nargs conf_opt clients statePath answer =
     (if nargs = 0 then ret 1
      else case conf_opt of
        None \<Rightarrow> ret 1
      | Some conf \<Rightarrow>
          (if clients \<noteq> None then ret 1
           else if fs_Enable conf \<and> fs_Disable conf \<or> \<not> fs_Enable conf \<and> \<not> fs_Disable conf then ret 1
           else
             bnd (ci_ReadState C (empty_state\<lparr>st_StatePath := statePath\<rparr>) False) (\<lambda>state.
             if IsZero (st_LastUpdated state) then ret 1
             else if st_FailsafeMode state \<and> fs_Enable conf \<or> \<not> st_FailsafeMode state \<and> fs_Disable conf
             then ret 0
             else case (if fs_Force conf then Confirmed else confirm answer) of
               Cancelled code \<Rightarrow> ret code
             | Confirmed \<Rightarrow>
                 (let state1 = state\<lparr>st_FailsafeAdmin := True\<rparr>;
                      message = \<lparr>fm_AlertUID = ''replicator-failsafe-admin-cli'',
                        fm_ClusterIdentifier = [], fm_Reason = [], fm_ResourceID = st_ResourceName state1,
                        fm_ResourceType = st_ResourceType state1, fm_StatePath = []\<rparr>
                  in bnd (SetFailsafeMode E C state1 (fs_Config conf) (fs_Enable conf) message)
                       (\<lambda>(message', state2, err).
                     case err of
                       Some e \<Rightarrow> ret 1
                     | None \<Rightarrow> bnd (ci_PersistState C state2) (\<lambda>(state3, err'). ret 0))))))"

section \<open>What every state store gives\<close>

fun failsafe_event :: "string \<Rightarrow> event \<Rightarrow> bool" where
  "failsafe_event p (Notify n m) = True"
| "failsafe_event p e = writes_at p e"

lemma failsafe_event_writes: "writes_at p e \<Longrightarrow> failsafe_event p e"
  by (cases e) auto

lemma failsafe_event_quiet: "failsafe_event p e \<Longrightarrow> quiet e"
  by (cases e) auto

lemma send_all_obeys: "obeys (failsafe_event p) (send_all ns m) (\<lambda>_. True)"
  by (induction ns) (auto intro!: obeys_intro obeys_bnd_any simp: send_notification_def)

definition failsafe_frame :: "scaling_state \<Rightarrow> scaling_state \<Rightarrow> bool" where
  "failsafe_frame s s' \<longleftrightarrow>
     s\<lparr>st_LastUpdated := 0, st_LastNotificationEvent := 0, st_FailsafeMode := False, st_FailureCount := 0\<rparr> =
     s'\<lparr>st_LastUpdated := 0, st_LastNotificationEvent := 0, st_FailsafeMode := False, st_FailureCount := 0\<rparr>"

lemma failsafe_frame_refl [simp]: "failsafe_frame s s"
  by (simp add: failsafe_frame_def)

lemma failsafe_frame_upd [simp]:
  "failsafe_frame s (s'\<lparr>st_LastUpdated := t\<rparr>) = failsafe_frame s s'"
  "failsafe_frame s (s'\<lparr>st_LastNotificationEvent := t\<rparr>) = failsafe_frame s s'"
  "failsafe_frame s (s'\<lparr>st_FailsafeMode := b\<rparr>) = failsafe_frame s s'"
  "failsafe_frame s (s'\<lparr>st_FailureCount := n\<rparr>) = failsafe_frame s s'"
  by (simp_all add: failsafe_frame_def)

lemma failsafe_frame_same: "failsafe_frame s s' \<Longrightarrow> same_but_updated s' s'' \<Longrightarrow> failsafe_frame s s''"
  by (cases s, cases s', cases s'') (simp add: failsafe_frame_def same_but_updated_def)

lemma failsafe_frame_sel:
  assumes "failsafe_frame s s'"
  shows "st_StatePath s' = st_StatePath s" and "st_EligibleNodes s' = st_EligibleNodes s"
    and "st_ScalingDirection s' = st_ScalingDirection s"
    and "st_ScaleInRequests s' = st_ScaleInRequests s"
    and "st_ScaleOutRequests s' = st_ScaleOutRequests s"
    and "st_LastScalingEvent s' = st_LastScalingEvent s"
    and "st_FailsafeAdmin s' = st_FailsafeAdmin s"
  using assms by (cases s, cases s', simp add: failsafe_frame_def)+

context state_store
begin

lemma persist_failsafe:
  "obeys (failsafe_event (st_StatePath s)) (ci_PersistState C s) (\<lambda>(s', e). same_but_updated s s')"
  by (rule obeys_weaken [OF persist]) (auto dest: failsafe_event_writes)

lemma persist_failsafe_at:
  "st_StatePath s = p \<Longrightarrow>
     obeys (failsafe_event p) (ci_PersistState C s) (\<lambda>(s', e). same_but_updated s s')"
  using persist_failsafe [of s] by simp

lemma notification_obeys:
  "obeys (failsafe_event (st_StatePath s)) (sendFailsafeNotification E C m s cfg)
     (\<lambda>(m', s'). failsafe_frame s s' \<and> st_FailsafeMode s' = st_FailsafeMode s \<and>
        st_FailureCount s' = st_FailureCount s)"
proof -
  have P: "obeys (failsafe_event (st_StatePath s)) (ci_PersistState C (s\<lparr>st_LastNotificationEvent := t\<rparr>))
      (\<lambda>(s', e). failsafe_frame s s' \<and> st_FailsafeMode s' = st_FailsafeMode s \<and>
        st_FailureCount s' = st_FailureCount s)" for t
    by (rule obeys_post [OF persist_failsafe [of "s\<lparr>st_LastNotificationEvent := t\<rparr>", simplified]])
      (auto dest: same_but_updated_sel intro: failsafe_frame_same [rotated])
  show ?thesis
    unfolding sendFailsafeNotification_def time_Now_def Let_def
    by (intro obeys_intro obeys_bnd_any [OF send_all_obeys] obeys_bnd_any [OF obeys_call] obeys_bnd [OF P])
      auto
qed

lemma set_mode_obeys:
  "obeys (failsafe_event (st_StatePath s)) (SetFailsafeMode E C s cfg b m)
     (\<lambda>(m', s', e). failsafe_frame s s' \<and> st_FailsafeMode s' = b \<and>
        st_FailureCount s' = (if b then st_FailureCount s else 0))"
proof -
  let ?F = "\<lambda>s'. failsafe_frame s s' \<and> st_FailureCount s' = (if b then st_FailureCount s else 0)"
  have first: "obeys (failsafe_event (st_StatePath s))
      (if b then if \<not> st_FailsafeMode s then sendFailsafeNotification E C m s cfg else ret (m, s)
       else ret (m, s\<lparr>st_FailureCount := 0\<rparr>)) (\<lambda>(m', s'). ?F s')"
    by (auto intro!: obeys_intro obeys_post [OF notification_obeys] simp: failsafe_frame_def)
  have P: "obeys (failsafe_event (st_StatePath s)) (ci_PersistState C (s'\<lparr>st_FailsafeMode := b\<rparr>))
      (\<lambda>(s'', e). ?F s'' \<and> st_FailsafeMode s'' = b)" if "?F s'" for s'
    by (rule obeys_post [OF persist_failsafe_at])
      (use that in \<open>auto simp: failsafe_frame_sel dest: same_but_updated_sel intro: failsafe_frame_same [rotated]\<close>)
  show ?thesis
    unfolding SetFailsafeMode_def
    by (intro obeys_bnd [OF first] obeys_prod obeys_bnd [OF P] obeys_ret) auto
qed

lemma check_obeys:
  "obeys (failsafe_event (st_StatePath s)) (FailsafeCheck E C s cfg thr m)
     (\<lambda>(ok, m', s'). failsafe_frame s s' \<and> st_FailureCount s' = st_FailureCount s \<and>
        ok = (\<not> st_FailsafeMode s \<and> st_FailureCount s < thr) \<and> st_FailsafeMode s' = (\<not> ok))"
  unfolding FailsafeCheck_def
  by (intro obeys_intro obeys_bnd [OF set_mode_obeys]) (auto intro!: obeys_ret)

lemma send_all_returns: "returns (send_all ns m)"
  by (induction ns) (auto intro!: returns_intro simp: send_notification_def)

lemma set_mode_returns: "cf_Notification cfg \<noteq> None \<Longrightarrow> returns (SetFailsafeMode E C s cfg b m)"
  unfolding SetFailsafeMode_def sendFailsafeNotification_def time_Now_def Let_def
  by (intro returns_intro persist_returns send_all_returns) auto

lemma check_returns: "cf_Notification cfg \<noteq> None \<Longrightarrow> returns (FailsafeCheck E C s cfg thr m)"
  unfolding FailsafeCheck_def by (intro returns_intro set_mode_returns)

end

section \<open>Properties of the breaker\<close>

lemma check_notification_panic_free:
  "cf_Notification cfg \<noteq> None \<Longrightarrow> \<exists>r h'. FailsafeCheck E (consulClient E) s cfg thr m h = (Ret r, h')"
  using consul.check_returns by (metis returnsE)

text \<open>
  C3: the breaker passes a resource exactly when it is not in failsafe mode and its failure
  count is below the threshold; when it does not pass, the resource is left in failsafe
  mode, with its failure count, scaling counters, direction, path and eligible nodes as
  they were; the check always returns, and writes no key but the state's own.
\<close>

theorem failsafe_check_verdict:
  assumes "cf_Notification cfg \<noteq> None"
  shows "\<exists>ok m' s' h'. FailsafeCheck E (consulClient E) s cfg thr m h = (Ret (ok, m', s'), h') \<and>
    ok = (\<not> st_FailsafeMode s \<and> st_FailureCount s < thr) \<and> st_FailsafeMode s' = (\<not> ok) \<and>
    st_FailureCount s' = st_FailureCount s \<and> failsafe_frame s s' \<and>
    (\<forall>k v. KVPut k v \<in> set (calls (FailsafeCheck E (consulClient E) s cfg thr m) h) \<longrightarrow> k = st_StatePath s)"
proof -
  obtain ok m' s' h' where r: "FailsafeCheck E (consulClient E) s cfg thr m h = (Ret (ok, m', s'), h')"
    using check_notification_panic_free [OF assms] by fastforce
  note O = obeys_run [OF consul.check_obeys r]
  show ?thesis using r O(3) O(2) by fastforce
qed

theorem failsafe_check_verdict_witness:
  "\<exists>ok m' s' h'. FailsafeCheck ref_env (consulClient ref_env) (empty_state\<lparr>st_FailureCount := 3, st_StatePath := ''p''\<rparr>)
     demo_config 3 demo_message [] = (Ret (ok, m', s'), h') \<and> \<not> ok \<and> st_FailsafeMode s'"
  using failsafe_check_verdict [of demo_config ref_env
    "empty_state\<lparr>st_FailureCount := 3, st_StatePath := ''p''\<rparr>" 3 demo_message "[]"]
  by (auto simp: demo_config_def empty_state_def)

text \<open>
  Once tripped, the breaker stays tripped: whatever the store and the environment do,
  the check answers no at once, makes no call and leaves state and message alone, so only
  \<open>SetFailsafeMode\<close> can clear it.
\<close>

theorem failsafe_latched:
  assumes "st_FailsafeMode s"
  shows "FailsafeCheck E C s cfg thr m h = (Ret (False, m, s), h)"
  using assms by (simp add: FailsafeCheck_def ret_app)

theorem failsafe_latched_witness:
  "FailsafeCheck ref_env (consulClient ref_env) (empty_state\<lparr>st_FailsafeMode := True\<rparr>) demo_config 5 demo_message [] =
     (Ret (False, demo_message, empty_state\<lparr>st_FailsafeMode := True\<rparr>), [])"
  using failsafe_latched [of "empty_state\<lparr>st_FailsafeMode := True\<rparr>" ref_env "consulClient ref_env"] by simp

text \<open>
  Resetting the breaker gives a clean slate: after \<open>SetFailsafeMode\<close> with \<open>enabled\<close>
  false, a check against any positive threshold passes without a further call.
\<close>

theorem failsafe_reset_passes:
  assumes "SetFailsafeMode E (consulClient E) s cfg False m h = (Ret (m', s', err), h')" and "0 < thr"
  shows "st_FailureCount s' = 0 \<and> \<not> st_FailsafeMode s' \<and>
    FailsafeCheck E' C' s' cfg' thr m'' h'' = (Ret (True, m'', s'), h'')"
proof -
  have "st_FailureCount s' = 0 \<and> \<not> st_FailsafeMode s'"
    using obeys_run(3) [OF consul.set_mode_obeys assms(1)] by simp
  with assms(2) show ?thesis by (simp add: FailsafeCheck_def ret_app)
qed

theorem failsafe_reset_passes_witness:
  "\<exists>m' s' err h'. SetFailsafeMode ref_env (consulClient ref_env)
       (empty_state\<lparr>st_FailsafeMode := True, st_FailureCount := 3\<rparr>) demo_config False demo_message [] =
       (Ret (m', s', err), h') \<and>
     FailsafeCheck ref_env (consulClient ref_env) s' demo_config 3 m' h' = (Ret (True, m', s'), h')"
proof -
  have "returns (SetFailsafeMode ref_env (consulClient ref_env)
      (empty_state\<lparr>st_FailsafeMode := True, st_FailureCount := 3\<rparr>) demo_config False demo_message)"
    by (rule consul.set_mode_returns) (simp add: demo_config_def)
  then obtain m' s' err h' where r: "SetFailsafeMode ref_env (consulClient ref_env)
      (empty_state\<lparr>st_FailsafeMode := True, st_FailureCount := 3\<rparr>) demo_config False demo_message [] =
      (Ret (m', s', err), h')"
    using returnsE by (metis prod_cases3)
  from failsafe_reset_passes [OF r, of 3 ref_env "consulClient ref_env" demo_config m' h'] r
  show ?thesis by auto
qed

text \<open>Who is notified.\<close>

fun is_notify :: "event \<Rightarrow> bool" where
  "is_notify (Notify _ _) = True"
| "is_notify _ = False"

lemma send_all_run: "send_all ns m h = (Ret (), h @ map (\<lambda>n. Notify n m) ns)"
  by (induction ns arbitrary: h) (simp_all add: go_simps)

lemma persist_run:
  obtains s' e h' where "PersistState E s h = (Ret (s', e), h')"
    and "filter is_notify h' = filter is_notify h"
proof -
  obtain s' e h' where r: "PersistState E s h = (Ret (s', e), h')"
    using PersistState_returns returnsE by (metis surj_pair)
  note O = obeys_run [OF PersistState_obeys r]
  have "\<not> is_notify e" if "e \<in> set (calls (PersistState E s) h)" for e
    using O(2) [OF that] by (cases e) auto
  then have "filter is_notify (calls (PersistState E s) h) = []" by (simp add: filter_empty_conv)
  with O(1) have "filter is_notify h' = filter is_notify h" by (metis append_Nil2 filter_append)
  with r that show thesis by metis
qed

definition failsafe_reason :: "failure_message \<Rightarrow> string" where
  "failsafe_reason m =
     (if fm_ResourceType m = ClusterType then clusterMessage
      else if fm_ResourceType m = JobType then jobMessage else fm_Reason m)"

lemma notification_run:
  assumes cfg: "cf_Notification cfg = Some n"
  obtains s' h' where "sendFailsafeNotification E (consulClient E) m s cfg h =
      (Ret (m\<lparr>fm_Reason := failsafe_reason m, fm_StatePath := st_StatePath s\<rparr>, s'), h')"
    and "filter is_notify h' = filter is_notify h @
      map (\<lambda>k. Notify k (m\<lparr>fm_Reason := failsafe_reason m, fm_StatePath := st_StatePath s\<rparr>)) (nt_Notifiers n)"
proof (cases "nt_Notifiers n = []")
  case True
  with cfg that show thesis
    by (simp add: sendFailsafeNotification_def Let_def ret_app failsafe_reason_def)
next
  case False
  let ?m = "m\<lparr>fm_Reason := failsafe_reason m, fm_StatePath := st_StatePath s\<rparr>"
  let ?h = "h @ map (\<lambda>k. Notify k ?m) (nt_Notifiers n)"
  obtain s1 e1 h1 where "PersistState E (s\<lparr>st_LastNotificationEvent := en_now E ?h\<rparr>) (?h @ [Now]) = (Ret (s1, e1), h1)"
    and "filter is_notify h1 = filter is_notify (?h @ [Now])"
    by (rule persist_run)
  then have "sendFailsafeNotification E (consulClient E) m s cfg h = (Ret (?m, s1), h1)"
    and "filter is_notify h1 = filter is_notify h @ map (\<lambda>k. Notify k ?m) (nt_Notifiers n)"
    using cfg False
    by (simp_all add: sendFailsafeNotification_def Let_def failsafe_reason_def send_all_run
        bnd_app time_Now_def call_app ret_app filter_map comp_def)
  then show thesis by (rule that)
qed

lemma set_failsafe_notifies:
  assumes cfg: "cf_Notification cfg = Some n"
  shows "filter is_notify (snd (SetFailsafeMode E (consulClient E) s cfg enabled m h)) =
    filter is_notify h @
    (if enabled \<and> \<not> st_FailsafeMode s
     then map (\<lambda>k. Notify k (m\<lparr>fm_Reason := failsafe_reason m, fm_StatePath := st_StatePath s\<rparr>)) (nt_Notifiers n)
     else [])"
proof (cases "enabled \<and> \<not> st_FailsafeMode s")
  case True
  obtain s' h' where A: "sendFailsafeNotification E (consulClient E) m s cfg h =
      (Ret (m\<lparr>fm_Reason := failsafe_reason m, fm_StatePath := st_StatePath s\<rparr>, s'), h')"
    "filter is_notify h' = filter is_notify h @
      map (\<lambda>k. Notify k (m\<lparr>fm_Reason := failsafe_reason m, fm_StatePath := st_StatePath s\<rparr>)) (nt_Notifiers n)"
    by (rule notification_run [OF cfg])
  obtain s1 e1 h1 where B: "PersistState E (s'\<lparr>st_FailsafeMode := True\<rparr>) h' = (Ret (s1, e1), h1)"
    "filter is_notify h1 = filter is_notify h'"
    by (rule persist_run)
  from True A B show ?thesis
    by (simp add: SetFailsafeMode_def bnd_app ret_app)
next
  case False
  define t where "t = (if enabled then s else s\<lparr>st_FailureCount := 0\<rparr>)\<lparr>st_FailsafeMode := enabled\<rparr>"
  obtain s1 e1 h1 where B: "PersistState E t h = (Ret (s1, e1), h1)" "filter is_notify h1 = filter is_notify h"
    by (rule persist_run)
  have "SetFailsafeMode E (consulClient E) s cfg enabled m =
      bnd (PersistState E t) (\<lambda>(s'', err). ret (m, s'',
        map_option (\<lambda>e. Errorf ''core/failsafe: an attempt to update the persistent state tracking information failed'' (Some e)) err))"
    using False by (auto simp: SetFailsafeMode_def t_def)
  with B False show ?thesis by (auto simp: bnd_app ret_app)
qed

text \<open>
  Tripping the breaker notifies every configured backend exactly once, in the order of
  the configuration, with the state's path and the reason of its kind of resource; a
  resource that is already in failsafe mode is not notified again, and clearing the mode
  notifies nobody.
\<close>

theorem failsafe_notifies_once:
  assumes cfg: "cf_Notification cfg = Some n"
  shows "filter is_notify (snd (SetFailsafeMode E (consulClient E) s cfg enabled m h)) =
    filter is_notify h @
    (if enabled \<and> \<not> st_FailsafeMode s
     then map (\<lambda>k. Notify k (m\<lparr>fm_Reason := failsafe_reason m, fm_StatePath := st_StatePath s\<rparr>)) (nt_Notifiers n)
     else [])"
  by (rule set_failsafe_notifies [OF cfg])

theorem failsafe_notifies_once_witness:
  "filter is_notify (snd (SetFailsafeMode ref_env (consulClient ref_env) empty_state demo_config True demo_message [])) =
     [Notify \<lparr>no_Name = ''pagerduty'', no_Config = []\<rparr> (demo_message\<lparr>fm_Reason := clusterMessage, fm_StatePath := []\<rparr>)]"
  using failsafe_notifies_once [of demo_config _ ref_env empty_state True demo_message "[]"]
  by (simp add: demo_config_def demo_message_def empty_state_def failsafe_reason_def)

text \<open>
  C8: the breaker is a distributed lock: when one replica has tripped it and its write
  succeeded, any other replica that then reads the state of the same resource fails its
  check and makes no further call, whatever threshold it is configured with.
\<close>

theorem failsafe_distributed:
  assumes kv: "kv_law E"
    and trip: "SetFailsafeMode E (consulClient E) s cfg True m h = (Ret (m', s', None), h')"
    and path: "st_StatePath s0 = st_StatePath s" and r: "in64_state s"
  shows "\<exists>s1. ReadState E s0 force h' = (Ret s1, h' @ [KVGet (st_StatePath s)]) \<and>
    FailsafeCheck E' C' s1 cfg' thr m1 h'' = (Ret (False, m1, s1), h'')"
proof -
  from trip obtain m0 s00 h0 where
    first: "(if \<not> st_FailsafeMode s then sendFailsafeNotification E (consulClient E) m s cfg else ret (m, s)) h =
        (Ret (m0, s00), h0)"
    and w: "PersistState E (s00\<lparr>st_FailsafeMode := True\<rparr>) h0 = (Ret (s', None), h')"
    by (auto simp: SetFailsafeMode_def ret_app elim!: bnd_RetE)
  have F: "failsafe_frame s s00 \<and> st_FailureCount s00 = st_FailureCount s"
    using first obeys_run(3) [OF consul.notification_obeys [of s E E m cfg], of h]
    by (auto simp: ret_app split: if_splits)
  have s': "st_FailsafeMode s'" using PersistState_Ret(3) [OF w] by simp
  have "ReadState E s0 force h' =
      (Ret (s'\<lparr>st_ScalingDirection := st_ScalingDirection s0\<rparr>), h' @ [KVGet (st_StatePath s)])"
    using persist_then_read [OF kv w, of s0 force] path r F failsafe_frame_sel [of s s00]
    by (simp add: in64_state_def)
  with s' show ?thesis by (simp add: FailsafeCheck_def ret_app)
qed

theorem failsafe_distributed_witness:
  "\<exists>m' s' h' s1. SetFailsafeMode ref_env (consulClient ref_env) (empty_state\<lparr>st_StatePath := ''p''\<rparr>) demo_config True demo_message [] =
       (Ret (m', s', None), h') \<and>
     ReadState ref_env (empty_state\<lparr>st_StatePath := ''p''\<rparr>) True h' = (Ret s1, h' @ [KVGet ''p'']) \<and>
     FailsafeCheck ref_env (consulClient ref_env) s1 demo_config 10 demo_message [] = (Ret (False, demo_message, s1), [])"
proof -
  let ?s = "empty_state\<lparr>st_StatePath := ''p''\<rparr>"
  obtain m' s' h' where r: "SetFailsafeMode ref_env (consulClient ref_env) ?s demo_config True demo_message [] =
      (Ret (m', s', None), h')"
    by (simp add: SetFailsafeMode_def sendFailsafeNotification_def PersistState_def go_simps
        demo_config_def ref_env_def empty_state_def marshal_state_def time_ok_def day_def Second_def Let_def)
  have "in64_state ?s" by (simp add: in64_state_def empty_state_def)
  from failsafe_distributed [OF kv_law_ref_env r refl this, of True ref_env "consulClient ref_env" demo_config 10 demo_message "[]"] r
  show ?thesis by fastforce
qed

section \<open>Properties of the command\<close>

lemma confirm_iff: "confirm ans = Confirmed \<longleftrightarrow> ans = Inr ''y''"
  by (auto simp: confirm_def ToLower_def lower_char_def split: sum.splits if_splits)

text \<open>
  The command writes to the store only when the operator's request is complete: exactly
  one of \<open>-enable\<close> and \<open>-disable\<close>, a state object stored at the given path whose mode
  differs from the requested one, and either \<open>-force\<close> or the exact answer \<open>y\<close>.
\<close>

theorem failsafe_command_guarded:
  assumes "KVPut k v \<in> set (snd (failsafe_Run E (consulClient E) nargs conf clients p ans h)) - set h"
  shows "\<exists>c s h'. conf = Some c \<and> nargs \<noteq> 0 \<and> clients = None \<and> fs_Enable c \<noteq> fs_Disable c \<and>
    ReadState E (empty_state\<lparr>st_StatePath := p\<rparr>) False h = (Ret s, h') \<and> \<not> IsZero (st_LastUpdated s) \<and>
    st_FailsafeMode s \<noteq> fs_Enable c \<and> (fs_Force c \<or> ans = Inr ''y'')"
proof -
  obtain s h' where r: "ReadState E (empty_state\<lparr>st_StatePath := p\<rparr>) False h = (Ret s, h')"
    using ReadState_returns returnsE by blast
  have h': "KVPut k v \<notin> set h' - set h"
    using obeys_run [OF ReadState_obeys r] by auto
  show ?thesis
  proof (cases "nargs = 0 \<or> conf = None \<or> clients \<noteq> None")
    case True
    then have "snd (failsafe_Run E (consulClient E) nargs conf clients p ans h) = h"
      by (cases conf) (auto simp: failsafe_Run_def ret_app)
    with assms show ?thesis by simp
  next
    case False
    then obtain c where c: "conf = Some c" "nargs \<noteq> 0" "clients = None" by auto
    let ?G = "fs_Enable c \<noteq> fs_Disable c \<and> \<not> IsZero (st_LastUpdated s) \<and>
        st_FailsafeMode s \<noteq> fs_Enable c \<and> (fs_Force c \<or> ans = Inr ''y'')"
    have "snd (failsafe_Run E (consulClient E) nargs conf clients p ans h) \<in> {h, h'}" if "\<not> ?G"
      using that c r confirm_iff [of ans]
      by (cases "confirm ans") (auto simp: failsafe_Run_def bnd_app ret_app)
    then have ?G using assms h' by (metis Diff_iff insertE singletonD)
    with r c show ?thesis by blast
  qed
qed

definition demo_failsafe :: failsafe_mode where
  "demo_failsafe = \<lparr>fs_Config = demo_config, fs_Disable = False, fs_Enable = True, fs_Force = True\<rparr>"

abbreviation demo_log :: log where
  "demo_log \<equiv> [KVPut ''p'' (json_of_state (empty_state\<lparr>st_StatePath := ''p'', st_LastUpdated := 5\<rparr>))]"

lemma demo_read:
  "ReadState ref_env (empty_state\<lparr>st_StatePath := ''p''\<rparr>) False demo_log =
     (Ret (empty_state\<lparr>st_StatePath := ''p'', st_LastUpdated := 5\<rparr>), demo_log @ [KVGet ''p''])"
proof -
  have "in64_state (empty_state\<lparr>st_StatePath := ''p'', st_LastUpdated := 5\<rparr>)"
    by (simp add: in64_state_def empty_state_def)
  from unmarshal_json_of_state [OF this] show ?thesis
    by (simp add: ReadState_def go_simps ref_env_def empty_state_def)
qed

theorem failsafe_command_guarded_witness:
  "\<exists>s h'. ReadState ref_env (empty_state\<lparr>st_StatePath := ''p''\<rparr>) False demo_log = (Ret s, h') \<and>
     \<not> IsZero (st_LastUpdated s) \<and> \<not> st_FailsafeMode s"
proof -
  have "\<exists>v. KVPut ''p'' v \<in> set (snd (failsafe_Run ref_env (consulClient ref_env) 1 (Some demo_failsafe) None ''p''
      (Inl (ApiErr [])) demo_log)) - set demo_log"
    by (simp add: failsafe_Run_def demo_failsafe_def bnd_app demo_read)
      (simp add: SetFailsafeMode_def sendFailsafeNotification_def PersistState_def go_simps
        demo_config_def ref_env_def empty_state_def marshal_state_def time_ok_def day_def Second_def
        Let_def json_of_state_def conj_disj_distribR ex_disj_distrib)
  then obtain v where "KVPut ''p'' v \<in> set (snd (failsafe_Run ref_env (consulClient ref_env) 1 (Some demo_failsafe)
      None ''p'' (Inl (ApiErr [])) demo_log)) - set demo_log" by blast
  from failsafe_command_guarded [OF this] show ?thesis by (auto simp: demo_failsafe_def)
qed

end
