(* ===== verification/Config.thy ===== *)
theory Config
  imports Flags Failsafe "HOL-Library.Char_ord" "HOL-Library.List_Lexorder"
begin

text \<open>
  The configuration: \<open>structs/config.go\<close> (how two configurations are merged),
  \<open>command/base\<close> (defaults, configuration files and directories) and the flags of the two
  commands that read one.  The HCL parser and the decoders of \<open>mapstructure\<close> are third-party
  code, a parameter of type \<open>hcl_lib\<close>; the tree it builds is \<open>hcl_node\<close>.  The file system is a
  parameter of type \<open>files\<close>, the one snapshot that a load sees.
\<close>

section \<open>structs/config.go\<close>

definition set_str :: "string \<Rightarrow> string \<Rightarrow> string" where
  "set_str old new = (if new \<noteq> [] then new else old)"

definition set_pos :: "int \<Rightarrow> int \<Rightarrow> int" where
  "set_pos old new = (if 0 < new then new else old)"

definition set_ptr :: "('a \<Rightarrow> 'a \<Rightarrow> 'a) \<Rightarrow> 'a option \<Rightarrow> 'a option \<Rightarrow> 'a option" where
  "set_ptr merge old new =
     (case (old, new) of
        (None, Some b) \<Rightarrow> Some b
      | (Some a, Some b) \<Rightarrow> Some (merge a b)
      | (_, None) \<Rightarrow> old)"

definition Telemetry_Merge :: "telemetry \<Rightarrow> telemetry \<Rightarrow> telemetry" where
  "Telemetry_Merge t b = t\<lparr>tl_StatsdAddress := set_str (tl_StatsdAddress t) (tl_StatsdAddress b)\<rparr>"

definition Notification_Merge :: "notification \<Rightarrow> notification \<Rightarrow> notification" where
  "Notification_Merge n b =
     n\<lparr>nt_ClusterIdentifier := set_str (nt_ClusterIdentifier n) (nt_ClusterIdentifier b),
       nt_PagerDutyServiceKey := set_str (nt_PagerDutyServiceKey n) (nt_PagerDutyServiceKey b),
       nt_OpsGenieAPIKey := set_str (nt_OpsGenieAPIKey n) (nt_OpsGenieAPIKey b)\<rparr>"

definition Merge :: "config \<Rightarrow> config \<Rightarrow> config" where
  "Merge c b =
     c\<lparr>cf_BindAddress := set_str (cf_BindAddress c) (cf_BindAddress b),
       cf_Nomad := set_str (cf_Nomad c) (cf_Nomad b),
       cf_NomadToken := set_str (cf_NomadToken c) (cf_NomadToken b),
       cf_NomadTLSServerName := set_str (cf_NomadTLSServerName c) (cf_NomadTLSServerName b),
       cf_Consul := set_str (cf_Consul c) (cf_Consul b),
       cf_ConsulToken := set_str (cf_ConsulToken c) (cf_ConsulToken b),
       cf_ConsulKeyRoot := set_str (cf_ConsulKeyRoot c) (cf_ConsulKeyRoot b),
       cf_LogLevel := set_str (cf_LogLevel c) (cf_LogLevel b),
       cf_ClusterScalingInterval := set_pos (cf_ClusterScalingInterval c) (cf_ClusterScalingInterval b),
       cf_JobScalingInterval := set_pos (cf_JobScalingInterval c) (cf_JobScalingInterval b),
       cf_ClusterScalingDisable := (if cf_ClusterScalingDisable b then True else cf_ClusterScalingDisable c),
       cf_JobScalingDisable := (if cf_JobScalingDisable b then True else cf_JobScalingDisable c),
       cf_HTTPPort := set_str (cf_HTTPPort c) (cf_HTTPPort b),
       cf_RPCPort := set_pos (cf_RPCPort c) (cf_RPCPort b),
       cf_ScalingConcurrency := set_pos (cf_ScalingConcurrency c) (cf_ScalingConcurrency b),
       cf_Telemetry := set_ptr Telemetry_Merge (cf_Telemetry c) (cf_Telemetry b),
       cf_Notification := set_ptr Notification_Merge (cf_Notification c) (cf_Notification b)\<rparr>"

section \<open>command/base/config.go: the defaults\<close>

abbreviation "DefaultBindAddr \<equiv> ''127.0.0.1''"
abbreviation "DefaultRPCPort \<equiv> (1314 :: int)"
abbreviation "DefaultHTTPPort \<equiv> ''1313''"
abbreviation "LocalConsulAddress \<equiv> ''localhost:8500''"
abbreviation "LocalNomadAddress \<equiv> ''http://localhost:4646''"

definition DefaultRPCAddr :: "string \<times> int" where
  "DefaultRPCAddr = (''127.0.0.1'', 1314)"

definition empty_notification :: notification where
  "empty_notification =
     \<lparr>nt_ClusterIdentifier = [], nt_PagerDutyServiceKey = [], nt_OpsGenieAPIKey = [], nt_Notifiers = []\<rparr>"

definition empty_telemetry :: telemetry where
  "empty_telemetry = \<lparr>tl_StatsdAddress = []\<rparr>"

definition empty_config :: config where
  "empty_config =
     \<lparr>cf_BindAddress = [], cf_ClusterScalingDisable = False, cf_ClusterScalingInterval = 0, cf_Consul = [],
      cf_ConsulKeyRoot = [], cf_ConsulToken = [], cf_HTTPPort = [], cf_JobScalingDisable = False,
      cf_JobScalingInterval = 0, cf_LogLevel = [], cf_Nomad = [], cf_NomadToken = [], cf_NomadTLSServerName = [],
      cf_Notification = None, cf_RPCAddr = None, cf_RPCPort = 0, cf_ScalingConcurrency = 0, cf_Telemetry = None\<rparr>"

definition DefaultConfig :: config where
  "DefaultConfig =
     empty_config\<lparr>cf_BindAddress := DefaultBindAddr, cf_Consul := LocalConsulAddress,
       cf_ConsulKeyRoot := ''replicator/config'', cf_Nomad := LocalNomadAddress, cf_LogLevel := ''INFO'',
       cf_ClusterScalingInterval := 10, cf_JobScalingInterval := 10, cf_HTTPPort := DefaultHTTPPort,
       cf_RPCPort := DefaultRPCPort, cf_RPCAddr := Some DefaultRPCAddr, cf_ScalingConcurrency := 10,
       cf_Telemetry := Some empty_telemetry, cf_Notification := Some empty_notification\<rparr>"

definition DevConfig :: config where
  "DevConfig =
     empty_config\<lparr>cf_BindAddress := DefaultBindAddr, cf_Consul := LocalConsulAddress,
       cf_ConsulKeyRoot := ''replicator/config'', cf_Nomad := LocalNomadAddress, cf_LogLevel := ''DEBUG'',
       cf_ClusterScalingInterval := 10, cf_JobScalingInterval := 10, cf_HTTPPort := DefaultHTTPPort,
       cf_RPCPort := DefaultRPCPort, cf_RPCAddr := Some DefaultRPCAddr, cf_ScalingConcurrency := 10,
       cf_Telemetry := Some empty_telemetry, cf_Notification := Some empty_notification\<rparr>"

section \<open>command/base/config\_parse.go\<close>

text \<open>
  An item of an object has its keys, the name of a block and its labels, and a value.  The
  errors carry what the text of the Go error names.
\<close>

datatype hcl_node =
    ObjectList "(string list \<times> hcl_node) list"
  | ObjectType "(string list \<times> hcl_node) list"
  | ListType "hcl_node list"
  | LiteralType string

datatype config_error =
    External go_error
  | RootNotObject
  | NotAnObject
  | InvalidKeys "string list"
  | OnlyOneBlock string
  | NotADirectory string
  | Prefixed string config_error

record 'v hcl_lib =
  hl_Parse :: "string \<Rightarrow> hcl_node result"
  hl_DecodeObject :: "hcl_node \<Rightarrow> (string, 'v) gomap result"
  hl_WeakDecodeConfig :: "(string, 'v) gomap \<Rightarrow> config \<Rightarrow> config result"
  hl_WeakDecodeTelemetry :: "(string, 'v) gomap \<Rightarrow> telemetry \<Rightarrow> telemetry result"
  hl_WeakDecodeNotification :: "(string, 'v) gomap \<Rightarrow> notification \<Rightarrow> notification result"

text \<open>
  \<open>Filter\<close> and \<open>Elem\<close> of the vendored syntax tree: the items whose first key is the given one,
  up to case, without that key; and those that have no keys left.
\<close>

definition Filter_key :: "string \<Rightarrow> (string list \<times> hcl_node) list \<Rightarrow> (string list \<times> hcl_node) list" where
  "Filter_key name items =
     map (\<lambda>(keys, v). (tl keys, v)) (filter (\<lambda>(keys, v). keys \<noteq> [] \<and> ToLower (hd keys) = ToLower name) items)"

definition Elem :: "(string list \<times> hcl_node) list \<Rightarrow> (string list \<times> hcl_node) list" where
  "Elem items = filter (\<lambda>(keys, v). keys = []) items"

text \<open>Every item is looked at, and all invalid keys are reported; an item without keys panics.\<close>

fun invalid_keys :: "string list \<Rightarrow> (string list \<times> hcl_node) list \<Rightarrow> string list act" where
  "invalid_keys valid [] = ret []"
| "invalid_keys valid ((keys, v) # items) =
     (case keys of
        [] \<Rightarrow> panic
      | key # labels \<Rightarrow>
          bnd (invalid_keys valid items) (\<lambda>ks. ret (if key \<in> set valid then ks else key # ks)))"

definition checkHCLKeys :: "hcl_node \<Rightarrow> string list \<Rightarrow> config_error option act" where
  "checkHCLKeys node valid =
     (let check = (\<lambda>items. bnd (invalid_keys valid items) (\<lambda>ks. ret (if ks = [] then None else Some (InvalidKeys ks))))
      in case node of
           ObjectList items \<Rightarrow> check items
         | ObjectType items \<Rightarrow> check items
         | _ \<Rightarrow> ret (Some NotAnObject))"

text \<open>The two blocks are parsed alike; \<open>decode\<close> is the decoder of the block's struct, started on its zero value.\<close>

definition parse_block ::
  "'v hcl_lib \<Rightarrow> string \<Rightarrow> string list \<Rightarrow> ((string, 'v) gomap \<Rightarrow> 'b result) \<Rightarrow>
     (string list \<times> hcl_node) list \<Rightarrow> (config_error + 'b) act" where
  "parse_block H title valid decode items =
     (case Elem items of
        _ # _ # _ \<Rightarrow> ret (Inl (OnlyOneBlock title))
      | [] \<Rightarrow> panic
      | [(_, listVal)] \<Rightarrow>
          bnd (checkHCLKeys listVal valid) (\<lambda>err.
          case err of
            Some e \<Rightarrow> ret (Inl e)
          | None \<Rightarrow>
              (case hl_DecodeObject H listVal of
                 Inl e \<Rightarrow> ret (Inl (External e))
               | Inr m \<Rightarrow> (case decode m of Inl e \<Rightarrow> ret (Inl (External e)) | Inr b \<Rightarrow> ret (Inr b)))))"

definition parseTelemetry :: "'v hcl_lib \<Rightarrow> (string list \<times> hcl_node) list \<Rightarrow> (config_error + telemetry) act" where
  "parseTelemetry H =
     parse_block H ''Telemetry'' [''statsd_address''] (\<lambda>m. hl_WeakDecodeTelemetry H m empty_telemetry)"

definition parseNotification :: "'v hcl_lib \<Rightarrow> (string list \<times> hcl_node) list \<Rightarrow> (config_error + notification) act" where
  "parseNotification H =
     parse_block H ''Notification'' [''cluster_identifier'', ''pagerduty_service_key'', ''opsgenie_service_key'']
       (\<lambda>m. hl_WeakDecodeNotification H m empty_notification)"

definition configKeys :: "string list" where
  "configKeys =
     [''bind_address'', ''http_port'', ''rpc_port'', ''nomad'', ''nomad_token'', ''nomad_tls_server_name'', ''consul'',
      ''consul_key_root'', ''consul_token'', ''log_level'', ''job_scaling_interval'', ''cluster_scaling_interval'',
      ''telemetry'', ''notification'', ''cluster_scaling_disable'', ''job_scaling_disable'', ''scaling_concurrency'']"

definition with_block ::
  "string \<Rightarrow> ((string list \<times> hcl_node) list \<Rightarrow> (config_error + 'b) act) \<Rightarrow> ('b \<Rightarrow> config \<Rightarrow> config) \<Rightarrow>
     (string list \<times> hcl_node) list \<Rightarrow> config \<Rightarrow> (config_error + config) act" where
  "with_block name parse set_field items c =
     (let found = Filter_key name items in
      if found = [] then ret (Inr c)
      else
        bnd (parse found) (\<lambda>r.
        case r of Inl e \<Rightarrow> ret (Inl (Prefixed (name @ '' ->'') e)) | Inr b \<Rightarrow> ret (Inr (set_field b c))))"

definition parseConfig :: "'v hcl_lib \<Rightarrow> (string list \<times> hcl_node) list \<Rightarrow> (config_error + config) act" where
  "parseConfig H items =
     bnd (checkHCLKeys (ObjectList items) configKeys) (\<lambda>err.
     case err of
       Some e \<Rightarrow> ret (Inl (Prefixed ''config:'' e))
     | None \<Rightarrow>
         (case hl_DecodeObject H (ObjectList items) of
            Inl e \<Rightarrow> ret (Inl (External e))
          | Inr m \<Rightarrow>
              (case hl_WeakDecodeConfig H (AList.delete ''notification'' (AList.delete ''telemetry'' m)) empty_config of
                 Inl e \<Rightarrow> ret (Inl (External e))
               | Inr c \<Rightarrow>
                   bnd (with_block ''telemetry'' (parseTelemetry H) (\<lambda>t c. c\<lparr>cf_Telemetry := Some t\<rparr>) items c) (\<lambda>r.
                   case r of
                     Inl e \<Rightarrow> ret (Inl e)
                   | Inr c' \<Rightarrow>
                       with_block ''notification'' (parseNotification H) (\<lambda>n c. c\<lparr>cf_Notification := Some n\<rparr>) items c'))))"

definition ParseConfig :: "'v hcl_lib \<Rightarrow> string \<Rightarrow> (config_error + config) act" where
  "ParseConfig H buf =
     (case hl_Parse H buf of
        Inl e \<Rightarrow> ret (Inl (Prefixed ''error parsing: '' (External e)))
      | Inr (ObjectList items) \<Rightarrow>
          bnd (parseConfig H items) (\<lambda>r.
          case r of Inl e \<Rightarrow> ret (Inl (Prefixed ''error parsing 'config': '' e)) | Inr c \<Rightarrow> ret (Inr c))
      | Inr _ \<Rightarrow> ret (Inl RootNotObject))"

section \<open>strings and path/filepath\<close>

text \<open>\<open>strings.Split\<close>, for a separator that is not empty.\<close>

fun Split :: "string \<Rightarrow> string \<Rightarrow> string list" where
  "Split sep [] = [[]]"
| "Split sep (c # cs) =
     (if is_prefix sep (c # cs) then [] # Split sep (drop (length sep - 1) cs)
      else case Split sep cs of [] \<Rightarrow> [[c]] | x # xs \<Rightarrow> (c # x) # xs)"

fun join_slash :: "string list \<Rightarrow> string" where
  "join_slash [] = []"
| "join_slash [x] = x"
| "join_slash (x # xs) = x @ ''/'' @ join_slash xs"

fun clean_parts :: "bool \<Rightarrow> string list \<Rightarrow> string list \<Rightarrow> string list" where
  "clean_parts rooted st [] = rev st"
| "clean_parts rooted st (x # xs) =
     (if x = [] \<or> x = ''.'' then clean_parts rooted st xs
      else if x = ''..'' then
        (case st of
           [] \<Rightarrow> clean_parts rooted (if rooted then [] else [x]) xs
         | y # ys \<Rightarrow> clean_parts rooted (if y = ''..'' then x # st else ys) xs)
      else clean_parts rooted (x # st) xs)"

definition filepath_Clean :: "string \<Rightarrow> string" where
  "filepath_Clean path =
     (if path = [] then ''.''
      else
        let rooted = (hd path = CHR ''/'');
            rest = join_slash (clean_parts rooted [] (Split ''/'' path))
        in if rooted then ''/'' @ rest else if rest = [] then ''.'' else rest)"

definition filepath_Join :: "string \<Rightarrow> string \<Rightarrow> string" where
  "filepath_Join a b =
     (if a \<noteq> [] then filepath_Clean (a @ ''/'' @ b) else if b \<noteq> [] then filepath_Clean b else [])"

section \<open>Configuration files\<close>

text \<open>\<open>os_Readdir\<close> gives the batches that successive calls of \<open>Readdir\<close> return, up to the end of the
  directory.\<close>

record fileinfo =
  fi_Name :: string
  fi_IsDir :: bool

record files =
  os_Getwd :: "string result"
  os_Stat :: "string \<Rightarrow> bool result"
  os_Open :: "string \<Rightarrow> go_error option"
  os_Readdir :: "string \<Rightarrow> fileinfo list result list"
  os_Copy :: "string \<Rightarrow> string result"

definition filepath_Abs :: "files \<Rightarrow> string \<Rightarrow> string result" where
  "filepath_Abs F path =
     (if path \<noteq> [] \<and> hd path = CHR ''/'' then Inr (filepath_Clean path)
      else case os_Getwd F of Inl e \<Rightarrow> Inl e | Inr wd \<Rightarrow> Inr (filepath_Join wd path))"

definition ParseConfigFile :: "files \<Rightarrow> 'v hcl_lib \<Rightarrow> string \<Rightarrow> (config_error + config) act" where
  "ParseConfigFile F H path =
     (case filepath_Abs F path of
        Inl e \<Rightarrow> ret (Inl (External e))
      | Inr file \<Rightarrow>
          (case os_Open F file of
             Some e \<Rightarrow> ret (Inl (External e))
           | None \<Rightarrow>
               (case os_Copy F file of
                  Inl e \<Rightarrow> ret (Inl (External e))
                | Inr buf \<Rightarrow> ParseConfig H buf)))"

definition HasSuffix :: "string \<Rightarrow> string \<Rightarrow> bool" where
  "HasSuffix s suffix \<longleftrightarrow> length suffix \<le> length s \<and> drop (length s - length suffix) s = suffix"

definition config_file :: "fileinfo \<Rightarrow> bool" where
  "config_file fi \<longleftrightarrow> \<not> fi_IsDir fi \<and> (HasSuffix (fi_Name fi) ''.hcl'' \<or> HasSuffix (fi_Name fi) ''.json'')"

fun read_dir :: "string \<Rightarrow> fileinfo list result list \<Rightarrow> config_error + string list" where
  "read_dir dir [] = Inr []"
| "read_dir dir (Inl e # batches) = Inl (External e)"
| "read_dir dir (Inr fis # batches) =
     (case read_dir dir batches of
        Inl e \<Rightarrow> Inl e
      | Inr paths \<Rightarrow> Inr (map (\<lambda>fi. filepath_Join dir (fi_Name fi)) (filter config_file fis) @ paths))"

fun load_files :: "files \<Rightarrow> 'v hcl_lib \<Rightarrow> string list \<Rightarrow> config option \<Rightarrow> (config_error + config option) act" where
  "load_files F H [] result = ret (Inr result)"
| "load_files F H (f # fs) result =
     bnd (ParseConfigFile F H f) (\<lambda>r.
     case r of
       Inl e \<Rightarrow> ret (Inl (Prefixed (''Error loading '' @ f @ '': '') e))
     | Inr c \<Rightarrow> load_files F H fs (Some (case result of None \<Rightarrow> c | Some r \<Rightarrow> Merge r c)))"

definition LoadConfigDir :: "files \<Rightarrow> 'v hcl_lib \<Rightarrow> string \<Rightarrow> (config_error + config option) act" where
  "LoadConfigDir F H dir =
     (case os_Open F dir of
        Some e \<Rightarrow> ret (Inl (External e))
      | None \<Rightarrow>
          (case os_Stat F dir of
             Inl e \<Rightarrow> ret (Inl (External e))
           | Inr is_dir \<Rightarrow>
               (if \<not> is_dir then ret (Inl (NotADirectory dir))
                else case read_dir dir (os_Readdir F dir) of
                  Inl e \<Rightarrow> ret (Inl e)
                | Inr files \<Rightarrow>
                    (if files = [] then ret (Inr (Some empty_config))
                     else load_files F H (sort files) None))))"

definition LoadConfig :: "files \<Rightarrow> 'v hcl_lib \<Rightarrow> string \<Rightarrow> (config_error + config option) act" where
  "LoadConfig F H path =
     (case os_Stat F path of
        Inl e \<Rightarrow> ret (Inl (External e))
      | Inr is_dir \<Rightarrow>
          (if is_dir then LoadConfigDir F H path
           else
             let cleaned = filepath_Clean path in
             bnd (ParseConfigFile F H cleaned) (\<lambda>r.
             case r of
               Inl e \<Rightarrow> ret (Inl (Prefixed (''Error loading '' @ cleaned @ '': '') e))
             | Inr c \<Rightarrow> ret (Inr (Some c)))))"

section \<open>The flags of the commands\<close>

record agent_flags =
  fl_configPath :: string
  fl_dev :: bool
  fl_cliConfig :: config

abbreviation cli :: "(config \<Rightarrow> config) \<Rightarrow> agent_flags \<Rightarrow> agent_flags" where
  "cli f c \<equiv> c\<lparr>fl_cliConfig := f (fl_cliConfig c)\<rparr>"

abbreviation cli_telemetry :: "(telemetry \<Rightarrow> telemetry) \<Rightarrow> agent_flags \<Rightarrow> agent_flags" where
  "cli_telemetry f \<equiv> cli (\<lambda>c. c\<lparr>cf_Telemetry := map_option f (cf_Telemetry c)\<rparr>)"

abbreviation cli_notification :: "(notification \<Rightarrow> notification) \<Rightarrow> agent_flags \<Rightarrow> agent_flags" where
  "cli_notification f \<equiv> cli (\<lambda>c. c\<lparr>cf_Notification := map_option f (cf_Notification c)\<rparr>)"

definition agentFlags :: "agent_flags flag_set" where
  "agentFlags =
     [(''config'', StringVar (\<lambda>v c. c\<lparr>fl_configPath := v\<rparr>)),
      (''dev'', BoolVar (\<lambda>v c. c\<lparr>fl_dev := v\<rparr>)),
      (''bind-address'', StringVar (\<lambda>v. cli (\<lambda>c. c\<lparr>cf_BindAddress := v\<rparr>))),
      (''consul'', StringVar (\<lambda>v. cli (\<lambda>c. c\<lparr>cf_Consul := v\<rparr>))),
      (''consul-key-root'', StringVar (\<lambda>v. cli (\<lambda>c. c\<lparr>cf_ConsulKeyRoot := v\<rparr>))),
      (''consul-token'', StringVar (\<lambda>v. cli (\<lambda>c. c\<lparr>cf_ConsulToken := v\<rparr>))),
      (''log-level'', StringVar (\<lambda>v. cli (\<lambda>c. c\<lparr>cf_LogLevel := v\<rparr>))),
      (''nomad'', StringVar (\<lambda>v. cli (\<lambda>c. c\<lparr>cf_Nomad := v\<rparr>))),
      (''nomad-token'', StringVar (\<lambda>v. cli (\<lambda>c. c\<lparr>cf_NomadToken := v\<rparr>))),
      (''nomad-tls-server-name'', StringVar (\<lambda>v. cli (\<lambda>c. c\<lparr>cf_NomadTLSServerName := v\<rparr>))),
      (''cluster-scaling-interval'', IntVar (\<lambda>v. cli (\<lambda>c. c\<lparr>cf_ClusterScalingInterval := v\<rparr>))),
      (''job-scaling-interval'', IntVar (\<lambda>v. cli (\<lambda>c. c\<lparr>cf_JobScalingInterval := v\<rparr>))),
      (''scaling-concurrency'', IntVar (\<lambda>v. cli (\<lambda>c. c\<lparr>cf_ScalingConcurrency := v\<rparr>))),
      (''cluster-scaling-disable'', BoolVar (\<lambda>v. cli (\<lambda>c. c\<lparr>cf_ClusterScalingDisable := v\<rparr>))),
      (''job-scaling-disable'', BoolVar (\<lambda>v. cli (\<lambda>c. c\<lparr>cf_JobScalingDisable := v\<rparr>))),
      (''http-port'', StringVar (\<lambda>v. cli (\<lambda>c. c\<lparr>cf_HTTPPort := v\<rparr>))),
      (''rpc-port'', IntVar (\<lambda>v. cli (\<lambda>c. c\<lparr>cf_RPCPort := v\<rparr>))),
      (''statsd-address'', StringVar (\<lambda>v. cli_telemetry (\<lambda>t. t\<lparr>tl_StatsdAddress := v\<rparr>))),
      (''cluster-identifier'', StringVar (\<lambda>v. cli_notification (\<lambda>n. n\<lparr>nt_ClusterIdentifier := v\<rparr>))),
      (''pagerduty-service-key'', StringVar (\<lambda>v. cli_notification (\<lambda>n. n\<lparr>nt_PagerDutyServiceKey := v\<rparr>))),
      (''opsgenie-api-key'', StringVar (\<lambda>v. cli_notification (\<lambda>n. n\<lparr>nt_OpsGenieAPIKey := v\<rparr>)))]"

text \<open>The defaults, the loaded configuration and the flags, in this order; \<open>None\<close> is \<open>nil\<close>.\<close>

definition merged_config :: "files \<Rightarrow> 'v hcl_lib \<Rightarrow> config \<Rightarrow> string \<Rightarrow> config \<Rightarrow> config option act" where
  "merged_config F H config configPath cliConfig =
     (if configPath \<noteq> [] then
        bnd (LoadConfig F H configPath) (\<lambda>r.
        case r of
          Inl e \<Rightarrow> ret None
        | Inr None \<Rightarrow> panic
        | Inr (Some current) \<Rightarrow> ret (Some (Merge (Merge config current) cliConfig)))
      else ret (Some (Merge config cliConfig)))"

definition parseFlags :: "files \<Rightarrow> 'v hcl_lib \<Rightarrow> string list \<Rightarrow> config option act" where
  "parseFlags F H args =
     (let cliConfig = empty_config\<lparr>cf_Telemetry := Some empty_telemetry, cf_Notification := Some empty_notification\<rparr>
      in case Parse agentFlags args \<lparr>fl_configPath = [], fl_dev = False, fl_cliConfig = cliConfig\<rparr> of
           None \<Rightarrow> ret None
         | Some (fl, rest) \<Rightarrow>
             merged_config F H (if fl_dev fl then DevConfig else DefaultConfig) (fl_configPath fl) (fl_cliConfig fl))"

record failsafe_flags =
  ff_configPath :: string
  ff_statePath :: string
  ff_mode :: failsafe_mode

definition failsafeFlags :: "failsafe_flags flag_set" where
  "failsafeFlags =
     [(''config'', StringVar (\<lambda>v c. c\<lparr>ff_configPath := v\<rparr>)),
      (''consul'', StringVar (\<lambda>v c. c\<lparr>ff_mode := (ff_mode c)\<lparr>fs_Config := (fs_Config (ff_mode c))\<lparr>cf_Consul := v\<rparr>\<rparr>\<rparr>)),
      (''consul-token'', StringVar (\<lambda>v c. c\<lparr>ff_mode := (ff_mode c)\<lparr>fs_Config := (fs_Config (ff_mode c))\<lparr>cf_ConsulToken := v\<rparr>\<rparr>\<rparr>)),
      (''state-path'', StringVar (\<lambda>v c. c\<lparr>ff_statePath := v\<rparr>)),
      (''enable'', BoolVar (\<lambda>v c. c\<lparr>ff_mode := (ff_mode c)\<lparr>fs_Enable := v\<rparr>\<rparr>)),
      (''disable'', BoolVar (\<lambda>v c. c\<lparr>ff_mode := (ff_mode c)\<lparr>fs_Disable := v\<rparr>\<rparr>)),
      (''force'', BoolVar (\<lambda>v c. c\<lparr>ff_mode := (ff_mode c)\<lparr>fs_Force := v\<rparr>\<rparr>))]"

definition failsafe_parseFlags ::
  "files \<Rightarrow> 'v hcl_lib \<Rightarrow> string list \<Rightarrow> (string \<times> failsafe_mode) option act" where
  "failsafe_parseFlags F H args =
     (let mode = \<lparr>fs_Config = empty_config, fs_Disable = False, fs_Enable = False, fs_Force = False\<rparr>
      in case Parse failsafeFlags args \<lparr>ff_configPath = [], ff_statePath = [], ff_mode = mode\<rparr> of
           None \<Rightarrow> ret None
         | Some (fl, rest) \<Rightarrow>
             bnd (merged_config F H DefaultConfig (ff_configPath fl) (fs_Config (ff_mode fl))) (\<lambda>r.
             ret (map_option (\<lambda>c. (ff_statePath fl, (ff_mode fl)\<lparr>fs_Config := c\<rparr>)) r)))"

section \<open>The laws of merging\<close>

lemma set_str_assoc: "set_str (set_str a b) c = set_str a (set_str b c)" and set_str_Nil: "set_str a [] = a"
  and set_str_same: "set_str a a = a" and set_str_set: "a \<noteq> [] \<Longrightarrow> set_str a b \<noteq> []"
  by (simp_all add: set_str_def)

lemma set_pos_assoc: "set_pos (set_pos a b) c = set_pos a (set_pos b c)" and set_pos_zero: "set_pos a 0 = a"
  and set_pos_same: "set_pos a a = a" and set_pos_set: "0 < a \<Longrightarrow> 0 < set_pos a b"
  by (simp_all add: set_pos_def)

lemma set_ptr_assoc:
  assumes "\<And>x y z. m (m x y) z = m x (m y z)"
  shows "set_ptr m (set_ptr m a b) c = set_ptr m a (set_ptr m b c)"
  using assms by (cases a; cases b; cases c) (simp_all add: set_ptr_def)

lemma set_ptr_None: "set_ptr m a None = a" and set_ptr_same: "(\<And>x. m x x = x) \<Longrightarrow> set_ptr m a a = a"
  and set_ptr_set: "a \<noteq> None \<Longrightarrow> set_ptr m a b \<noteq> None"
  by (cases a; cases b; simp add: set_ptr_def)+

lemma block_merge_assoc:
  "Telemetry_Merge (Telemetry_Merge t u) v = Telemetry_Merge t (Telemetry_Merge u v)"
  "Notification_Merge (Notification_Merge k l) n = Notification_Merge k (Notification_Merge l n)"
  by (simp_all add: Telemetry_Merge_def Notification_Merge_def set_str_assoc)

lemma block_merge_same: "Telemetry_Merge t t = t" "Notification_Merge n n = n"
  by (simp_all add: Telemetry_Merge_def Notification_Merge_def set_str_same)

lemmas merge_assocs = set_str_assoc set_pos_assoc set_ptr_assoc [of Telemetry_Merge, OF block_merge_assoc(1)]
  set_ptr_assoc [of Notification_Merge, OF block_merge_assoc(2)]

lemmas merge_units = set_str_Nil set_pos_zero set_ptr_None

lemmas merge_sames = set_str_same set_pos_same set_ptr_same [of Telemetry_Merge, OF block_merge_same(1)]
  set_ptr_same [of Notification_Merge, OF block_merge_same(2)]


section \<open>What a loaded configuration is like\<close>

text \<open>What the rest of the program relies on: intervals and a number of threads that are positive,
  addresses that are set, and the two blocks that are dereferenced without a check.\<close>

definition usable :: "config \<Rightarrow> bool" where
  "usable c \<longleftrightarrow> 0 < cf_ClusterScalingInterval c \<and> 0 < cf_JobScalingInterval c \<and> 0 < cf_ScalingConcurrency c \<and>
     0 < cf_RPCPort c \<and> cf_BindAddress c \<noteq> [] \<and> cf_Consul c \<noteq> [] \<and> cf_ConsulKeyRoot c \<noteq> [] \<and> cf_Nomad c \<noteq> [] \<and>
     cf_HTTPPort c \<noteq> [] \<and> cf_LogLevel c \<noteq> [] \<and> cf_Notification c \<noteq> None \<and> cf_Telemetry c \<noteq> None \<and> cf_RPCAddr c \<noteq> None"

lemma usable_Merge: "usable a \<Longrightarrow> usable (Merge a b)"
  by (simp add: usable_def Merge_def set_str_set set_pos_set set_ptr_set)

lemma usable_defaults: "usable DefaultConfig" "usable DevConfig"
  by (simp_all add: usable_def DefaultConfig_def DevConfig_def empty_config_def)

text \<open>Reading configurations makes no call to a service, and whatever is read, the result is usable.\<close>

lemma check_keys_obeys: "obeys P (invalid_keys valid items) (\<lambda>_. True)"
  by (induction valid items rule: invalid_keys.induct) (auto intro!: obeys_intro obeys_bnd split: list.splits)

lemma checkHCLKeys_obeys: "obeys P (checkHCLKeys node valid) (\<lambda>_. True)"
  by (cases node) (auto simp: checkHCLKeys_def intro!: obeys_bnd [OF check_keys_obeys] obeys_ret)

lemma parse_block_obeys: "obeys P (parse_block H title valid decode items) (\<lambda>_. True)"
  unfolding parse_block_def
  by (auto intro!: obeys_bnd [OF checkHCLKeys_obeys] obeys_ret obeys_intro split: list.splits prod.splits option.splits sum.splits)

lemma with_block_obeys:
  assumes "\<And>x. obeys P (parse x) (\<lambda>_. True)"
  shows "obeys P (with_block name parse set_field items c) (\<lambda>_. True)"
  unfolding with_block_def Let_def by (auto intro!: obeys_bnd [OF assms] obeys_ret split: sum.splits)

lemma ParseConfig_obeys: "obeys P (ParseConfig H buf) (\<lambda>_. True)"
  unfolding ParseConfig_def parseConfig_def
  by (auto intro!: obeys_bnd [OF checkHCLKeys_obeys] obeys_bnd [OF with_block_obeys] with_block_obeys obeys_ret obeys_bnd [where R = "\<lambda>_. True"]
      simp: parseTelemetry_def parseNotification_def parse_block_obeys split: sum.splits hcl_node.splits option.splits)

lemma ParseConfigFile_obeys: "obeys P (ParseConfigFile F H path) (\<lambda>_. True)"
  unfolding ParseConfigFile_def by (auto intro!: ParseConfig_obeys obeys_ret split: sum.splits option.splits)

lemma load_files_obeys: "obeys P (load_files F H fs result) (\<lambda>_. True)"
  by (induction fs arbitrary: result) (auto intro!: obeys_ret obeys_bnd [OF ParseConfigFile_obeys] split: sum.splits)

lemma LoadConfig_obeys: "obeys P (LoadConfig F H path) (\<lambda>_. True)"
  unfolding LoadConfig_def LoadConfigDir_def Let_def
  by (auto intro!: obeys_ret obeys_bnd [OF ParseConfigFile_obeys] load_files_obeys split: sum.splits option.splits)

lemma merged_config_obeys:
  assumes "\<And>a b. Q a \<Longrightarrow> Q (Merge a b)" and "Q config"
  shows "obeys P (merged_config F H config path cliConfig) (\<lambda>r. \<forall>c. r = Some c \<longrightarrow> Q c)"
  unfolding merged_config_def
  by (auto intro!: obeys_ret obeys_intro obeys_bnd [OF LoadConfig_obeys] assms split: sum.splits option.splits)

lemma parseFlags_obeys:
  assumes "\<And>a b. Q a \<Longrightarrow> Q (Merge a b)" and "Q DefaultConfig" and "Q DevConfig"
  shows "obeys P (parseFlags F H args) (\<lambda>r. \<forall>c. r = Some c \<longrightarrow> Q c)"
  unfolding parseFlags_def Let_def
  by (auto intro!: obeys_ret merged_config_obeys assms split: option.splits prod.splits)

lemmas parseFlags_usable = parseFlags_obeys [of usable, OF usable_Merge usable_defaults]

text \<open>No backend is set up yet: only the agent's initialisation appends to the list.\<close>

definition no_backends :: "config \<Rightarrow> bool" where
  "no_backends c \<longleftrightarrow> (\<exists>n. cf_Notification c = Some n \<and> nt_Notifiers n = [])"

lemma no_backends_Merge: "no_backends a \<Longrightarrow> no_backends (Merge a b)"
  by (cases "cf_Notification b") (auto simp: no_backends_def Merge_def set_ptr_def Notification_Merge_def)

lemma no_backends_defaults: "no_backends DefaultConfig" "no_backends DevConfig"
  by (simp_all add: no_backends_def DefaultConfig_def DevConfig_def empty_notification_def)

lemmas parseFlags_no_backends = parseFlags_obeys [of no_backends, OF no_backends_Merge no_backends_defaults]


text \<open>A file system with one file and a decoder that reads a number of threads, for the witnesses.\<close>

definition demo_files :: files where
  "demo_files =
     \<lparr>os_Getwd = Inr ''/root'', os_Stat = (\<lambda>p. Inr (p = ''conf.d'')), os_Open = (\<lambda>_. None),
      os_Readdir = (\<lambda>_. [Inr [\<lparr>fi_Name = ''b.hcl'', fi_IsDir = False\<rparr>, \<lparr>fi_Name = ''readme'', fi_IsDir = False\<rparr>],
                        Inr [\<lparr>fi_Name = ''a.json'', fi_IsDir = False\<rparr>]]),
      os_Copy = (\<lambda>p. Inr p)\<rparr>"

definition demo_hcl :: "string hcl_lib" where
  "demo_hcl =
     \<lparr>hl_Parse = (\<lambda>s. Inr (ObjectList [([''nomad''], LiteralType s), ([''scaling_concurrency''], LiteralType ''-1'')])),
      hl_DecodeObject = (\<lambda>n. case n of ObjectList ((k, LiteralType s) # _) \<Rightarrow> Inr [(hd k, s)] | _ \<Rightarrow> Inl (ApiErr ''type'')),
      hl_WeakDecodeConfig = (\<lambda>m c. Inr (c\<lparr>cf_Nomad := (case map_of m ''nomad'' of None \<Rightarrow> [] | Some v \<Rightarrow> v), cf_ScalingConcurrency := -1\<rparr>)),
      hl_WeakDecodeTelemetry = (\<lambda>m t. Inr t), hl_WeakDecodeNotification = (\<lambda>m n. Inr n)\<rparr>"

lemmas demo_config_defs =
  parseFlags_def merged_config_def LoadConfig_def LoadConfigDir_def ParseConfigFile_def filepath_Abs_def filepath_Clean_def
  filepath_Join_def config_file_def HasSuffix_def ParseConfig_def parseConfig_def checkHCLKeys_def configKeys_def
  with_block_def Filter_key_def Elem_def demo_files_def demo_hcl_def agentFlags_def argument_of_def named_flag_def
  set_flag_def take_value_def ParseInt_def ParseUint_def digit_val_def ParseBool_def ToLower_def lower_char_def Let_def

lemma demo_load:
  "parseFlags demo_files demo_hcl [''-config'', ''conf.d'', ''-scaling-concurrency=4''] [] =
     (Ret (Some (DefaultConfig\<lparr>cf_Nomad := ''/root/conf.d/b.hcl'', cf_ScalingConcurrency := 4\<rparr>)), [])"
  by (simp add: demo_config_defs go_simps Merge_def set_str_def set_pos_def set_ptr_def empty_config_def DefaultConfig_def
      Telemetry_Merge_def Notification_Merge_def empty_telemetry_def empty_notification_def)


section \<open>Directories\<close>

text \<open>The files of a directory, as a function of what it contains and not of how it is listed.\<close>

definition dir_files :: "string \<Rightarrow> fileinfo multiset \<Rightarrow> string list" where
  "dir_files dir entries =
     sorted_list_of_multiset (image_mset (\<lambda>fi. filepath_Join dir (fi_Name fi)) (filter_mset config_file entries))"

lemma read_dir_batches:
  "read_dir dir (map Inr bs) = Inr (map (\<lambda>fi. filepath_Join dir (fi_Name fi)) (filter config_file (concat bs)))"
  by (induction bs) simp_all

lemma sort_read_dir:
  "sort (map (\<lambda>fi. filepath_Join dir (fi_Name fi)) (filter config_file fis)) = dir_files dir (mset fis)"
  by (simp add: dir_files_def sorted_list_of_multiset_mset flip: mset_map mset_filter)

text \<open>
  C26: a configuration directory is loaded as its specification says: the files with the suffix
  \<open>.hcl\<close> or \<open>.json\<close>, in lexicographic order, each merged over those before it.  The outcome
  depends on the contents of the directory alone, not on the order or the batches in which the
  system lists it.
\<close>

theorem config_dir_in_order:
  assumes "os_Open F dir = None" and "os_Stat F dir = Inr True" and "os_Readdir F dir = map Inr batches"
    and "files = dir_files dir (mset (concat batches))"
  shows "LoadConfigDir F H dir = (if files = [] then ret (Inr (Some empty_config)) else load_files F H files None) \<and>
    (\<forall>c. (\<forall>f \<in> set files. ParseConfigFile F H f = ret (Inr (c f))) \<longrightarrow> files \<noteq> [] \<longrightarrow>
       LoadConfigDir F H dir = ret (Inr (Some (foldl Merge (c (hd files)) (map c (tl files))))))"
proof -
  have files: "sort (map (\<lambda>fi. filepath_Join dir (fi_Name fi)) (filter config_file (concat batches))) = files"
    by (simp only: sort_read_dir assms(4))
  then have nil: "map (\<lambda>fi. filepath_Join dir (fi_Name fi)) (filter config_file (concat batches)) = [] \<longleftrightarrow> files = []"
    by (metis list.size(3) length_0_conv length_sort)
  have dir: "LoadConfigDir F H dir = (if files = [] then ret (Inr (Some empty_config)) else load_files F H files None)"
    using nil by (auto simp: LoadConfigDir_def assms(1-3) read_dir_batches files)
  have from_on: "load_files F H fs (Some r) = ret (Inr (Some (foldl Merge r (map c fs))))"
    if "\<forall>f \<in> set fs. ParseConfigFile F H f = ret (Inr (c f))" for c fs r
    using that by (induction fs arbitrary: r) simp_all
  have "load_files F H files None = ret (Inr (Some (foldl Merge (c (hd files)) (map c (tl files)))))"
    if "\<forall>f \<in> set files. ParseConfigFile F H f = ret (Inr (c f))" "files \<noteq> []" for c
    using that from_on by (cases files) simp_all
  with dir show ?thesis by simp
qed

theorem config_dir_in_order_witness:
  "LoadConfigDir demo_files demo_hcl ''conf.d'' =
     load_files demo_files demo_hcl [''conf.d/a.json'', ''conf.d/b.hcl''] None"
proof -
  let ?bs = "[[\<lparr>fi_Name = ''b.hcl'', fi_IsDir = False\<rparr>, \<lparr>fi_Name = ''readme'', fi_IsDir = False\<rparr>],
    [\<lparr>fi_Name = ''a.json'', fi_IsDir = False\<rparr>]]"
  have files: "[''conf.d/a.json'', ''conf.d/b.hcl''] = dir_files ''conf.d'' (mset (concat ?bs))"
    unfolding sort_read_dir [symmetric] by code_simp
  have "os_Open demo_files ''conf.d'' = None" "os_Stat demo_files ''conf.d'' = Inr True"
    "os_Readdir demo_files ''conf.d'' = map Inr ?bs" by (simp_all add: demo_files_def)
  from config_dir_in_order [OF this files, of demo_hcl, THEN conjunct1] show ?thesis by simp
qed

section \<open>Precedence\<close>

definition string_settings :: "(config \<Rightarrow> string) list" where
  "string_settings =
     [cf_BindAddress, cf_Consul, cf_ConsulKeyRoot, cf_ConsulToken, cf_HTTPPort, cf_LogLevel, cf_Nomad, cf_NomadToken,
      cf_NomadTLSServerName]"

definition number_settings :: "(config \<Rightarrow> int) list" where
  "number_settings = [cf_ClusterScalingInterval, cf_JobScalingInterval, cf_RPCPort, cf_ScalingConcurrency]"

text \<open>
  C29: a setting comes from the command line if it is given there, else from the configuration file,
  else from the defaults; a scaling type is disabled as soon as one source disables it.
\<close>

theorem settings_precedence:
  assumes "LoadConfig F H path h = (Ret (Inr (Some file)), h')" and "path \<noteq> []"
  shows "\<exists>c. merged_config F H defaults path given h = (Ret (Some c), h') \<and>
    (\<forall>f \<in> set string_settings. f c = (if f given \<noteq> [] then f given else if f file \<noteq> [] then f file else f defaults)) \<and>
    (\<forall>f \<in> set number_settings. f c = (if 0 < f given then f given else if 0 < f file then f file else f defaults)) \<and>
    cf_ClusterScalingDisable c = (cf_ClusterScalingDisable given \<or> cf_ClusterScalingDisable file \<or> cf_ClusterScalingDisable defaults) \<and>
    cf_JobScalingDisable c = (cf_JobScalingDisable given \<or> cf_JobScalingDisable file \<or> cf_JobScalingDisable defaults)"
proof (intro exI conjI)
  show "merged_config F H defaults path given h = (Ret (Some (Merge (Merge defaults file) given)), h')"
    using assms by (simp add: merged_config_def go_simps)
qed (auto simp: Merge_def set_str_def set_pos_def string_settings_def number_settings_def)

theorem settings_precedence_witness:
  "\<exists>c h'. merged_config demo_files demo_hcl DefaultConfig ''conf.d'' empty_config [] = (Ret (Some c), h') \<and>
     cf_Nomad c = ''/root/conf.d/b.hcl'' \<and> cf_Consul c = LocalConsulAddress"
proof -
  let ?file = "empty_config\<lparr>cf_Nomad := ''/root/conf.d/b.hcl'', cf_ScalingConcurrency := -1\<rparr>"
  have "LoadConfig demo_files demo_hcl ''conf.d'' [] = (Ret (Inr (Some ?file)), [])"
    by (simp add: demo_config_defs go_simps Merge_def set_str_def set_pos_def set_ptr_def empty_config_def)
  from settings_precedence [OF this, of DefaultConfig empty_config] obtain c where
    c: "merged_config demo_files demo_hcl DefaultConfig ''conf.d'' empty_config [] = (Ret (Some c), [])"
    and s: "\<forall>f \<in> set string_settings. f c = (if f empty_config \<noteq> [] then f empty_config else if f ?file \<noteq> [] then f ?file else f DefaultConfig)"
    by auto
  have "cf_Nomad \<in> set string_settings" "cf_Consul \<in> set string_settings" by (simp_all add: string_settings_def)
  note bspec [OF s this(1)] bspec [OF s this(2)]
  then have "cf_Nomad c = ''/root/conf.d/b.hcl''" "cf_Consul c = LocalConsulAddress"
    by (simp_all add: empty_config_def DefaultConfig_def)
  with c show ?thesis by blast
qed

section \<open>Files that are refused\<close>

lemma invalid_keys_all:
  assumes "\<forall>(keys, v) \<in> set items. keys \<noteq> []"
  shows "invalid_keys valid items = ret (filter (\<lambda>k. k \<notin> set valid) (map (hd \<circ> fst) items))"
  using assms by (induction valid items rule: invalid_keys.induct) (auto split: list.splits)

text \<open>
  A configuration with an unknown key is refused, with an error that names all of its unknown
  keys in the order of the file, whatever the rest of it says and before anything is decoded.
\<close>

theorem unknown_keys_refused:
  assumes "hl_Parse H buf = Inr (ObjectList items)" and "\<forall>(keys, v) \<in> set items. keys \<noteq> []"
    and "bad = filter (\<lambda>k. k \<notin> set configKeys) (map (hd \<circ> fst) items)" and "bad \<noteq> []"
  shows "ParseConfig H buf = ret (Inl (Prefixed ''error parsing 'config': '' (Prefixed ''config:'' (InvalidKeys bad))))"
  using assms by (simp add: ParseConfig_def parseConfig_def checkHCLKeys_def invalid_keys_all)

theorem unknown_keys_refused_witness:
  "ParseConfig (demo_hcl\<lparr>hl_Parse := \<lambda>_. Inr (ObjectList [([''nomad''], LiteralType ''x''), ([''nomda''], LiteralType ''y'')])\<rparr>) ''text'' =
     ret (Inl (Prefixed ''error parsing 'config': '' (Prefixed ''config:'' (InvalidKeys [''nomda'']))))"
  by (rule unknown_keys_refused [where items = "[([''nomad''], LiteralType ''x''), ([''nomda''], LiteralType ''y'')]"])
    (simp_all add: configKeys_def)

text \<open>
  A telemetry block with a label is not refused but crashes the agent: the label survives the
  filter, no element without keys is left, and the first one is taken all the same.
\<close>

theorem labelled_block_panics:
  assumes "hl_Parse H buf = Inr (ObjectList [([''telemetry'', label], body)])"
    and "hl_DecodeObject H (ObjectList [([''telemetry'', label], body)]) = Inr m"
    and "hl_WeakDecodeConfig H (AList.delete ''notification'' (AList.delete ''telemetry'' m)) empty_config = Inr c"
  shows "ParseConfig H buf = panic"
  using assms
  by (simp add: ParseConfig_def parseConfig_def checkHCLKeys_def configKeys_def with_block_def Filter_key_def
      parseTelemetry_def parse_block_def Elem_def ToLower_def lower_char_def)

theorem labelled_block_panics_witness:
  "ParseConfig (demo_hcl\<lparr>hl_Parse := \<lambda>_. Inr (ObjectList [([''telemetry'', ''main''], ObjectType [])]),
     hl_DecodeObject := \<lambda>_. Inr []\<rparr>) ''text'' = panic"
  by (rule labelled_block_panics [where label = "''main''" and body = "ObjectType []" and m = "[]" and c = "empty_config\<lparr>cf_ScalingConcurrency := -1\<rparr>"])
    (simp_all add: demo_hcl_def empty_config_def)

end
