(* ===== verification/Helper.thy ===== *)
theory Helper
  imports World
begin

text \<open>
  \<open>helper/funcs.go\<close>: the address matcher, extremes of floats, required keys of a meta
  configuration, change detection by hashes, and the two polls of the node registry that
  wait for a node to appear; and \<open>PercentOf\<close> of the vendored package \<open>percent\<close>.
\<close>

section \<open>FindIP\<close>

text \<open>
  Go's regular expressions find the leftmost match and, there, prefer the earlier
  alternative.  \<open>num_block\<close> lists the lengths that
  \<open>(25[0-5]|2[0-4][0-9]|1[0-9][0-9]|[1-9]?[0-9])\<close> can match at the start of a text, in
  order of preference; \<open>match_blocks n\<close> matches one block and \<open>n\<close> more, each after a dot,
  and gives up a preferred length when the rest does not match.
\<close>

definition isdig :: "nat \<Rightarrow> nat \<Rightarrow> char \<Rightarrow> bool" where
  "isdig lo hi c \<longleftrightarrow> 48 + lo \<le> (of_char c :: nat) \<and> (of_char c :: nat) \<le> 48 + hi"

definition num_block :: "string \<Rightarrow> nat list" where
  "num_block s =
     (case s of c1 # c2 # c3 # _ \<Rightarrow>
        (if isdig 2 2 c1 \<and> isdig 5 5 c2 \<and> isdig 0 5 c3 then [3] else []) @
        (if isdig 2 2 c1 \<and> isdig 0 4 c2 \<and> isdig 0 9 c3 then [3] else []) @
        (if isdig 1 1 c1 \<and> isdig 0 9 c2 \<and> isdig 0 9 c3 then [3] else []) | _ \<Rightarrow> []) @
     (case s of c1 # c2 # _ \<Rightarrow> (if isdig 1 9 c1 \<and> isdig 0 9 c2 then [2] else []) | _ \<Rightarrow> []) @
     (case s of c1 # _ \<Rightarrow> (if isdig 0 9 c1 then [1] else []) | _ \<Rightarrow> [])"

fun first_some :: "('a \<Rightarrow> 'b option) \<Rightarrow> 'a list \<Rightarrow> 'b option" where
  "first_some f [] = None"
| "first_some f (x # xs) = (case f x of Some y \<Rightarrow> Some y | None \<Rightarrow> first_some f xs)"

lemma first_some_cong [fundef_cong]:
  "xs = ys \<Longrightarrow> (\<And>x. x \<in> set ys \<Longrightarrow> f x = g x) \<Longrightarrow> first_some f xs = first_some g ys"
  by (induction ys arbitrary: xs) (auto split: option.splits)

lemma first_someD: "first_some f xs = Some y \<Longrightarrow> \<exists>x \<in> set xs. f x = Some y"
  by (induction xs) (auto split: option.splits)

primrec match_blocks :: "nat \<Rightarrow> string \<Rightarrow> nat option" where
  "match_blocks 0 s = first_some Some (num_block s)"
| "match_blocks (Suc n) s =
     first_some (\<lambda>l. case drop l s of
         [] \<Rightarrow> None
       | c # t \<Rightarrow> (if c = CHR ''.'' then map_option (\<lambda>m. l + 1 + m) (match_blocks n t) else None))
       (num_block s)"

fun FindIP :: "string \<Rightarrow> string" where
  "FindIP s =
     (case match_blocks 3 s of
        Some m \<Rightarrow> take m s
      | None \<Rightarrow> (case s of [] \<Rightarrow> [] | _ # t \<Rightarrow> FindIP t))"

declare FindIP.simps [simp del]

text \<open>The text of an IPv4 address.\<close>

definition dchar :: "nat \<Rightarrow> char" where
  "dchar k = char_of (48 + k)"

definition octet :: "nat \<Rightarrow> string" where
  "octet n = (if n < 10 then [dchar n] else if n < 100 then [dchar (n div 10), dchar (n mod 10)]
     else [dchar (n div 100), dchar (n div 10 mod 10), dchar (n mod 10)])"

fun dotted :: "nat list \<Rightarrow> string" where
  "dotted [] = []"
| "dotted [a] = octet a"
| "dotted (a # b # os) = octet a @ CHR ''.'' # dotted (b # os)"

lemma isdig_dchar [simp]: "k < 10 \<Longrightarrow> isdig lo hi (dchar k) \<longleftrightarrow> lo \<le> k \<and> k \<le> hi"
  by (simp add: isdig_def dchar_def)

lemma isdigE:
  assumes "isdig lo hi c"
  obtains k where "c = dchar k" and "lo \<le> k" and "k \<le> hi"
proof (rule that [of "of_char c - 48"])
  show "c = dchar (of_char c - 48)" using assms by (simp add: isdig_def dchar_def)
qed (use assms in \<open>auto simp: isdig_def\<close>)

lemma num_block_octet:
  assumes "n < 256" and "rest = [] \<or> \<not> isdig 0 9 (hd rest)"
  shows "\<exists>ls. num_block (octet n @ rest) = length (octet n) # ls"
proof -
  have nd: "\<not> isdig 0 9 c \<Longrightarrow> \<not> isdig 0 4 c \<and> \<not> isdig 0 5 c \<and> \<not> isdig 1 9 c \<and> \<not> isdig 5 5 c" for c
    by (auto simp: isdig_def)
  consider "n < 10" | "10 \<le> n" "n < 100" | "100 \<le> n" "n < 200" | "200 \<le> n" by linarith
  then show ?thesis
  proof cases
    case 1
    then show ?thesis using assms
      by (cases rest) (auto simp: octet_def num_block_def dest: nd split: list.splits)
  next
    case 2
    then have "n div 10 < 10" "1 \<le> n div 10" "n mod 10 < 10" by auto
    moreover have "octet n = [dchar (n div 10), dchar (n mod 10)]" using 2 by (simp add: octet_def)
    ultimately show ?thesis using assms(2) nd [of "hd rest"]
      by (cases rest) (simp_all add: num_block_def)
  next
    case 3
    then have "n div 100 = 1" "n div 10 mod 10 \<le> 9" "n mod 10 \<le> 9" by auto
    with 3 show ?thesis by (simp add: octet_def num_block_def)
  next
    case 4
    with assms(1) have q: "20 \<le> n div 10" "n div 10 \<le> 25" and "n div 100 = 2"
      by (auto intro: div_nat_eqI)
    have "n div 10 - 20 < 10" and "n div 10 = (n div 10 - 20) + 10 * 2" using q by linarith+
    then have "n div 10 mod 10 = n div 10 - 20" by (metis mod_less mod_mult_self2)
    moreover have "n mod 10 \<le> 5 \<or> n div 10 < 25" using assms(1) div_mult_mod_eq [of n 10] by linarith
    ultimately have "n div 10 mod 10 \<le> 4 \<or> n div 10 mod 10 = 5 \<and> n mod 10 \<le> 5" "n div 10 mod 10 \<le> 9" "n mod 10 \<le> 9"
      using q by linarith+
    moreover have "octet n = [dchar 2, dchar (n div 10 mod 10), dchar (n mod 10)]" using 4 \<open>n div 100 = 2\<close> by (simp add: octet_def)
    ultimately show ?thesis by (auto simp: num_block_def)
  qed
qed

lemma num_block_sound:
  assumes "l \<in> set (num_block s)"
  shows "\<exists>n < 256. take l s = octet n \<and> l \<le> length s"
proof -
  have one: "\<exists>n < 256. [c] = octet n" if c: "isdig 0 9 c" for c
  proof -
    obtain k where "c = dchar k" "k \<le> 9" using c by (elim isdigE)
    then show ?thesis by (intro exI [of _ k]) (simp add: octet_def)
  qed
  have two: "\<exists>n < 256. [c, d] = octet n" if c: "isdig 1 9 c" and d: "isdig 0 9 d" for c d
  proof -
    obtain j k where "c = dchar j" "1 \<le> j" "j \<le> 9" "d = dchar k" "k \<le> 9" using c d by (elim isdigE)
    then show ?thesis by (intro exI [of _ "10 * j + k"]) (simp add: octet_def)
  qed
  have octet3: "\<exists>n < 256. [dchar i, dchar j, dchar k] = octet n"
    if "1 \<le> i" "j \<le> 9" "k \<le> 9" "100 * i + 10 * j + k < 256" for i j k
  proof -
    have "(100 * i + 10 * j + k) div 100 = i" "(100 * i + 10 * j + k) div 10 = 10 * i + j"
      using that by (auto intro: div_nat_eqI)
    moreover have "(100 * i + 10 * j + k) mod 10 = k mod 10" "(10 * i + j) mod 10 = j mod 10"
      using mod_mult_self2 [of k 10 "10 * i + j"] mod_mult_self2 [of j 10 i] by (simp_all add: algebra_simps)
    ultimately show ?thesis using that by (intro exI [of _ "100 * i + 10 * j + k"]) (auto simp: octet_def)
  qed
  have three: "\<exists>n < 256. [c, d, e] = octet n"
    if e: "isdig 1 1 c \<and> isdig 0 9 d \<and> isdig 0 9 e \<or> isdig 2 2 c \<and> isdig 0 4 d \<and> isdig 0 9 e \<or>
      isdig 2 2 c \<and> isdig 5 5 d \<and> isdig 0 5 e" for c d e
    using e by (elim disjE conjE isdigE) (simp_all add: octet3)
  show ?thesis
  proof (cases s rule: remdups_adj.cases)
    case 1
    with assms show ?thesis by (simp add: num_block_def)
  next
    case (2 c)
    with assms one [of c] show ?thesis by (simp add: num_block_def split: if_splits)
  next
    case (3 c d t)
    have "l = 1 \<and> isdig 0 9 c \<or> l = 2 \<and> isdig 1 9 c \<and> isdig 0 9 d \<or>
      (\<exists>e r. t = e # r \<and> l = 3 \<and> (isdig 1 1 c \<and> isdig 0 9 d \<and> isdig 0 9 e \<or>
        isdig 2 2 c \<and> isdig 0 4 d \<and> isdig 0 9 e \<or> isdig 2 2 c \<and> isdig 5 5 d \<and> isdig 0 5 e))"
      using assms unfolding 3 num_block_def by (cases t; simp split: if_splits; blast)
    then show ?thesis
    proof (elim disjE conjE exE)
    qed (use 3 one [of c] two [of c d] three [of c d] in simp_all)
  qed
qed

lemma octet_nonempty: "octet n \<noteq> []"
  by (simp add: octet_def)

lemma match_dotted:
  assumes "os \<noteq> []" and "\<forall>n \<in> set os. n < 256" and "rest = [] \<or> \<not> isdig 0 9 (hd rest)"
  shows "match_blocks (length os - 1) (dotted os @ rest) = Some (length (dotted os))"
  using assms
proof (induction os rule: dotted.induct)
  case (2 a)
  then show ?case using num_block_octet [of a rest] by auto
next
  case (3 a b os)
  have "\<not> isdig 0 9 CHR ''.''" by (simp add: isdig_def)
  then obtain ls where "num_block (octet a @ CHR ''.'' # dotted (b # os) @ rest) = length (octet a) # ls"
    using num_block_octet [of a "CHR ''.'' # dotted (b # os) @ rest"] "3.prems" by auto
  with 3 show ?case by simp
qed simp

lemma match_sound:
  "match_blocks n s = Some m \<Longrightarrow>
     \<exists>os. length os = Suc n \<and> (\<forall>k \<in> set os. k < 256) \<and> take m s = dotted os"
proof (induction n arbitrary: s m)
  case 0
  then obtain k where "k < 256" "take m s = octet k"
    using num_block_sound first_someD by (metis match_blocks.simps(1) option.inject)
  then show ?case by (intro exI [of _ "[k]"]) simp
next
  case (Suc n)
  then obtain l t m' where l: "l \<in> set (num_block s)" "drop l s = CHR ''.'' # t"
    and m: "match_blocks n t = Some m'" "m = l + 1 + m'"
    by (auto dest!: first_someD split: list.splits if_splits)
  obtain k where k: "k < 256" "take l s = octet k" "l \<le> length s" using num_block_sound [OF l(1)] by auto
  obtain os where os: "length os = Suc n" "\<forall>k \<in> set os. k < 256" "take m' t = dotted os"
    using Suc.IH [OF m(1)] by auto
  have "s = octet k @ CHR ''.'' # t" using k l by (metis append_take_drop_id)
  moreover have "length (octet k) = l" using k by (metis length_take min.absorb2)
  ultimately have "take m s = octet k @ CHR ''.'' # dotted os" using m os by auto
  with k os show ?case by (intro exI [of _ "k # os"]) (cases os, auto)
qed

lemma FindIP_sound:
  "FindIP s \<noteq> [] \<Longrightarrow> \<exists>os. length os = 4 \<and> (\<forall>k \<in> set os. k < 256) \<and> FindIP s = dotted os"
proof (induction s rule: FindIP.induct)
  case (1 s)
  show ?case
  proof (cases "match_blocks 3 s")
    case None
    with 1 show ?thesis by (subst (asm) (2) FindIP.simps, subst FindIP.simps) (auto split: list.splits)
  next
    case (Some m)
    with match_sound [OF Some] show ?thesis by (simp add: FindIP.simps)
  qed
qed

text \<open>
  C36: the address found is the address of the node: on the text of an IPv4 address,
  alone or followed by anything that does not start with a digit (the port of a Nomad
  HTTP address), \<open>FindIP\<close> returns exactly the address; and on any text at all what it
  returns is empty or the text of four octets below 256.
\<close>

theorem FindIP_correct:
  assumes "length os = 4" and "\<forall>n \<in> set os. n < 256" and "rest = [] \<or> \<not> isdig 0 9 (hd rest)"
  shows "FindIP (dotted os @ rest) = dotted os \<and>
    (FindIP s = [] \<or> (\<exists>os'. length os' = 4 \<and> (\<forall>k \<in> set os'. k < 256) \<and> FindIP s = dotted os'))"
proof -
  have "os \<noteq> []" using assms(1) by auto
  from match_dotted [OF this assms(2,3)] assms(1)
  have "FindIP (dotted os @ rest) = dotted os" by (subst FindIP.simps) simp
  with FindIP_sound show ?thesis by blast
qed

theorem FindIP_correct_witness:
  "FindIP ''10.0.255.7:4646'' = ''10.0.255.7''"
proof -
  have "dotted [10, 0, 255, 7] = ''10.0.255.7''" by code_simp
  then show ?thesis using FindIP_correct [of "[10, 0, 255, 7]" "'':4646''" "[]"] by (simp add: isdig_def)
qed

section \<open>Extremes, membership, required keys\<close>

text \<open>\<open>Max\<close> and \<open>Min\<close>; without arguments the index \<open>values[0]\<close> is out of range and they panic.\<close>

fun Max_floats :: "float64 list \<Rightarrow> float64 option" where
  "Max_floats [] = None"
| "Max_floats (v # vs) = Some (fold (\<lambda>i max. if max < i then i else max) vs v)"

fun Min_floats :: "float64 list \<Rightarrow> float64 option" where
  "Min_floats [] = None"
| "Min_floats (v # vs) = Some (fold (\<lambda>i min. if i < min then i else min) vs v)"

fun StringInSlice :: "string \<Rightarrow> string list \<Rightarrow> bool" where
  "StringInSlice a [] = False"
| "StringInSlice a (b # list) = (if b = a then True else StringInSlice a list)"

fun ParseMetaConfig :: "(string, string) gomap \<Rightarrow> string list \<Rightarrow> string list" where
  "ParseMetaConfig meta [] = []"
| "ParseMetaConfig meta (reqKey # reqKeys) =
     (if has_key meta reqKey then ParseMetaConfig meta reqKeys
      else reqKey # ParseMetaConfig meta reqKeys)"

lemma StringInSlice_set [simp]: "StringInSlice a list \<longleftrightarrow> a \<in> set list"
  by (induction list) auto

lemma ParseMetaConfig_filter: "ParseMetaConfig meta ks = filter (\<lambda>k. \<not> has_key meta k) ks"
  by (induction ks) auto

text \<open>\<open>hash\<close> is \<open>hashstructure.Hash\<close>, a 64-bit value or an error.\<close>

definition HasObjectChanged :: "('a \<Rightarrow> int result) \<Rightarrow> 'a \<Rightarrow> 'a \<Rightarrow> bool \<times> go_error option" where
  "HasObjectChanged hash objectA objectB =
     (case hash objectA of
        Inl e \<Rightarrow> (False, Some (Errorf ''error hashing first object'' (Some e)))
      | Inr a \<Rightarrow>
          (case hash objectB of
             Inl e \<Rightarrow> (False, Some (Errorf ''error hashing second object'' (Some e)))
           | Inr b \<Rightarrow> (a \<noteq> b, None)))"

definition PercentOf :: "int \<Rightarrow> int \<Rightarrow> float64" where
  "PercentOf current all = fdiv (fmul (float_of_int current) (float_of_int 100)) (float_of_int all)"

lemma fold_max_bound:
  fixes vs :: "float64 list"
  defines "F \<equiv> \<lambda>i max. if max < i then i else max"
  assumes "\<forall>v \<in> set (m # vs). v \<noteq> NaN"
  shows "fold F vs m \<in> set (m # vs)" and "\<forall>v \<in> set (m # vs). \<not> fold F vs m < v"
proof -
  have "fold F vs m \<in> set (m # vs) \<and> (\<forall>v \<in> set (m # vs). \<not> fold F vs m < v)"
    using assms(2)
  proof (induction vs arbitrary: m)
    case (Cons i vs)
    have nan: "\<forall>v \<in> set (F i m # vs). v \<noteq> NaN" using Cons.prems by (auto simp: F_def)
    note IH = Cons.IH [OF nan]
    let ?r = "fold F vs (F i m)"
    have r: "?r \<noteq> NaN" and top: "\<not> ?r < F i m" using IH nan by auto
    have le: "\<not> F i m < m" "\<not> F i m < i" using Cons.prems flt_trans [of m i m] by (auto simp: F_def)
    have "\<not> ?r < v" if "\<not> F i m < v" "v \<noteq> NaN" for v
      using flt_total [OF r that(2)] flt_total [OF nan [rule_format, of "F i m"] that(2)] top that flt_trans by auto
    with le IH Cons.prems show ?case by (auto simp: F_def)
  qed simp
  then show "fold F vs m \<in> set (m # vs)" and "\<forall>v \<in> set (m # vs). \<not> fold F vs m < v" by blast+
qed

section \<open>Waiting for a node to register\<close>

text \<open>
  Both polls read the registry under its read lock at every tick: a lock held by a writer
  that does not release it blocks them, and a pool that is no longer in the registry is a
  nil pointer.  What the registry holds at that moment is up to the other goroutines.
\<close>

definition pool_in_registry :: "env \<Rightarrow> string \<Rightarrow> worker_pool act" where
  "pool_in_registry E workerPoolName =
     bnd (view_registry E) (\<lambda>r.
       if lk_Writer (nr_Lock r) then block
       else case map_of (nr_WorkerPools r) workerPoolName of None \<Rightarrow> panic | Some pool \<Rightarrow> ret pool)"

definition FindNodeByAddress :: "env \<Rightarrow> string \<Rightarrow> string \<Rightarrow> bool act" where
  "FindNodeByAddress E workerPoolName nodeAddress =
     bnd (ticks E) (\<lambda>n.
     poll n
       (\<lambda>_. bnd (pool_in_registry E workerPoolName) (\<lambda>pool.
          ret (if list_ex (\<lambda>(_, nodeRecord). FindIP (nd_HTTPAddr nodeRecord) = nodeAddress) (wp_Nodes pool)
               then Inl True else Inr ())))
       (\<lambda>_. ret False) ())"

fun most_recent :: "(string, time) gomap \<Rightarrow> string list \<Rightarrow> most_recent_node \<Rightarrow> most_recent_node" where
  "most_recent regs [] t = t"
| "most_recent regs (k # ks) t =
     most_recent regs ks
       (case map_of regs k of
          Some r \<Rightarrow> (if mr_MostRecentLaunch t < r then t\<lparr>mr_MostRecentLaunch := r, mr_InstanceID := k\<rparr> else t)
        | None \<Rightarrow> t)"

definition FindNodeByRegistrationTime :: "env \<Rightarrow> string \<Rightarrow> string result act" where
  "FindNodeByRegistrationTime E workerPoolName =
     bnd (time_Now E) (\<lambda>now.
     let launchThreshold = now - 60 * Second in
     bnd (ticks E) (\<lambda>n.
     poll n
       (\<lambda>tracking. bnd (pool_in_registry E workerPoolName) (\<lambda>pool.
          bnd (range_keys E (wp_NodeRegistrations pool)) (\<lambda>ks.
          let tracking' = most_recent (wp_NodeRegistrations pool) ks tracking in
          ret (if launchThreshold < mr_MostRecentLaunch tracking' then Inl (Inr (mr_InstanceID tracking'))
               else Inr tracking'))))
       (\<lambda>_. ret (Inl (Errorf ''timeout reached while attempting to determine the most recently launched node'' None)))
       no_recent_node))"

definition registered_at :: "env \<Rightarrow> string \<Rightarrow> worker_pool \<Rightarrow> bool" where
  "registered_at E p pool \<longleftrightarrow> (\<exists>g. map_of (nr_WorkerPools (en_registry E g)) p = Some pool)"

lemma pool_in_registry_obeys: "obeys P (pool_in_registry E p) (registered_at E p)"
  unfolding pool_in_registry_def view_registry_def
  by (intro obeys_bnd [where R = "\<lambda>r. \<exists>g. r = en_registry E g"] obeys_intro)
    (auto simp: registered_at_def)

lemma FindNodeByAddress_obeys:
  "obeys P (FindNodeByAddress E p ip) (\<lambda>ok. ok \<longrightarrow>
     (\<exists>pool k nd. registered_at E p pool \<and> (k, nd) \<in> set (wp_Nodes pool) \<and> FindIP (nd_HTTPAddr nd) = ip))"
  unfolding FindNodeByAddress_def ticks_def
  by (intro obeys_bnd_any [OF obeys_ask] obeys_poll [where I = "\<lambda>_. True"] obeys_bnd [OF pool_in_registry_obeys])
    (auto intro!: obeys_ret simp: list_ex_iff split: prod.splits, metis)

lemma most_recent_inv:
  assumes "I t" and "\<And>k r t. map_of regs k = Some r \<Longrightarrow> I (t\<lparr>mr_MostRecentLaunch := r, mr_InstanceID := k\<rparr>)"
  shows "I (most_recent regs ks t)"
  using assms(1)
proof (induction ks arbitrary: t)
  case (Cons k ks)
  have "I (case map_of regs k of
          Some r \<Rightarrow> (if mr_MostRecentLaunch t < r then t\<lparr>mr_MostRecentLaunch := r, mr_InstanceID := k\<rparr> else t)
        | None \<Rightarrow> t)"
    using Cons.prems assms(2) by (auto split: option.split)
  from Cons.IH [OF this] show ?case by simp
qed simp

lemma most_recent_max:
  "mr_MostRecentLaunch t \<le> mr_MostRecentLaunch (most_recent regs ks t) \<and>
   (\<forall>k \<in> set ks. \<forall>r. map_of regs k = Some r \<longrightarrow> r \<le> mr_MostRecentLaunch (most_recent regs ks t))"
proof (induction ks arbitrary: t)
  case (Cons k ks)
  let ?t = "case map_of regs k of
          Some r \<Rightarrow> (if mr_MostRecentLaunch t < r then t\<lparr>mr_MostRecentLaunch := r, mr_InstanceID := k\<rparr> else t)
        | None \<Rightarrow> t"
  have "mr_MostRecentLaunch t \<le> mr_MostRecentLaunch ?t" and
    "\<forall>r. map_of regs k = Some r \<longrightarrow> r \<le> mr_MostRecentLaunch ?t"
    by (auto split: option.split)
  with Cons.IH [of ?t] show ?case by (auto intro: order.trans)
qed simp

definition seen_registration :: "env \<Rightarrow> string \<Rightarrow> most_recent_node \<Rightarrow> bool" where
  "seen_registration E p t \<longleftrightarrow> t = no_recent_node \<or>
     (\<exists>pool. registered_at E p pool \<and> map_of (wp_NodeRegistrations pool) (mr_InstanceID t) = Some (mr_MostRecentLaunch t))"

lemma seen_registrationD:
  "seen_registration E p t \<Longrightarrow> \<exists>pool r.
     (registered_at E p pool \<and> map_of (wp_NodeRegistrations pool) (mr_InstanceID t) = Some r \<or>
      mr_InstanceID t = [] \<and> r = 0) \<and> r = mr_MostRecentLaunch t"
  by (auto simp: seen_registration_def no_recent_node_def)

lemma FindNodeByRegistrationTime_obeys:
  "obeys (\<lambda>e. e = Now) (FindNodeByRegistrationTime E p) (\<lambda>r. \<forall>n. r = Inr n \<longrightarrow>
     (\<exists>pool t g. (registered_at E p pool \<and> map_of (wp_NodeRegistrations pool) n = Some t \<or> n = [] \<and> t = 0) \<and>
        en_now E g - 60 * Second < t))"
proof -
  have body: "obeys (\<lambda>e. e = Now)
     (bnd (pool_in_registry E p) (\<lambda>pool. bnd (range_keys E (wp_NodeRegistrations pool)) (\<lambda>ks.
          let tracking' = most_recent (wp_NodeRegistrations pool) ks tr in
          ret (if thr < mr_MostRecentLaunch tracking' then Inl (Inr (mr_InstanceID tracking')) else Inr tracking'))))
     (\<lambda>r. case r of Inl a \<Rightarrow> (\<forall>n. a = Inr n \<longrightarrow>
         (\<exists>pool t. (registered_at E p pool \<and> map_of (wp_NodeRegistrations pool) n = Some t \<or> n = [] \<and> t = 0) \<and> thr < t))
       | Inr t \<Rightarrow> seen_registration E p t)"
    if tr: "seen_registration E p tr" for tr thr
  proof (rule obeys_bnd [OF pool_in_registry_obeys])
    fix pool assume pool: "registered_at E p pool"
    have s: "seen_registration E p (most_recent (wp_NodeRegistrations pool) ks tr)" for ks
      by (rule most_recent_inv) (use tr pool in \<open>auto simp: seen_registration_def\<close>)
    show "obeys (\<lambda>e. e = Now) (bnd (range_keys E (wp_NodeRegistrations pool)) (\<lambda>ks.
          let tracking' = most_recent (wp_NodeRegistrations pool) ks tr in
          ret (if thr < mr_MostRecentLaunch tracking' then Inl (Inr (mr_InstanceID tracking')) else Inr tracking')))
     (\<lambda>r. case r of Inl a \<Rightarrow> (\<forall>n. a = Inr n \<longrightarrow>
         (\<exists>pool t. (registered_at E p pool \<and> map_of (wp_NodeRegistrations pool) n = Some t \<or> n = [] \<and> t = 0) \<and> thr < t))
       | Inr t \<Rightarrow> seen_registration E p t)"
      unfolding range_keys_def Let_def
      by (intro obeys_bnd_any obeys_ask obeys_ret TrueI)
        (use s seen_registrationD [OF s] in \<open>auto, blast+\<close>)
  qed
  show ?thesis
    unfolding FindNodeByRegistrationTime_def time_Now_def ticks_def
  proof (rule obeys_bnd [where R = "\<lambda>t. \<exists>g. t = en_now E g"])
    fix now assume "\<exists>g. now = en_now E g"
    then show "obeys (\<lambda>e. e = Now) (let launchThreshold = now - 60 * Second in
       bnd (ask (en_ticks E)) (\<lambda>n. poll n
       (\<lambda>tracking. bnd (pool_in_registry E p) (\<lambda>pool.
          bnd (range_keys E (wp_NodeRegistrations pool)) (\<lambda>ks.
          let tracking' = most_recent (wp_NodeRegistrations pool) ks tracking in
          ret (if launchThreshold < mr_MostRecentLaunch tracking' then Inl (Inr (mr_InstanceID tracking'))
               else Inr tracking'))))
       (\<lambda>_. ret (Inl (Errorf ''timeout reached while attempting to determine the most recently launched node'' None)))
       no_recent_node)) (\<lambda>r. \<forall>n. r = Inr n \<longrightarrow>
     (\<exists>pool t g. (registered_at E p pool \<and> map_of (wp_NodeRegistrations pool) n = Some t \<or> n = [] \<and> t = 0) \<and>
        en_now E g - 60 * Second < t))"
      by (intro obeys_Let obeys_bnd_any [OF obeys_ask] obeys_post [OF obeys_poll
          [where I = "seen_registration E p", OF body]] obeys_ret)
        (simp_all add: seen_registration_def, metis)
  qed (auto intro: obeys_call)
qed

end
