(* ===== verification/Aws_Provider.thy ===== *)
theory Aws_Provider
  imports Helper State_Store
begin

text \<open>
  The scaling providers: \<open>cloud/cloud_provider.go\<close> and the AWS provider of \<open>cloud/aws\<close>.
  \<open>svc\<close> is the autoscaling service of a provider, that is the region it was created for;
  the EC2 calls go to the region of the worker pool.  Operations that change the state of
  the worker pool return the pool.  The locale \<open>scaling_provider\<close> is the interface of
  \<open>structs/cloud_provider.go\<close> with the contract that cluster scaling relies on, and the
  AWS provider is shown to implement it.
\<close>

section \<open>cloud/aws/aws\_asg\_util.go and aws\_ec2\_util.go\<close>

text \<open>
  The message of the error for an unexpected number of groups dereferences the result
  variable \<open>asg\<close>, which is still nil there.
\<close>

definition describeScalingGroup :: "env \<Rightarrow> string \<Rightarrow> string \<Rightarrow> (asg list \<times> go_error option) act" where
  "describeScalingGroup E svc asgName =
     bnd (describe_asg E svc asgName) (\<lambda>(groups, err).
     if length groups \<noteq> 1 then panic else ret (groups, err))"

fun newest_instance :: "instance_info list \<Rightarrow> most_recent_node \<Rightarrow> most_recent_node" where
  "newest_instance [] t = t"
| "newest_instance (i # is) t =
     newest_instance is
       (if mr_MostRecentLaunch t < ii_LaunchTime i
        then t\<lparr>mr_MostRecentLaunch := ii_LaunchTime i, mr_InstanceIP := ii_PrivateIP i, mr_InstanceID := ii_ID i\<rparr>
        else t)"

definition getMostRecentInstance :: "env \<Rightarrow> string \<Rightarrow> string \<Rightarrow> string result act" where
  "getMostRecentInstance E asgName region =
     bnd (time_Now E) (\<lambda>now.
     let launchThreshold = now - 90 * Second in
     bnd (ticks E) (\<lambda>n.
     poll n
       (\<lambda>tracking. bnd (describe_instances_asg E asgName region) (\<lambda>resp.
          case resp of
            Inl e \<Rightarrow> ret (Inr tracking)
          | Inr reservations \<Rightarrow>
              (if reservations = [] then ret (Inr tracking)
               else let tracking' = newest_instance (concat reservations) tracking in
                 ret (if launchThreshold < mr_MostRecentLaunch tracking'
                      then Inl (Inr (mr_InstanceIP tracking')) else Inr tracking'))))
       (\<lambda>_. ret (Inl (Errorf ''cloud/aws: timeout reached while attempting to determine the most recently launched instance'' None)))
       no_recent_node))"

definition checkClusterScalingResult :: "env \<Rightarrow> string \<Rightarrow> string \<Rightarrow> go_error option act" where
  "checkClusterScalingResult E svc activityID =
     bnd (ticks E) (\<lambda>n.
     poll n
       (\<lambda>_. bnd (describe_activities E svc activityID) (\<lambda>resp.
          case resp of
            Inl e \<Rightarrow> ret (Inl (Some e))
          | Inr [] \<Rightarrow> panic
          | Inr (a # _) \<Rightarrow>
              ret (if ac_StatusCode a = ''Failed'' \<or> ac_StatusCode a = ''Cancelled''
                   then Inl (Some (Errorf ''scaling activity failed to complete successfully'' None))
                   else if ac_StatusCode a = ''Successful'' then Inl None
                   else Inr ())))
       (\<lambda>_. ret (Some (Errorf ''timeout reached while attempting to verify scaling activity completed successfully'' None))) ())"

definition detachInstance :: "env \<Rightarrow> string \<Rightarrow> string \<Rightarrow> string \<Rightarrow> go_error option act" where
  "detachInstance E svc asgName instanceID =
     bnd (detach_instances E svc asgName instanceID) (\<lambda>resp.
     case resp of
       Inl e \<Rightarrow> ret (Some e)
     | Inr [] \<Rightarrow> panic
     | Inr (a # _) \<Rightarrow>
         (if ac_StatusCode a \<noteq> ''Successful'' then checkClusterScalingResult E svc (ac_ID a)
          else ret None))"

definition verifyAsgUpdate :: "env \<Rightarrow> string \<Rightarrow> string \<Rightarrow> int \<Rightarrow> go_error option act" where
  "verifyAsgUpdate E svc workerPool capacity =
     bnd (ticks E) (\<lambda>n.
     poll n
       (\<lambda>_. bnd (describeScalingGroup E svc workerPool) (\<lambda>(groups, err).
          case err of
            Some e \<Rightarrow> ret (Inr ())
          | None \<Rightarrow> ret (if int (length (ag_Instances (hd groups))) = capacity then Inl None else Inr ())))
       (\<lambda>_. ret (Some (Errorf ''timeout reached while attempting to verify the autoscaling group scaling operation'' None))) ())"

definition translateIptoID :: "env \<Rightarrow> string \<Rightarrow> string \<Rightarrow> string act" where
  "translateIptoID E ip region =
     bnd (describe_instances_ip E ip region) (\<lambda>resp.
     case resp of
       Inl e \<Rightarrow> ret []
     | Inr [] \<Rightarrow> panic
     | Inr ([] # _) \<Rightarrow> panic
     | Inr ((i # _) # _) \<Rightarrow> ret (ii_ID i))"

definition terminateInstance :: "env \<Rightarrow> string \<Rightarrow> string \<Rightarrow> go_error option act" where
  "terminateInstance E instanceID region =
     bnd (terminate_instances E instanceID region) (\<lambda>err.
     case err of
       Some e \<Rightarrow> ret (Some e)
     | None \<Rightarrow>
         bnd (ticks E) (\<lambda>n.
         poll n
           (\<lambda>_. bnd (instance_status E instanceID region) (\<lambda>resp.
              case resp of
                Inl e \<Rightarrow> ret (Inl (Some e))
              | Inr [] \<Rightarrow> panic
              | Inr (st # _) \<Rightarrow> ret (if st = ''terminated'' then Inl None else Inr ())))
           (\<lambda>_. ret (Some (Errorf ''timeout reached while attempting to confirm the termination of instance'' None))) ()))"

section \<open>cloud/aws/aws\_cloud\_provider.go\<close>

definition NewAwsScalingProvider :: "worker_pool \<Rightarrow> scaling_provider_kind result" where
  "NewAwsScalingProvider workerPool =
     (if wp_Region workerPool = [] then Inl (Errorf ''replicator_region is required for the aws scaling provider'' None)
      else Inr (AwsScalingProvider (wp_Region workerPool)))"

definition SafetyCheck :: "env \<Rightarrow> string \<Rightarrow> worker_pool \<Rightarrow> bool act" where
  "SafetyCheck E svc workerPool =
     bnd (describeScalingGroup E svc (wp_Name workerPool)) (\<lambda>(groups, err).
     case err of
       Some e \<Rightarrow> ret False
     | None \<Rightarrow>
         (let desiredCap = ag_DesiredCapacity (hd groups); maxSize = ag_MaxSize (hd groups);
              minSize = ag_MinSize (hd groups); dir = st_ScalingDirection (wp_State workerPool)
          in if int (length (wp_Nodes workerPool)) \<noteq> desiredCap then ret False
             else if dir = ScalingDirectionIn \<and> i64 (desiredCap - 1) < minSize then ret False
             else if dir = ScalingDirectionOut \<and> maxSize < i64 (desiredCap + 1) then ret False
             else ret True))"

definition scaleOut :: "env \<Rightarrow> string \<Rightarrow> worker_pool \<Rightarrow> go_error option act" where
  "scaleOut E svc workerPool =
     bnd (describeScalingGroup E svc (wp_Name workerPool)) (\<lambda>(groups, err).
     case err of
       Some e \<Rightarrow> ret (Some e)
     | None \<Rightarrow>
         (let newCapacity = i64 (ag_DesiredCapacity (hd groups) + 1) in
          bnd (update_asg E svc (wp_Name workerPool) newCapacity) (\<lambda>err.
          case err of
            Some e \<Rightarrow> ret (Some e)
          | None \<Rightarrow> verifyAsgUpdate E svc (wp_Name workerPool) newCapacity)))"

abbreviation upd_state :: "(scaling_state \<Rightarrow> scaling_state) \<Rightarrow> worker_pool \<Rightarrow> worker_pool" where
  "upd_state f p \<equiv> p\<lparr>wp_State := f (wp_State p)\<rparr>"

text \<open>\<open>consulClient.PersistState(workerPool.State)\<close>; its error is only logged.\<close>

definition persist_pool :: "consul_client \<Rightarrow> worker_pool \<Rightarrow> worker_pool act" where
  "persist_pool C p =
     bnd (ci_PersistState C (wp_State p)) (\<lambda>(s, err). ret (p\<lparr>wp_State := s\<rparr>))"

definition scaleIn :: "env \<Rightarrow> consul_client \<Rightarrow> string \<Rightarrow> worker_pool \<Rightarrow> (worker_pool \<times> go_error option) act" where
  "scaleIn E C svc workerPool =
     (case st_EligibleNodes (wp_State workerPool) of
        [] \<Rightarrow> ret (workerPool, Some (Errorf ''cloud/aws: no nodes are marked as eligible for scaling action, unable to detach and terminate'' None))
      | targetNode # _ \<Rightarrow>
          (let pool = upd_state (\<lambda>s. s\<lparr>st_EligibleNodes := butlast (st_EligibleNodes s)\<rparr>) workerPool in
           bnd (translateIptoID E targetNode (wp_Region pool)) (\<lambda>instanceID.
           bnd (detach_instances E svc (wp_Name pool) instanceID) (\<lambda>resp.
           bnd (case resp of
                  Inl e \<Rightarrow> ret None
                | Inr [] \<Rightarrow> panic
                | Inr (a # _) \<Rightarrow>
                    (if ac_StatusCode a \<noteq> ''Successful'' then checkClusterScalingResult E svc (ac_ID a)
                     else ret None)) (\<lambda>err.
           case err of
             Some e \<Rightarrow> ret (pool, Some e)
           | None \<Rightarrow>
               bnd (terminateInstance E instanceID (wp_Region pool)) (\<lambda>err.
               case err of
                 Some e \<Rightarrow> ret (pool, Some (Errorf ''an error occurred while attempting to terminate instance'' None))
               | None \<Rightarrow>
                   bnd (time_Now E) (\<lambda>t.
                   bnd (persist_pool C (upd_state (\<lambda>s. s\<lparr>st_LastScalingEvent := t, st_FailureCount := 0\<rparr>) pool)) (\<lambda>pool'.
                   ret (pool', None)))))))))"

definition failedEventCleanup :: "env \<Rightarrow> string \<Rightarrow> string \<Rightarrow> worker_pool \<Rightarrow> go_error option act" where
  "failedEventCleanup E svc workerNode workerPool =
     bnd (translateIptoID E workerNode (wp_Region workerPool)) (\<lambda>instanceID.
     if st_FailureCount (wp_State workerPool) = wp_RetryThreshold workerPool
     then bnd (detachInstance E svc (wp_Name workerPool) instanceID) (\<lambda>err.
          ret (map_option (\<lambda>e. Errorf ''an error occurred while attempting to detach the failed instance'' (Some e)) err))
     else terminateInstance E instanceID (wp_Region workerPool))"

text \<open>
  One iteration of the loop of \<open>verifyScaledNode\<close>: \<open>Inl\<close> returns, \<open>Inr\<close> continues.  The
  loop runs as long as the failure count does not exceed the retry threshold, and every
  iteration that continues raises the count by one; the loop below is given fuel for that
  many iterations, and a loop that used it up has not returned.
\<close>

abbreviation bump_failures :: "worker_pool \<Rightarrow> worker_pool" where
  "bump_failures \<equiv> upd_state (\<lambda>s. s\<lparr>st_FailureCount := i64 (st_FailureCount s + 1)\<rparr>)"

definition verify_attempt ::
  "env \<Rightarrow> consul_client \<Rightarrow> string \<Rightarrow> worker_pool \<Rightarrow> (worker_pool + worker_pool) act" where
  "verify_attempt E C svc workerPool =
     bnd (getMostRecentInstance E (wp_Name workerPool) (wp_Region workerPool)) (\<lambda>r.
     case r of
       Inl e \<Rightarrow> bnd (persist_pool C (bump_failures workerPool)) (\<lambda>pool. ret (Inr pool))
     | Inr instanceIP \<Rightarrow>
         bnd (FindNodeByAddress E (wp_Name workerPool) instanceIP) (\<lambda>ok.
         if ok then
           bnd (time_Now E) (\<lambda>t.
           bnd (persist_pool C (upd_state (\<lambda>s. s\<lparr>st_FailureCount := 0, st_LastScalingEvent := t\<rparr>) workerPool)) (\<lambda>pool.
           ret (Inl pool)))
         else
           bnd (persist_pool C (bump_failures workerPool)) (\<lambda>pool.
           bnd (failedEventCleanup E svc instanceIP pool) (\<lambda>err.
           ret (Inr pool)))))"

primrec verify_loop :: "nat \<Rightarrow> env \<Rightarrow> consul_client \<Rightarrow> string \<Rightarrow> worker_pool \<Rightarrow> (worker_pool \<times> bool) act" where
  "verify_loop 0 E C svc workerPool = block"
| "verify_loop (Suc n) E C svc workerPool =
     (if st_FailureCount (wp_State workerPool) \<le> wp_RetryThreshold workerPool
      then bnd (verify_attempt E C svc workerPool) (\<lambda>r.
           case r of Inl pool \<Rightarrow> ret (pool, True) | Inr pool \<Rightarrow> verify_loop n E C svc pool)
      else ret (workerPool, False))"

definition verifyScaledNode ::
  "env \<Rightarrow> consul_client \<Rightarrow> string \<Rightarrow> worker_pool \<Rightarrow> (worker_pool \<times> bool) act" where
  "verifyScaledNode E C svc workerPool =
     verify_loop (nat (wp_RetryThreshold workerPool - st_FailureCount (wp_State workerPool) + 1) + 1) E C svc workerPool"

definition Scale ::
  "env \<Rightarrow> consul_client \<Rightarrow> string \<Rightarrow> worker_pool \<Rightarrow> (worker_pool \<times> go_error option) act" where
  "Scale E C svc workerPool =
     (if st_ScalingDirection (wp_State workerPool) = ScalingDirectionOut then
        bnd (scaleOut E svc workerPool) (\<lambda>err.
        case err of
          Some e \<Rightarrow> ret (workerPool, Some e)
        | None \<Rightarrow>
            bnd (verifyScaledNode E C svc workerPool) (\<lambda>(pool, ok).
            ret (pool, if \<not> ok then Some (Errorf ''an error occurred while attempting to verify the scaling operation'' None) else None)))
      else if st_ScalingDirection (wp_State workerPool) = ScalingDirectionIn then
        scaleIn E C svc workerPool
      else ret (workerPool, None))"

section \<open>cloud/cloud\_provider.go\<close>

definition NewScalingProvider :: "worker_pool \<Rightarrow> scaling_provider_kind result" where
  "NewScalingProvider workerPool =
     (if wp_ProviderName workerPool = [] then Inl (Errorf ''no scaling provider specified'' None)
      else if wp_ProviderName workerPool \<noteq> ''aws'' then Inl (Errorf ''unknown scaling provider'' None)
      else case NewAwsScalingProvider workerPool of
             Inl e \<Rightarrow> Inl (Errorf ''an error occurred while setting up scaling provider'' (Some e))
           | Inr p \<Rightarrow> Inr p)"

section \<open>The interface and its contract\<close>

record scaling_provider =
  sp_SafetyCheck :: "worker_pool \<Rightarrow> bool act"
  sp_Scale :: "worker_pool \<Rightarrow> (worker_pool \<times> go_error option) act"

definition awsScalingProvider :: "env \<Rightarrow> consul_client \<Rightarrow> string \<Rightarrow> scaling_provider" where
  "awsScalingProvider E C svc = \<lparr>sp_SafetyCheck = SafetyCheck E svc, sp_Scale = Scale E C svc\<rparr>"

lemma awsScalingProvider_sel [simp]:
  "sp_SafetyCheck (awsScalingProvider E C svc) = SafetyCheck E svc"
  "sp_Scale (awsScalingProvider E C svc) = Scale E C svc"
  by (simp_all add: awsScalingProvider_def)

text \<open>
  A provider touches the infrastructure only: it drains no node, registers no job, notifies
  nobody and writes no key but the path of the pool's state.  A safety check changes
  nothing.  Scaling changes of the pool only its state, and of the state only the failure
  count, the two timestamps and the list of eligible nodes; a success resets the failure
  count.
\<close>

fun provider_event :: "string \<Rightarrow> event \<Rightarrow> bool" where
  "provider_event p (KVPut k _) = (k = p)"
| "provider_event p (UpdateDrain _) = False"
| "provider_event p (JobRegister _) = False"
| "provider_event p (Notify _ _) = False"
| "provider_event p _ = True"

definition scale_frame :: "worker_pool \<Rightarrow> worker_pool \<Rightarrow> bool" where
  "scale_frame p p' \<longleftrightarrow> p'\<lparr>wp_State := wp_State p\<rparr> = p \<and>
     (wp_State p')\<lparr>st_LastUpdated := 0, st_FailureCount := 0, st_LastScalingEvent := 0, st_EligibleNodes := []\<rparr> =
     (wp_State p)\<lparr>st_LastUpdated := 0, st_FailureCount := 0, st_LastScalingEvent := 0, st_EligibleNodes := []\<rparr>"

lemma scale_frame_refl [simp]: "scale_frame p p"
  by (simp add: scale_frame_def)

lemma scale_frame_trans: "scale_frame p q \<Longrightarrow> scale_frame q r \<Longrightarrow> scale_frame p r"
  by (cases p, cases q, cases r) (simp add: scale_frame_def)

lemma scale_frame_upd:
  "scale_frame p (upd_state (st_LastUpdated_update f) q) = scale_frame p q"
  "scale_frame p (upd_state (st_FailureCount_update g) q) = scale_frame p q"
  "scale_frame p (upd_state (st_LastScalingEvent_update f) q) = scale_frame p q"
  "scale_frame p (upd_state (st_EligibleNodes_update e) q) = scale_frame p q"
  by (simp_all add: scale_frame_def)

lemma scale_frame_sel:
  assumes "scale_frame p p'"
  shows "wp_Name p' = wp_Name p" and "wp_RetryThreshold p' = wp_RetryThreshold p"
    and "wp_Nodes p' = wp_Nodes p" and "wp_Region p' = wp_Region p"
    and "wp_ScalingProvider p' = wp_ScalingProvider p" and "wp_ProtectedNode p' = wp_ProtectedNode p"
    and "st_StatePath (wp_State p') = st_StatePath (wp_State p)"
    and "st_ScalingDirection (wp_State p') = st_ScalingDirection (wp_State p)"
    and "st_FailsafeMode (wp_State p') = st_FailsafeMode (wp_State p)"
    and "st_ScaleInRequests (wp_State p') = st_ScaleInRequests (wp_State p)"
    and "st_ScaleOutRequests (wp_State p') = st_ScaleOutRequests (wp_State p)"
  using assms by (cases p, cases p', cases "wp_State p", cases "wp_State p'", simp add: scale_frame_def)+

locale scaling_provider =
  fixes P :: scaling_provider
  assumes safety_quiet: "obeys quiet (sp_SafetyCheck P pool) (\<lambda>_. True)"
    and scale: "obeys (provider_event (st_StatePath (wp_State pool))) (sp_Scale P pool)
      (\<lambda>(pool', err). scale_frame pool pool' \<and>
         (err = None \<and> st_ScalingDirection (wp_State pool) \<in> {ScalingDirectionOut, ScalingDirectionIn} \<longrightarrow>
            st_FailureCount (wp_State pool') = 0))"
    and scale_idle: "st_ScalingDirection (wp_State pool) \<notin> {ScalingDirectionOut, ScalingDirectionIn} \<Longrightarrow>
      sp_Scale P pool = ret (pool, None)"

section \<open>The calls of the AWS provider\<close>

lemma describeScalingGroup_obeys:
  "obeys (\<lambda>e. e = DescribeASG svc n) (describeScalingGroup E svc n)
     (\<lambda>(gs, err). (\<exists>g. gs = [g]) \<and> (\<exists>h. en_describe_asg E h svc n = (gs, err)))"
  unfolding describeScalingGroup_def describe_asg_def
  by (rule obeys_bnd [where R = "\<lambda>x. \<exists>h. x = en_describe_asg E h svc n"])
    (auto intro!: obeys_intro simp: length_Suc_conv split: prod.splits)

lemma describe_reading: "obeys reading (describeScalingGroup E svc n) (\<lambda>_. True)"
  by (rule obeys_weaken [OF describeScalingGroup_obeys]) auto

lemma getMostRecentInstance_reading: "obeys reading (getMostRecentInstance E n r) (\<lambda>_. True)"
  unfolding getMostRecentInstance_def api_defs
  by (intro obeys_bnd_any obeys_intro obeys_poll [where I = "\<lambda>_. True"]) (auto split: sum.splits)

lemma checkClusterScalingResult_reading: "obeys reading (checkClusterScalingResult E svc a) (\<lambda>_. True)"
  unfolding checkClusterScalingResult_def api_defs
  by (intro obeys_bnd_any obeys_intro obeys_poll [where I = "\<lambda>_. True"]) (auto split: sum.splits)

lemma verifyAsgUpdate_reading: "obeys reading (verifyAsgUpdate E svc n c) (\<lambda>_. True)"
  unfolding verifyAsgUpdate_def ticks_def
  by (intro obeys_bnd_any obeys_intro obeys_poll [where I = "\<lambda>_. True"] describe_reading) (auto split: sum.splits)

lemma translateIptoID_reading: "obeys reading (translateIptoID E ip r) (\<lambda>_. True)"
  unfolding translateIptoID_def api_defs by (intro obeys_bnd_any obeys_intro) auto

lemma FindNodeByAddress_reading: "obeys reading (FindNodeByAddress E p ip) (\<lambda>_. True)"
  by (rule obeys_weaken [OF FindNodeByAddress_obeys]) auto

lemma terminateInstance_obeys:
  "obeys (\<lambda>e. reading e \<or> e = TerminateInstances i r) (terminateInstance E i r) (\<lambda>_. True)"
  unfolding terminateInstance_def api_defs
  by (intro obeys_bnd_any obeys_intro obeys_poll [where I = "\<lambda>_. True"]) (auto split: sum.splits)

lemma detachInstance_obeys:
  "obeys (\<lambda>e. reading e \<or> e = DetachInstances svc n i) (detachInstance E svc n i) (\<lambda>_. True)"
  unfolding detachInstance_def api_defs
  by (intro obeys_bnd_any obeys_intro obeys_weaken [OF checkClusterScalingResult_reading]) auto

lemma scaleOut_obeys:
  "obeys (\<lambda>e. reading e \<or> (\<exists>c. e = UpdateASG svc (wp_Name p) c)) (scaleOut E svc p) (\<lambda>_. True)"
  unfolding scaleOut_def update_asg_def
  by (intro obeys_bnd_any obeys_intro obeys_weaken [OF describe_reading] obeys_weaken [OF verifyAsgUpdate_reading]) auto

lemma failedEventCleanup_obeys:
  "obeys (\<lambda>e. reading e \<or> (\<exists>i. e = TerminateInstances i (wp_Region p) \<or> e = DetachInstances svc (wp_Name p) i))
     (failedEventCleanup E svc ip p) (\<lambda>_. True)"
  unfolding failedEventCleanup_def
  by (intro obeys_bnd_any obeys_intro obeys_weaken [OF translateIptoID_reading] obeys_weaken [OF detachInstance_obeys]
      obeys_weaken [OF terminateInstance_obeys]) auto

lemma reading_provider: "reading e \<Longrightarrow> provider_event p e"
  by (cases e) auto

lemma scale_frame_persisted:
  "same_but_updated (wp_State p) s' \<Longrightarrow> scale_frame p (p\<lparr>wp_State := s'\<rparr>)"
  by (cases p, cases s', cases "wp_State p") (simp add: scale_frame_def same_but_updated_def)

lemma SafetyCheck_reading: "obeys reading (SafetyCheck E svc p) (\<lambda>_. True)"
  unfolding SafetyCheck_def Let_def by (intro obeys_bnd_any obeys_intro describe_reading) auto

context state_store
begin

lemma persist_pool_obeys:
  assumes "st_StatePath (wp_State p) = k"
  shows "obeys (provider_event k) (persist_pool C p)
     (\<lambda>p'. scale_frame p p' \<and> st_FailureCount (wp_State p') = st_FailureCount (wp_State p) \<and>
        same_but_updated (wp_State p) (wp_State p'))"
proof -
  have w: "writes_at (st_StatePath (wp_State p)) e \<Longrightarrow> provider_event k e" for e
    using assms by (cases e) auto
  show ?thesis unfolding persist_pool_def
  proof (rule obeys_bnd [OF obeys_weaken [OF persist w]], assumption)
    fix x assume "case x of (s', e) \<Rightarrow> same_but_updated (wp_State p) s'"
    then show "obeys (provider_event k) (case x of (s, err) \<Rightarrow> ret (p\<lparr>wp_State := s\<rparr>))
     (\<lambda>p'. scale_frame p p' \<and> st_FailureCount (wp_State p') = st_FailureCount (wp_State p) \<and>
        same_but_updated (wp_State p) (wp_State p'))"
      by (auto intro!: obeys_ret scale_frame_persisted dest: same_but_updated_sel split: prod.splits)
  qed auto
qed

lemma persist_pool_quiet: "obeys quiet (persist_pool C p) (\<lambda>_. True)"
  unfolding persist_pool_def
  by (intro obeys_bnd_any obeys_prod obeys_ret obeys_weaken [OF persist_quiet]) auto

lemma bump_persist_obeys:
  assumes "scale_frame q p"
  shows "obeys (provider_event (st_StatePath (wp_State q))) (persist_pool C (bump_failures p))
     (\<lambda>p'. scale_frame q p' \<and> st_FailureCount (wp_State p') = i64 (st_FailureCount (wp_State p) + 1))"
proof -
  have "scale_frame q (bump_failures p)" using assms by (simp add: scale_frame_upd)
  with scale_frame_sel(7) [OF assms] show ?thesis
    by (intro obeys_post [OF persist_pool_obeys]) (auto intro: scale_frame_trans)
qed

lemma verify_attempt_obeys:
  "obeys (provider_event (st_StatePath (wp_State p))) (verify_attempt E C svc p)
     (\<lambda>r. case r of
        Inl p' \<Rightarrow> scale_frame p p' \<and> st_FailureCount (wp_State p') = 0
      | Inr p' \<Rightarrow> scale_frame p p' \<and> st_FailureCount (wp_State p') = i64 (st_FailureCount (wp_State p) + 1))"
proof -
  let ?k = "st_StatePath (wp_State p)"
  have A: "obeys (provider_event ?k) (getMostRecentInstance E n r) (\<lambda>_. True)" for n r
    by (rule obeys_weaken [OF getMostRecentInstance_reading]) (auto dest: reading_provider)
  have B: "obeys (provider_event ?k) (FindNodeByAddress E n ip) (\<lambda>_. True)" for n ip
    by (rule obeys_weaken [OF FindNodeByAddress_reading]) (auto dest: reading_provider)
  have D: "obeys (provider_event ?k) (failedEventCleanup E svc ip q) (\<lambda>_. True)" for ip q
    by (rule obeys_weaken [OF failedEventCleanup_obeys]) (auto dest: reading_provider)
  have R: "obeys (provider_event ?k)
      (persist_pool C (upd_state (\<lambda>s. s\<lparr>st_FailureCount := 0, st_LastScalingEvent := t\<rparr>) p))
      (\<lambda>p'. scale_frame p p' \<and> st_FailureCount (wp_State p') = 0)" for t
  proof -
    have "scale_frame p (upd_state (\<lambda>s. s\<lparr>st_FailureCount := 0, st_LastScalingEvent := t\<rparr>) p)"
      by (simp add: scale_frame_def)
    then show ?thesis by (intro obeys_post [OF persist_pool_obeys]) (auto intro: scale_frame_trans)
  qed
  show ?thesis
    unfolding verify_attempt_def time_Now_def
    by (intro obeys_bnd_any [OF A] obeys_bnd_any [OF B] obeys_bnd_any [OF D] obeys_bnd_any [OF obeys_call]
        obeys_bnd [OF R] obeys_bnd [OF bump_persist_obeys [OF scale_frame_refl]] obeys_sum obeys_if obeys_ret)
      auto
qed

lemma verify_loop_obeys:
  "scale_frame q p \<Longrightarrow>
   obeys (provider_event (st_StatePath (wp_State q))) (verify_loop n E C svc p)
     (\<lambda>(p', ok). scale_frame q p' \<and> (if ok then st_FailureCount (wp_State p') = 0
        else wp_RetryThreshold q < st_FailureCount (wp_State p')))"
proof (induction n arbitrary: p)
  case 0
  then show ?case by (simp add: obeys_block)
next
  case (Suc n)
  have k: "st_StatePath (wp_State p) = st_StatePath (wp_State q)" and r: "wp_RetryThreshold p = wp_RetryThreshold q"
    using scale_frame_sel [OF Suc.prems] by auto
  show ?case unfolding verify_loop.simps
    by (intro obeys_if obeys_bnd [OF verify_attempt_obeys [of p, unfolded k]] obeys_sum Suc.IH obeys_ret)
      (use Suc.prems r in \<open>auto intro: scale_frame_trans\<close>)
qed

text \<open>The fuel is enough: more of it changes nothing.\<close>

lemma verify_loop_fuel:
  assumes "in64 (st_FailureCount (wp_State p))" and "wp_RetryThreshold p < 2 ^ 63 - 1"
    and "nat (wp_RetryThreshold p - st_FailureCount (wp_State p) + 1) < n"
  shows "verify_loop (n + m) E C svc p = verify_loop n E C svc p"
  using assms
proof (induction n arbitrary: p)
  case (Suc n)
  show ?case
  proof (cases "st_FailureCount (wp_State p) \<le> wp_RetryThreshold p")
    case True
    with Suc.prems have c: "i64 (st_FailureCount (wp_State p) + 1) = st_FailureCount (wp_State p) + 1"
      by (intro i64_id) linarith
    have "bnd (verify_attempt E C svc p)
        (\<lambda>r. case r of Inl pool \<Rightarrow> ret (pool, True) | Inr pool \<Rightarrow> verify_loop (n + m) E C svc pool) =
      bnd (verify_attempt E C svc p)
        (\<lambda>r. case r of Inl pool \<Rightarrow> ret (pool, True) | Inr pool \<Rightarrow> verify_loop n E C svc pool)"
    proof (rule bnd_cong_obeys [OF verify_attempt_obeys])
      fix r :: "worker_pool + worker_pool"
      assume r: "case r of Inl p' \<Rightarrow> scale_frame p p' \<and> st_FailureCount (wp_State p') = 0
        | Inr p' \<Rightarrow> scale_frame p p' \<and> st_FailureCount (wp_State p') = i64 (st_FailureCount (wp_State p) + 1)"
      show "(case r of Inl pool \<Rightarrow> ret (pool, True) | Inr pool \<Rightarrow> verify_loop (n + m) E C svc pool) =
        (case r of Inl pool \<Rightarrow> ret (pool, True) | Inr pool \<Rightarrow> verify_loop n E C svc pool)"
      proof (cases r)
        case (Inr p')
        with r c have p': "st_FailureCount (wp_State p') = st_FailureCount (wp_State p) + 1"
          "wp_RetryThreshold p' = wp_RetryThreshold p" by (auto dest: scale_frame_sel)
        have "verify_loop (n + m) E C svc p' = verify_loop n E C svc p'"
          by (rule Suc.IH) (use Suc.prems True p' in auto)
        with Inr show ?thesis by simp
      qed simp
    qed
    with True show ?thesis by simp
  qed simp
qed simp

lemma scaleIn_obeys:
  "obeys (provider_event (st_StatePath (wp_State p))) (scaleIn E C svc p)
     (\<lambda>(p', err). scale_frame p p' \<and> (err = None \<longrightarrow> st_FailureCount (wp_State p') = 0))"
proof -
  let ?k = "st_StatePath (wp_State p)"
  have A: "obeys (provider_event ?k) (translateIptoID E n r) (\<lambda>_. True)" for n r
    by (rule obeys_weaken [OF translateIptoID_reading]) (auto dest: reading_provider)
  have B: "obeys (provider_event ?k) (checkClusterScalingResult E svc a) (\<lambda>_. True)" for a
    by (rule obeys_weaken [OF checkClusterScalingResult_reading]) (auto dest: reading_provider)
  have D: "obeys (provider_event ?k) (terminateInstance E i r) (\<lambda>_. True)" for i r
    by (rule obeys_weaken [OF terminateInstance_obeys]) (auto dest: reading_provider)
  have R: "obeys (provider_event ?k)
      (persist_pool C (upd_state (\<lambda>s. s\<lparr>st_LastScalingEvent := t, st_FailureCount := 0\<rparr>)
         (upd_state (\<lambda>s. s\<lparr>st_EligibleNodes := butlast (st_EligibleNodes s)\<rparr>) p)))
      (\<lambda>p'. scale_frame p p' \<and> st_FailureCount (wp_State p') = 0)" for t
  proof -
    have "scale_frame p (upd_state (\<lambda>s. s\<lparr>st_LastScalingEvent := t, st_FailureCount := 0\<rparr>)
         (upd_state (\<lambda>s. s\<lparr>st_EligibleNodes := butlast (st_EligibleNodes s)\<rparr>) p))"
      by (simp add: scale_frame_def)
    then show ?thesis by (intro obeys_post [OF persist_pool_obeys]) (auto intro: scale_frame_trans)
  qed
  have F: "scale_frame p (upd_state (\<lambda>s. s\<lparr>st_EligibleNodes := butlast (st_EligibleNodes s)\<rparr>) p)"
    by (simp add: scale_frame_def)
  show ?thesis
    unfolding scaleIn_def detach_instances_def time_Now_def Let_def
    by (intro obeys_list obeys_sum obeys_option obeys_if obeys_bnd_any [OF A] obeys_bnd_any [OF D]
        obeys_bnd_any [OF obeys_call] obeys_bnd [OF R] obeys_bnd_any [OF obeys_sum] B obeys_ret obeys_panic)
      (use F in auto)
qed

lemma Scale_obeys:
  "obeys (provider_event (st_StatePath (wp_State p))) (Scale E C svc p)
     (\<lambda>(p', err). scale_frame p p' \<and>
        (err = None \<and> st_ScalingDirection (wp_State p) \<in> {ScalingDirectionOut, ScalingDirectionIn} \<longrightarrow>
           st_FailureCount (wp_State p') = 0))"
proof -
  have A: "obeys (provider_event (st_StatePath (wp_State p))) (scaleOut E svc p) (\<lambda>_. True)"
    by (rule obeys_weaken [OF scaleOut_obeys]) (auto dest: reading_provider)
  show ?thesis
    unfolding Scale_def verifyScaledNode_def
    by (intro obeys_if obeys_option obeys_bnd_any [OF A] obeys_bnd [OF verify_loop_obeys [OF scale_frame_refl]]
        obeys_prod obeys_ret obeys_post [OF scaleIn_obeys]) auto
qed

lemma aws_implements: "scaling_provider (awsScalingProvider E C svc)"
proof
  show "obeys quiet (sp_SafetyCheck (awsScalingProvider E C svc) pool) (\<lambda>_. True)" for pool
    using obeys_weaken [OF SafetyCheck_reading reading_quiet] by simp
  show "obeys (provider_event (st_StatePath (wp_State pool))) (sp_Scale (awsScalingProvider E C svc) pool)
      (\<lambda>(pool', err). scale_frame pool pool' \<and>
         (err = None \<and> st_ScalingDirection (wp_State pool) \<in> {ScalingDirectionOut, ScalingDirectionIn} \<longrightarrow>
            st_FailureCount (wp_State pool') = 0))" for pool
    using Scale_obeys by simp
  show "sp_Scale (awsScalingProvider E C svc) pool = ret (pool, None)"
    if "st_ScalingDirection (wp_State pool) \<notin> {ScalingDirectionOut, ScalingDirectionIn}" for pool
    using that by (simp add: Scale_def)
qed

end

interpretation aws: scaling_provider "awsScalingProvider E (consulClient E) svc" for E svc
  by (rule consul.aws_implements)

section \<open>Properties\<close>

text \<open>
  C18: the safety check lets a scaling operation through exactly when the one autoscaling
  group of the pool was read without error, as many healthy nodes are registered as the
  group desires, and one instance less (for scale-in) or more (for scale-out) stays within
  the group's bounds.
\<close>

theorem safety_check_iff:
  assumes "\<forall>g \<in> set (fst (en_describe_asg E h svc (wp_Name p))). in64 (ag_DesiredCapacity g - 1) \<and> in64 (ag_DesiredCapacity g + 1)"
  shows "fst (SafetyCheck E svc p h) = Ret True \<longleftrightarrow>
    (\<exists>g. en_describe_asg E h svc (wp_Name p) = ([g], None) \<and> int (length (wp_Nodes p)) = ag_DesiredCapacity g \<and>
      (st_ScalingDirection (wp_State p) = ScalingDirectionIn \<longrightarrow> ag_MinSize g \<le> ag_DesiredCapacity g - 1) \<and>
      (st_ScalingDirection (wp_State p) = ScalingDirectionOut \<longrightarrow> ag_DesiredCapacity g + 1 \<le> ag_MaxSize g))"
proof -
  obtain gs err where r: "en_describe_asg E h svc (wp_Name p) = (gs, err)" by fastforce
  show ?thesis
  proof (cases "length gs = 1")
    case False
    then have "\<nexists>g. gs = [g]" by auto
    with r False show ?thesis by (simp add: SafetyCheck_def describeScalingGroup_def go_simps)
  next
    case True
    then obtain g where g: "gs = [g]" by (auto simp: length_Suc_conv)
    with assms r have "i64 (ag_DesiredCapacity g - 1) = ag_DesiredCapacity g - 1"
      and "i64 (ag_DesiredCapacity g + 1) = ag_DesiredCapacity g + 1" by (auto intro!: i64_id)
    with r g show ?thesis
      by (cases err) (auto simp: SafetyCheck_def describeScalingGroup_def go_simps Let_def)
  qed
qed

definition demo_asg :: asg where
  "demo_asg = \<lparr>ag_DesiredCapacity = 2, ag_MinSize = 1, ag_MaxSize = 4, ag_Instances = [''i-1'', ''i-2'', ''i-3'']\<rparr>"

definition demo_instance :: instance_info where
  "demo_instance = \<lparr>ii_ID = ''i-3'', ii_PrivateIP = ''10.0.0.2'', ii_LaunchTime = 63650000000 * Second\<rparr>"

definition aws_env :: env where
  "aws_env = ref_env\<lparr>
     en_registry := (\<lambda>_. NewNodeRegistry\<lparr>nr_WorkerPools := [(''pool'', demo_pool)]\<rparr>),
     en_describe_asg := (\<lambda>_ _ _. ([demo_asg], None)),
     en_detach := (\<lambda>_ _ _ _. Inr [\<lparr>ac_ID = ''a'', ac_StatusCode = ''InProgress''\<rparr>]),
     en_activities := (\<lambda>_ _ _. Inr [\<lparr>ac_ID = ''a'', ac_StatusCode = ''Successful''\<rparr>]),
     en_instances_asg := (\<lambda>_ _. Inr [[demo_instance]]),
     en_instances_ip := (\<lambda>_ _. Inr [[demo_instance]])\<rparr>"

theorem safety_check_iff_witness:
  "fst (SafetyCheck aws_env ''r'' demo_pool []) = Ret True \<longleftrightarrow> (2::int) + 1 \<le> 4"
  using safety_check_iff [of aws_env "[]" "''r''" demo_pool]
  by (simp add: aws_env_def ref_env_def demo_asg_def demo_pool_def NewWorkerPool_def)

text \<open>Stepping over a computation that changes nothing outside.\<close>

lemma obeys_step:
  assumes "obeys quiet m Q"
  obtains r h' where "m h = (r, h')" and "filter mutating h' = filter mutating h" and "\<And>a. r = Ret a \<Longrightarrow> Q a"
  using obeys_filter [OF assms, of h] obeys_result [OF assms, of h] by (cases "m h") auto

lemma reading_step:
  assumes "obeys reading m Q"
  obtains r h' where "m h = (r, h')" and "filter mutating h' = filter mutating h" and "\<And>a. r = Ret a \<Longrightarrow> Q a"
  using obeys_step [OF obeys_weaken [OF assms reading_quiet]] by blast

lemma verifyAsgUpdate_result:
  "obeys reading (verifyAsgUpdate E svc n c) (\<lambda>err. err = None \<longrightarrow>
     (\<exists>g h. en_describe_asg E h svc n = ([g], None) \<and> int (length (ag_Instances g)) = c))"
proof -
  have D: "obeys reading (describeScalingGroup E svc n)
     (\<lambda>(gs, err). (\<exists>g. gs = [g]) \<and> (\<exists>h. en_describe_asg E h svc n = (gs, err)))"
    by (rule obeys_weaken [OF describeScalingGroup_obeys]) auto
  show ?thesis
    unfolding verifyAsgUpdate_def ticks_def
    by (intro obeys_bnd_any [OF obeys_ask] obeys_poll [where I = "\<lambda>_. True"] obeys_bnd [OF D])
      (auto intro!: obeys_intro split: prod.splits option.splits, metis)
qed

text \<open>
  C17: a scale-out raises the desired capacity of the pool's own group by exactly one, in a
  single request, and does nothing else to the infrastructure; when the group cannot be
  read it requests nothing; and it reports success only after the group was seen with as
  many instances as requested.
\<close>

theorem scale_out_exact:
  assumes "scaleOut E svc p h = (Ret err, h')"
  shows "filter mutating h' = filter mutating h @
      (case en_describe_asg E h svc (wp_Name p) of
         (g # _, None) \<Rightarrow> [UpdateASG svc (wp_Name p) (i64 (ag_DesiredCapacity g + 1))] | _ \<Rightarrow> []) \<and>
    (err = None \<longrightarrow> (\<exists>g g' h2. en_describe_asg E h svc (wp_Name p) = ([g], None) \<and>
       en_describe_asg E h2 svc (wp_Name p) = ([g'], None) \<and>
       int (length (ag_Instances g')) = i64 (ag_DesiredCapacity g + 1)))"
proof -
  obtain gs e where r: "en_describe_asg E h svc (wp_Name p) = (gs, e)" by fastforce
  from assms r obtain g where g: "gs = [g]"
    by (cases "length gs = 1") (auto simp: scaleOut_def describeScalingGroup_def go_simps length_Suc_conv)
  show ?thesis
  proof (cases e)
    case (Some x)
    with assms r g show ?thesis by (auto simp: scaleOut_def describeScalingGroup_def go_simps)
  next
    case None
    let ?c = "i64 (ag_DesiredCapacity g + 1)"
    let ?h = "h @ [DescribeASG svc (wp_Name p), UpdateASG svc (wp_Name p) ?c]"
    obtain r' h2 where v: "verifyAsgUpdate E svc (wp_Name p) ?c ?h = (r', h2)"
      "filter mutating h2 = filter mutating ?h"
      "\<And>a. r' = Ret a \<Longrightarrow> a = None \<longrightarrow> (\<exists>g h. en_describe_asg E h svc (wp_Name p) = ([g], None) \<and>
         int (length (ag_Instances g)) = ?c)"
      using reading_step [OF verifyAsgUpdate_result] by blast
    from assms r g None v show ?thesis
      by (auto simp: scaleOut_def describeScalingGroup_def go_simps Let_def split: option.splits)
  qed
qed

theorem scale_out_exact_witness:
  "\<exists>h'. scaleOut aws_env ''r'' demo_pool [] = (Ret None, h') \<and>
     filter mutating h' = [UpdateASG ''r'' ''pool'' 3]"
proof -
  obtain h' where r: "scaleOut aws_env ''r'' demo_pool [] = (Ret None, h')"
    by (simp add: scaleOut_def describeScalingGroup_def verifyAsgUpdate_def go_simps aws_env_def ref_env_def
        demo_asg_def Let_def numeral_2_eq_2)
  from scale_out_exact [OF r] r show ?thesis
    by (simp add: aws_env_def demo_asg_def demo_pool_def)
qed

text \<open>A scale-in touches the outside twice: the detachment of an instance, and its termination.\<close>

definition scale_in_trace :: "string \<Rightarrow> worker_pool \<Rightarrow> string \<Rightarrow> event list" where
  "scale_in_trace svc p i = [DetachInstances svc (wp_Name p) i, TerminateInstances i (wp_Region p)]"

lemma terminate_step:
  obtains r h' where "terminateInstance E i reg h = (r, h')"
    and "filter mutating h' = filter mutating h @ [TerminateInstances i reg]"
proof -
  define k where "k = (\<lambda>err. case err of
       Some e \<Rightarrow> ret (Some e)
     | None \<Rightarrow>
         bnd (ticks E) (\<lambda>n.
         poll n
           (\<lambda>_. bnd (instance_status E i reg) (\<lambda>resp.
              case resp of
                Inl e \<Rightarrow> ret (Inl (Some e))
              | Inr [] \<Rightarrow> panic
              | Inr (st # _) \<Rightarrow> ret (if st = ''terminated'' then Inl None else Inr ())))
           (\<lambda>_. ret (Some (Errorf ''timeout reached while attempting to confirm the termination of instance'' None))) ()))"
  have k: "obeys reading (k err) (\<lambda>_. True)" for err
    unfolding k_def api_defs
    by (intro obeys_bnd_any obeys_intro obeys_poll [where I = "\<lambda>_. True"]) (auto split: sum.splits)
  have "terminateInstance E i reg h = k (en_terminate E h i) (h @ [TerminateInstances i reg])"
    by (simp add: terminateInstance_def terminate_instances_def bnd_call k_def)
  moreover obtain r h' where "k (en_terminate E h i) (h @ [TerminateInstances i reg]) = (r, h')"
    "filter mutating h' = filter mutating (h @ [TerminateInstances i reg])"
    by (rule reading_step [OF k])
  ultimately show thesis by (intro that) auto
qed

text \<open>The parts of \<open>scaleIn\<close> before and after the detachment, as computations of their own.\<close>

definition await_detach :: "env \<Rightarrow> string \<Rightarrow> activity list result \<Rightarrow> go_error option act" where
  "await_detach E svc resp =
     (case resp of
        Inl e \<Rightarrow> ret None
      | Inr [] \<Rightarrow> panic
      | Inr (a # _) \<Rightarrow>
          (if ac_StatusCode a \<noteq> ''Successful'' then checkClusterScalingResult E svc (ac_ID a) else ret None))"

definition finish_scale_in ::
  "env \<Rightarrow> consul_client \<Rightarrow> string \<Rightarrow> worker_pool \<Rightarrow> go_error option \<Rightarrow> (worker_pool \<times> go_error option) act" where
  "finish_scale_in E C i pool err =
     (case err of
        Some e \<Rightarrow> ret (pool, Some (Errorf ''an error occurred while attempting to terminate instance'' None))
      | None \<Rightarrow>
          bnd (time_Now E) (\<lambda>t.
          bnd (persist_pool C (upd_state (\<lambda>s. s\<lparr>st_LastScalingEvent := t, st_FailureCount := 0\<rparr>) pool)) (\<lambda>pool'.
          ret (pool', None))))"

lemma await_detach_reading: "obeys reading (await_detach E svc resp) (\<lambda>_. True)"
  unfolding await_detach_def by (intro obeys_intro checkClusterScalingResult_reading) auto

lemma finish_scale_in_quiet:
  "obeys quiet (finish_scale_in E (consulClient E) i pool err) (\<lambda>(p', e). e = None \<longrightarrow> err = None)"
proof -
  note P = consul.persist_pool_quiet
  show ?thesis unfolding finish_scale_in_def time_Now_def
    by (intro obeys_option obeys_ret obeys_bnd_any [OF obeys_call] obeys_bnd_any [OF P]) auto
qed

lemma scaleIn_parts:
  assumes "st_EligibleNodes (wp_State p) = ip # rest"
  defines "q \<equiv> upd_state (\<lambda>s. s\<lparr>st_EligibleNodes := butlast (st_EligibleNodes s)\<rparr>) p"
  shows "scaleIn E C svc p =
    bnd (translateIptoID E ip (wp_Region p)) (\<lambda>i.
    bnd (detach_instances E svc (wp_Name p) i) (\<lambda>resp.
    bnd (await_detach E svc resp) (\<lambda>err.
    case err of Some e \<Rightarrow> ret (q, Some e)
    | None \<Rightarrow> bnd (terminateInstance E i (wp_Region p)) (finish_scale_in E C i q))))"
  unfolding scaleIn_def assms(1) list.case Let_def await_detach_def finish_scale_in_def [abs_def] q_def
  by (simp del: butlast.simps cong: bnd_cong option.case_cong)

text \<open>
  C10: a scale-in that succeeds detaches one instance from the pool's group and then
  terminates that same instance, in this order, and nothing else; and whatever its outcome
  it never terminates an instance it did not try to detach before.
\<close>

theorem scale_in_exact:
  "\<exists>i n. filter mutating (snd (scaleIn E (consulClient E) svc p h)) =
      filter mutating h @ take n (scale_in_trace svc p i) \<and>
     (\<forall>p'. fst (scaleIn E (consulClient E) svc p h) = Ret (p', None) \<longrightarrow> n = 2)"
proof (cases "st_EligibleNodes (wp_State p)")
  case Nil
  then show ?thesis by (intro exI [of _ 0] exI [of _ "[]"]) (simp add: scaleIn_def ret_app)
next
  case (Cons ip rest)
  note parts = scaleIn_parts [OF Cons, of E "consulClient E" svc]
  obtain r1 h1 where t: "translateIptoID E ip (wp_Region p) h = (r1, h1)" "filter mutating h1 = filter mutating h"
    by (rule reading_step [OF translateIptoID_reading])
  show ?thesis
  proof (cases r1)
    case (Ret i)
    define h2 where "h2 = h1 @ [DetachInstances svc (wp_Name p) i]"
    obtain r3 h3 where d: "await_detach E svc (en_detach E h1 svc (wp_Name p) i) h2 = (r3, h3)"
      "filter mutating h3 = filter mutating h2" by (rule reading_step [OF await_detach_reading])
    obtain r4 h4 where k: "terminateInstance E i (wp_Region p) h3 = (r4, h4)"
      "filter mutating h4 = filter mutating h3 @ [TerminateInstances i (wp_Region p)]" by (rule terminate_step)
    let ?q = "upd_state (\<lambda>s. s\<lparr>st_EligibleNodes := butlast (st_EligibleNodes s)\<rparr>) p"
    have f: "\<exists>r5 h5. finish_scale_in E (consulClient E) i ?q e h4 = (r5, h5) \<and> filter mutating h5 = filter mutating h4" for e
      by (rule obeys_step [OF finish_scale_in_quiet]) auto
    have [simp]: "filter mutating h2 = filter mutating h @ [DetachInstances svc (wp_Name p) i]"
      using t by (simp add: h2_def)
    have "\<exists>n. filter mutating (snd (scaleIn E (consulClient E) svc p h)) =
      filter mutating h @ take n (scale_in_trace svc p i) \<and>
     (\<forall>p'. fst (scaleIn E (consulClient E) svc p h) = Ret (p', None) \<longrightarrow> n = 2)"
    proof (cases "\<exists>e. r3 = Ret None \<and> r4 = Ret e")
      case True
      then obtain e where e: "r3 = Ret None" "r4 = Ret e" by auto
      obtain r5 h5 where "finish_scale_in E (consulClient E) i ?q e h4 = (r5, h5)" "filter mutating h5 = filter mutating h4"
        using f by blast
      with t Ret d k e show ?thesis
        by (intro exI [of _ 2]) (simp add: parts bnd_app h2_def detach_instances_def call_app scale_in_trace_def)
    next
      case False
      show ?thesis
      proof (cases "r3 = Ret None")
        case True
        with False t Ret d k show ?thesis
          by (intro exI [of _ 2], cases r4)
            (simp_all add: parts bnd_app h2_def detach_instances_def call_app scale_in_trace_def)
      next
        case no: False
        with t Ret d show ?thesis
          by (intro exI [of _ 1], cases r3)
            (auto simp: parts bnd_app h2_def detach_instances_def call_app scale_in_trace_def ret_app split: option.split)
      qed
    qed
    then show ?thesis by blast
  qed (use t in \<open>auto simp: parts bnd_app intro!: exI [of _ 0]\<close>)
qed

theorem scale_in_exact_witness:
  "\<exists>p' i h'. scaleIn aws_env (consulClient aws_env) ''r'' demo_pool [] = (Ret (p', None), h') \<and>
     filter mutating h' = scale_in_trace ''r'' demo_pool i"
proof -
  obtain p' h' where r: "scaleIn aws_env (consulClient aws_env) ''r'' demo_pool [] = (Ret (p', None), h')"
    by (simp add: scaleIn_def translateIptoID_def checkClusterScalingResult_def terminateInstance_def persist_pool_def
        PersistState_def marshal_state_def time_ok_def day_def Second_def empty_state_def NewWorkerPool_def
        go_simps aws_env_def ref_env_def demo_pool_def Let_def numeral_2_eq_2)
  from scale_in_exact [of aws_env "''r''" demo_pool "[]"] r show ?thesis
    by (auto simp: scale_in_trace_def)
qed

section \<open>The retries end\<close>

text \<open>
  What the loop relies on to make progress at all: the registry's lock is not held for
  ever and the pool stays registered, and the AWS answers that report success are not
  empty.
\<close>

definition aws_responsive :: "env \<Rightarrow> string \<Rightarrow> bool" where
  "aws_responsive E pool \<longleftrightarrow>
     (\<forall>h. \<not> lk_Writer (nr_Lock (en_registry E h)) \<and> has_key (nr_WorkerPools (en_registry E h)) pool) \<and>
     (\<forall>h ip rs. en_instances_ip E h ip = Inr rs \<longrightarrow> rs \<noteq> [] \<and> hd rs \<noteq> []) \<and>
     (\<forall>h svc n i. en_detach E h svc n i \<noteq> Inr []) \<and> (\<forall>h svc a. en_activities E h svc a \<noteq> Inr []) \<and>
     (\<forall>h i. en_instance_status E h i \<noteq> Inr [])"

lemma returns_call_bnd: "(\<And>h. returns (g (f h))) \<Longrightarrow> returns (bnd (call e f) g)"
  by (simp add: returns_def bnd_call)

lemma returns_ask_bnd: "(\<And>h. returns (g (f h))) \<Longrightarrow> returns (bnd (ask f) g)"
  by (simp add: returns_def bnd_ask)

lemma aws_returns:
  assumes "aws_responsive E pool"
  shows FindNodeByAddress_returns: "returns (FindNodeByAddress E pool ip)"
    and translateIptoID_returns: "returns (translateIptoID E ip region)"
    and terminateInstance_returns: "returns (terminateInstance E i region)"
    and detachInstance_returns: "returns (detachInstance E svc n i)"
    and getMostRecentInstance_returns: "returns (getMostRecentInstance E n region)"
proof -
  have reg: "\<not> lk_Writer (nr_Lock (en_registry E h))" "\<exists>p. map_of (nr_WorkerPools (en_registry E h)) pool = Some p" for h
    using assms by (auto simp: aws_responsive_def)
  have P: "returns (pool_in_registry E pool)"
    unfolding pool_in_registry_def view_registry_def
  proof (rule returns_ask_bnd)
    fix h
    obtain p where "map_of (nr_WorkerPools (en_registry E h)) pool = Some p" using reg(2) by blast
    with reg(1) [of h] show "returns (if lk_Writer (nr_Lock (en_registry E h)) then block
        else case map_of (nr_WorkerPools (en_registry E h)) pool of None \<Rightarrow> panic | Some pool \<Rightarrow> ret pool)"
      by (simp add: returns_ret)
  qed
  show "returns (FindNodeByAddress E pool ip)"
    unfolding FindNodeByAddress_def ticks_def by (intro returns_intro returns_poll P)
  show "returns (translateIptoID E ip region)"
    unfolding translateIptoID_def describe_instances_ip_def
    by (rule returns_call_bnd)
      (use assms in \<open>fastforce simp: aws_responsive_def intro!: returns_ret split: sum.splits list.splits\<close>)
  show "returns (terminateInstance E i region)"
    unfolding terminateInstance_def terminate_instances_def ticks_def instance_status_def
    by (intro returns_intro returns_poll returns_call_bnd)
      (use assms in \<open>auto simp: aws_responsive_def intro!: returns_ret split: sum.splits list.splits\<close>)
  have K: "returns (checkClusterScalingResult E svc a)" for a
    unfolding checkClusterScalingResult_def ticks_def describe_activities_def
    by (intro returns_intro returns_poll returns_call_bnd)
      (use assms in \<open>auto simp: aws_responsive_def intro!: returns_ret split: sum.splits list.splits\<close>)
  show "returns (detachInstance E svc n i)"
    unfolding detachInstance_def detach_instances_def
    by (rule returns_call_bnd)
      (use assms in \<open>auto simp: aws_responsive_def intro!: returns_ret K split: sum.splits list.splits\<close>)
  show "returns (getMostRecentInstance E n region)"
    unfolding getMostRecentInstance_def api_defs Let_def by (intro returns_intro returns_poll)
qed

lemma verify_attempt_returns:
  assumes "aws_responsive E (wp_Name p)"
  shows "returns (verify_attempt E (consulClient E) svc p)"
  unfolding verify_attempt_def failedEventCleanup_def persist_pool_def time_Now_def
  by (intro returns_intro aws_returns [OF assms] consul.persist_returns)

lemma verify_loop_returns:
  assumes "aws_responsive E (wp_Name p)" and "in64 (st_FailureCount (wp_State p))"
    and "wp_RetryThreshold p < 2 ^ 63 - 1" and "nat (wp_RetryThreshold p - st_FailureCount (wp_State p) + 1) < n"
  shows "returns (verify_loop n E (consulClient E) svc p)"
  using assms
proof (induction n arbitrary: p)
  case (Suc n)
  show ?case
  proof (cases "st_FailureCount (wp_State p) \<le> wp_RetryThreshold p")
    case True
    with Suc.prems have c: "i64 (st_FailureCount (wp_State p) + 1) = st_FailureCount (wp_State p) + 1"
      by (intro i64_id) linarith
    have step: "returns (verify_loop n E (consulClient E) svc p')"
      if "scale_frame p p'" "st_FailureCount (wp_State p') = i64 (st_FailureCount (wp_State p) + 1)" for p'
      by (rule Suc.IH) (use Suc.prems True c that scale_frame_sel [OF that(1)] in auto)
    show ?thesis using True unfolding verify_loop.simps
      by (simp, intro returns_bnd_obeys [OF verify_attempt_returns [OF Suc.prems(1)] consul.verify_attempt_obeys])
        (auto intro: returns_ret step split: sum.splits)
  qed (simp add: returns_ret)
qed simp

text \<open>At most one instance is touched per attempt.\<close>

lemma terminate_at_most: "at_most 1 mutating (terminateInstance E i r)"
  unfolding at_most_def
proof
  fix h
  obtain r' h' where "terminateInstance E i r h = (r', h')"
    "filter mutating h' = filter mutating h @ [TerminateInstances i r]" by (rule terminate_step)
  moreover have "snd (terminateInstance E i r h) = h @ calls (terminateInstance E i r) h"
    by (rule obeys_history [OF terminateInstance_obeys])
  ultimately have "filter mutating (calls (terminateInstance E i r) h) = [TerminateInstances i r]" by simp
  with \<open>snd _ = _\<close> show "\<exists>new. snd (terminateInstance E i r h) = h @ new \<and> length (filter mutating new) \<le> 1"
    by auto
qed

lemma reading_at_most: "obeys reading m Q \<Longrightarrow> at_most k mutating m"
  by (erule at_most_0 [OF obeys_weaken [where Q' = "\<lambda>_. True"]]) (auto dest: reading_quiet)

lemma detach_at_most: "at_most 1 mutating (detachInstance E svc n i)"
  unfolding detachInstance_def detach_instances_def
  by (rule at_most_bnd [where a = 1 and b = 0])
    (auto intro: at_most_call [of 0, simplified] reading_at_most [OF checkClusterScalingResult_reading] split: sum.splits list.splits)

lemma persist_pool_at_most: "at_most k mutating (persist_pool (consulClient E) p)"
  by (rule at_most_0 [OF consul.persist_pool_quiet])

lemma verify_attempt_at_most: "at_most 1 mutating (verify_attempt E (consulClient E) svc p)"
proof -
  have C: "at_most 1 mutating (failedEventCleanup E svc ip q)" for ip q
    unfolding failedEventCleanup_def
    by (rule at_most_bnd [where a = 0 and b = 1, OF reading_at_most [OF translateIptoID_reading]])
      (auto intro!: terminate_at_most [simplified] at_most_bnd [where a = 1 and b = 0, OF detach_at_most])
  have F: "at_most 1 mutating (bnd (persist_pool (consulClient E) q) (\<lambda>pool.
      bnd (failedEventCleanup E svc ip pool) (\<lambda>err. ret (Inr pool))))" for q ip
    by (rule at_most_bnd [where a = 0 and b = 1, OF persist_pool_at_most])
      (auto intro!: at_most_bnd [where a = 1 and b = 0, OF C])
  have P: "at_most 1 mutating (bnd (persist_pool (consulClient E) q) (\<lambda>pool. ret (f pool)))" for q f
    by (rule at_most_bnd [where a = 0 and b = 1, OF persist_pool_at_most]) auto
  have S: "at_most 1 mutating (bnd (time_Now E) (\<lambda>t. bnd (persist_pool (consulClient E) (q t)) (\<lambda>pool. ret (f pool))))" for q f
    by (rule at_most_bnd [where a = 0 and b = 1, OF reading_at_most P]) (auto intro!: obeys_call simp: time_Now_def)
  show ?thesis
    unfolding verify_attempt_def
  proof (rule at_most_bnd [where a = 0 and b = 1, OF reading_at_most [OF getMostRecentInstance_reading]])
    fix r :: "string result"
    show "at_most 1 mutating (case r of
       Inl e \<Rightarrow> bnd (persist_pool (consulClient E) (bump_failures p)) (\<lambda>pool. ret (Inr pool))
     | Inr instanceIP \<Rightarrow>
         bnd (FindNodeByAddress E (wp_Name p) instanceIP) (\<lambda>ok.
         if ok then
           bnd (time_Now E) (\<lambda>t.
           bnd (persist_pool (consulClient E) (upd_state (\<lambda>s. s\<lparr>st_FailureCount := 0, st_LastScalingEvent := t\<rparr>) p)) (\<lambda>pool.
           ret (Inl pool)))
         else
           bnd (persist_pool (consulClient E) (bump_failures p)) (\<lambda>pool.
           bnd (failedEventCleanup E svc instanceIP pool) (\<lambda>err.
           ret (Inr pool)))))"
    proof (cases r)
      case (Inl e)
      then show ?thesis using P by simp
    next
      case (Inr ip)
      show ?thesis unfolding Inr sum.case
        by (rule at_most_bnd [where a = 0 and b = 1, OF reading_at_most [OF FindNodeByAddress_reading]])
          (simp_all add: S [simplified] F [simplified])
    qed
  qed simp
qed

lemma at_most_bnd_obeys:
  assumes "at_most a M m" and "obeys P m R" and "\<And>x. R x \<Longrightarrow> at_most b M (f x)" and "a + b \<le> k"
  shows "at_most k M (bnd m f)"
proof -
  have "bnd m f = bnd m (\<lambda>x. if R x then f x else panic)"
    by (rule bnd_cong_obeys [OF assms(2)]) simp
  then show ?thesis using at_most_bnd [OF assms(1) _ assms(4), of "\<lambda>x. if R x then f x else panic"] assms(3) by simp
qed

lemma verify_loop_at_most:
  assumes "in64 (st_FailureCount (wp_State p))" and "wp_RetryThreshold p < 2 ^ 63 - 1"
  shows "at_most (nat (wp_RetryThreshold p - st_FailureCount (wp_State p) + 1)) mutating
    (verify_loop n E (consulClient E) svc p)"
  using assms
proof (induction n arbitrary: p)
  case (Suc n)
  show ?case
  proof (cases "st_FailureCount (wp_State p) \<le> wp_RetryThreshold p")
    case True
    with Suc.prems have c: "i64 (st_FailureCount (wp_State p) + 1) = st_FailureCount (wp_State p) + 1"
      by (intro i64_id) linarith
    let ?b = "nat (wp_RetryThreshold p - st_FailureCount (wp_State p))"
    have IH: "at_most ?b mutating (verify_loop n E (consulClient E) svc p')"
      if "scale_frame p p'" "st_FailureCount (wp_State p') = i64 (st_FailureCount (wp_State p) + 1)" for p'
      using Suc.IH [of p'] Suc.prems True c that(2) scale_frame_sel [OF that(1)] by auto
    have "at_most (nat (wp_RetryThreshold p - st_FailureCount (wp_State p) + 1)) mutating
      (bnd (verify_attempt E (consulClient E) svc p) (\<lambda>r.
           case r of Inl pool \<Rightarrow> ret (pool, True) | Inr pool \<Rightarrow> verify_loop n E (consulClient E) svc pool))"
      by (rule at_most_bnd_obeys [OF verify_attempt_at_most consul.verify_attempt_obeys, where b = ?b])
        (use True in \<open>auto intro: IH split: sum.splits\<close>)
    with True show ?thesis by simp
  qed simp
qed simp



text \<open>
  Reading a group panics whenever AWS does not return exactly one group, for whatever
  reason, a failed request included: the safety check and the scale-out of a pool whose
  name is not that of an autoscaling group bring the whole process down instead of
  reporting the error they build.
\<close>

theorem describe_group_panics:
  assumes "length (fst (en_describe_asg E h svc (wp_Name p))) \<noteq> 1"
  shows "fst (SafetyCheck E svc p h) = Panic \<and> fst (scaleOut E svc p h) = Panic"
  using assms
  by (cases "en_describe_asg E h svc (wp_Name p)") (simp add: SafetyCheck_def scaleOut_def describeScalingGroup_def go_simps)

theorem describe_group_panics_witness:
  "fst (SafetyCheck ref_env ''r'' demo_pool []) = Panic"
  using describe_group_panics [of ref_env "[]" "''r''" demo_pool] by (simp add: ref_env_def)

end
