(* ===== verification/Node_Registry.thy ===== *)
theory Node_Registry
  imports Aws_Provider
begin

text \<open>
  Node discovery: \<open>client/node_discovery.go\<close> and \<open>LoadPoolConfig\<close> of \<open>client/consul.go\<close>.
  The registry is the shared \<open>NodeRegistry\<close>; an operation that takes its lock proceeds when
  the lock is free and otherwise waits for a holder that, in a sequence of complete
  operations, will never release it.  \<open>decode\<close> stands for the decoder of the vendored
  package mapstructure and \<open>hash\<close>, \<open>hash_nodes\<close> for \<open>hashstructure.Hash\<close>.
\<close>

section \<open>LoadPoolConfig\<close>

fun dec_string_map :: "(string \<times> json) list \<Rightarrow> (string, string) gomap \<Rightarrow> (string, string) gomap \<times> go_error option" where
  "dec_string_map [] m = (m, None)"
| "dec_string_map ((k, v) # ms) m =
     (let (s, e) = dec_string v [];
          (m', e') = dec_string_map ms (if e = None then AList.update k s m else m)
      in (m', case e of None \<Rightarrow> e' | Some x \<Rightarrow> Some x))"

fun unmarshal_string_map :: "json \<Rightarrow> (string, string) gomap \<times> go_error option" where
  "unmarshal_string_map (JObj ms) = dec_string_map ms []"
| "unmarshal_string_map JNull = ([], None)"
| "unmarshal_string_map JInvalid = ([], Some (Errorf ''invalid character'' None))"
| "unmarshal_string_map _ = ([], Some type_error)"

definition LoadPoolConfig :: "env \<Rightarrow> string \<Rightarrow> (string, string) gomap result act" where
  "LoadPoolConfig E key =
     bnd (kv_get E key) (\<lambda>r.
     case r of
       Inl e \<Rightarrow> ret (Inl (Errorf ''unable to find or read pool configuration data'' (Some e)))
     | Inr None \<Rightarrow> ret (Inl (Errorf ''unable to find or read pool configuration data'' None))
     | Inr (Some pair) \<Rightarrow>
         (case unmarshal_string_map (kp_Value pair) of
            (_, Some e) \<Rightarrow> ret (Inl (Errorf ''failed to process pool configuration data'' (Some e)))
          | (result, None) \<Rightarrow> ret (Inr result)))"

section \<open>Node configuration\<close>

definition requiredKeys :: "string list" where
  "requiredKeys =
     [''replicator_enabled'', ''replicator_notification_uid'', ''replicator_provider'',
      ''replicator_region'', ''replicator_worker_pool'']"

type_synonym decoder = "(string, string) gomap \<Rightarrow> worker_pool \<Rightarrow> worker_pool result"

definition ProcessNodeConfig :: "env \<Rightarrow> decoder \<Rightarrow> node \<Rightarrow> config \<Rightarrow> worker_pool result act" where
  "ProcessNodeConfig E decode node config =
     (let poolName = ''replicator_worker_pool'';
          missingKeys = ParseMetaConfig (nd_Meta node) requiredKeys
      in if length missingKeys = length requiredKeys
         then ret (Inl (Errorf ''node does not contain a valid autoscaling configuration'' None))
         else
           bnd (if missingKeys \<noteq> [] \<and> \<not> StringInSlice poolName missingKeys
                then
                  bnd (LoadPoolConfig E (cf_ConsulKeyRoot config @ ''/nodes/'' @ (case map_of (nd_Meta node) poolName of Some v \<Rightarrow> v | None \<Rightarrow> []))) (\<lambda>r.
                  case r of
                    Inl e \<Rightarrow> ret (Inl (Errorf ''unable to find fallback configuration for worker pool and have insufficient node meta parameters'' (Some e)))
                  | Inr params \<Rightarrow>
                      (if ParseMetaConfig params requiredKeys \<noteq> []
                       then ret (Inl (Errorf ''the autoscaling configuration for node is missing required configuration parameters'' None))
                       else ret (Inr params)))
                else if missingKeys \<noteq> []
                then ret (Inl (Errorf ''the autoscaling configuration for node is missing required configuration parameters'' None))
                else ret (Inr (nd_Meta node))) (\<lambda>r.
           case r of
             Inl e \<Rightarrow> ret (Inl e)
           | Inr configParams \<Rightarrow> ret (decode configParams NewWorkerPool)))"

section \<open>Register and Deregister\<close>

definition under_lock :: "node_registry \<Rightarrow> 'a act \<Rightarrow> 'a act" where
  "under_lock r m = (if lk_Writer (nr_Lock r) \<or> 0 < lk_Readers (nr_Lock r) then block else m)"

definition update_pool_config :: "worker_pool \<Rightarrow> worker_pool \<Rightarrow> worker_pool" where
  "update_pool_config existingPool workerPool =
     existingPool\<lparr>wp_Region := wp_Region workerPool, wp_Cooldown := wp_Cooldown workerPool,
       wp_RetryThreshold := wp_RetryThreshold workerPool, wp_FaultTolerance := wp_FaultTolerance workerPool,
       wp_ScalingEnabled := wp_ScalingEnabled workerPool, wp_NotificationUID := wp_NotificationUID workerPool,
       wp_ScalingThreshold := wp_ScalingThreshold workerPool\<rparr>"

definition add_node :: "node \<Rightarrow> time \<Rightarrow> worker_pool \<Rightarrow> worker_pool" where
  "add_node node t pool =
     pool\<lparr>wp_NodeRegistrations := AList.update (nd_ID node) t (wp_NodeRegistrations pool),
          wp_Nodes := AList.update (nd_ID node) node (wp_Nodes pool)\<rparr>"

definition Register ::
  "env \<Rightarrow> (worker_pool \<Rightarrow> int result) \<Rightarrow> node \<Rightarrow> worker_pool \<Rightarrow> node_registry \<Rightarrow> (node_registry \<times> go_error option) act" where
  "Register E hash node workerPool nodeRegistry =
     (if nd_Status node \<noteq> NodeStatusReady then
        ret (nodeRegistry, Some (Errorf ''an attempt to register node failed because the node state was not ready'' None))
      else if nd_Drain node then
        ret (nodeRegistry, Some (Errorf ''an attempt to register node failed because the node is in drain mode'' None))
      else under_lock nodeRegistry
        (case map_of (nr_WorkerPools nodeRegistry) (wp_Name workerPool) of
           Some existingPool \<Rightarrow>
             (let (changed, err) = HasObjectChanged hash existingPool workerPool;
                  pool = (if changed then update_pool_config existingPool workerPool else existingPool);
                  pools = AList.update (wp_Name workerPool) pool (nr_WorkerPools nodeRegistry)
              in if \<not> has_key (wp_Nodes pool) (nd_ID node) \<and> wp_ScalingEnabled workerPool
                 then
                   bnd (time_Now E) (\<lambda>t.
                   ret (nodeRegistry\<lparr>
                          nr_RegisteredNodes := AList.update (nd_ID node) (wp_Name workerPool) (nr_RegisteredNodes nodeRegistry),
                          nr_WorkerPools := AList.update (wp_Name workerPool) (add_node node t pool) (nr_WorkerPools nodeRegistry)\<rparr>,
                        None))
                 else ret (nodeRegistry\<lparr>nr_WorkerPools := pools\<rparr>, None))
         | None \<Rightarrow>
             bnd (time_Now E) (\<lambda>t.
             let pool = add_node node t workerPool in
             case NewScalingProvider pool of
               Inl e \<Rightarrow> ret (nodeRegistry, Some (Errorf ''failed to initialize scaling provider for worker pool'' (Some e)))
             | Inr provider \<Rightarrow>
                 ret (nodeRegistry\<lparr>
                        nr_RegisteredNodes := AList.update (nd_ID node) (wp_Name workerPool) (nr_RegisteredNodes nodeRegistry),
                        nr_WorkerPools := AList.update (wp_Name workerPool) (pool\<lparr>wp_ScalingProvider := Some provider\<rparr>)
                          (nr_WorkerPools nodeRegistry)\<rparr>, None))))"

definition Deregister :: "string \<Rightarrow> node_registry \<Rightarrow> (node_registry \<times> go_error option) act" where
  "Deregister node nodeRegistry =
     under_lock nodeRegistry
       (case map_of (nr_RegisteredNodes nodeRegistry) node of
          None \<Rightarrow> ret (nodeRegistry, Some (Errorf ''node was not previously registered, no deregistration is required'' None))
        | Some pool \<Rightarrow>
            (case map_of (nr_WorkerPools nodeRegistry) pool of
               None \<Rightarrow> panic
             | Some workerPool0 \<Rightarrow>
                 (let workerPool = workerPool0\<lparr>wp_Nodes := AList.delete node (wp_Nodes workerPool0),
                        wp_NodeRegistrations := AList.delete node (wp_NodeRegistrations workerPool0)\<rparr>;
                      pools = AList.update pool workerPool (nr_WorkerPools nodeRegistry)
                  in ret (nodeRegistry\<lparr>
                        nr_RegisteredNodes := AList.delete node (nr_RegisteredNodes nodeRegistry),
                        nr_WorkerPools := (if wp_Nodes workerPool = [] then AList.delete (wp_Name workerPool) pools else pools)\<rparr>,
                      None))))"

definition NodeRegistryUpdated ::
  "((string, string) gomap \<Rightarrow> int result) \<Rightarrow> node_registry \<Rightarrow> (node_registry \<times> bool) act" where
  "NodeRegistryUpdated hash_nodes nodeRegistry =
     under_lock nodeRegistry
       (let nodeHash = (case hash_nodes (nr_RegisteredNodes nodeRegistry) of Inl e \<Rightarrow> 0 | Inr v \<Rightarrow> v)
        in if nr_RegisteredNodesHash nodeRegistry \<noteq> nodeHash
           then ret (nodeRegistry\<lparr>nr_RegisteredNodesHash := nodeHash\<rparr>, True)
           else ret (nodeRegistry, False))"

section \<open>NodeWatcher\<close>

text \<open>
  One node of an answer to the node list, and one iteration of the endless loop.  The
  answer to a blocking query comes with an index; \<open>waitIndex\<close> is the index of the query.
\<close>

definition watch_node ::
  "env \<Rightarrow> decoder \<Rightarrow> (worker_pool \<Rightarrow> int result) \<Rightarrow> config \<Rightarrow> node_stub \<Rightarrow> node_registry \<Rightarrow> node_registry act" where
  "watch_node E decode hash config node nodeRegistry =
     (if ns_ModifyIndex node \<le> nr_LastChangeIndex nodeRegistry then ret nodeRegistry
      else if ns_Drain node \<and> ns_Status node = NodeStatusReady then
        bnd (Deregister (ns_ID node) nodeRegistry) (\<lambda>(r, err). ret r)
      else if ns_Status node = NodeStatusReady then
        bnd (node_info E (ns_ID node)) (\<lambda>info.
        case info of
          Inl e \<Rightarrow> ret nodeRegistry
        | Inr nodeRecord \<Rightarrow>
            bnd (ProcessNodeConfig E decode nodeRecord config) (\<lambda>conf.
            case conf of
              Inl e \<Rightarrow>
                (if has_key (nr_RegisteredNodes nodeRegistry) (ns_ID node)
                 then bnd (Deregister (ns_ID node) nodeRegistry) (\<lambda>(r, err). ret r)
                 else ret nodeRegistry)
            | Inr nodeConfig \<Rightarrow>
                bnd (Register E hash nodeRecord nodeConfig nodeRegistry) (\<lambda>(r, err).
                if \<not> wp_ScalingEnabled nodeConfig
                then bnd (Deregister (ns_ID node) r) (\<lambda>(r', err'). ret r')
                else ret r)))
      else if ns_Status node = NodeStatusDown then
        bnd (Deregister (ns_ID node) nodeRegistry) (\<lambda>(r, err). ret r)
      else ret nodeRegistry)"

fun watch_nodes ::
  "env \<Rightarrow> decoder \<Rightarrow> (worker_pool \<Rightarrow> int result) \<Rightarrow> config \<Rightarrow> node_stub list \<Rightarrow> node_registry \<Rightarrow> node_registry act" where
  "watch_nodes E decode hash config [] r = ret r"
| "watch_nodes E decode hash config (n # ns) r =
     bnd (watch_node E decode hash config n r) (watch_nodes E decode hash config ns)"

definition NodeWatcher_iter ::
  "env \<Rightarrow> decoder \<Rightarrow> (worker_pool \<Rightarrow> int result) \<Rightarrow> ((string, string) gomap \<Rightarrow> int result) \<Rightarrow> config \<Rightarrow>
     int \<times> node_registry \<Rightarrow> (int \<times> node_registry) act" where
  "NodeWatcher_iter E decode hash hash_nodes config = (\<lambda>(waitIndex, nodeRegistry).
     bnd (nodes_list E waitIndex) (\<lambda>resp.
     case resp of
       Inl e \<Rightarrow> ret (waitIndex, nodeRegistry)
     | Inr (nodes, lastIndex) \<Rightarrow>
         (if lastIndex \<le> nr_LastChangeIndex nodeRegistry then ret (waitIndex, nodeRegistry)
          else
            bnd (watch_nodes E decode hash config nodes nodeRegistry) (\<lambda>r1.
            bnd (NodeRegistryUpdated hash_nodes r1) (\<lambda>(r2, updated).
            under_lock r2 (ret (lastIndex, r2\<lparr>nr_LastChangeIndex := lastIndex\<rparr>)))))))"

section \<open>The invariant of the registry\<close>

text \<open>
  Every pool is filed under its own name, has a provider, has nodes, and has a registration
  time for exactly its nodes, which are ready, not drained and filed under their IDs; every
  registered node is a node of the pool it is registered with.
\<close>

definition pool_inv :: "string \<Rightarrow> worker_pool \<Rightarrow> bool" where
  "pool_inv p pool \<longleftrightarrow> wp_Name pool = p \<and> wp_Nodes pool \<noteq> [] \<and> wp_ScalingProvider pool \<noteq> None \<and>
     wf_map (wp_Nodes pool) \<and> wf_map (wp_NodeRegistrations pool) \<and>
     dom (map_of (wp_NodeRegistrations pool)) = dom (map_of (wp_Nodes pool)) \<and>
     (\<forall>n nd. map_of (wp_Nodes pool) n = Some nd \<longrightarrow> nd_ID nd = n \<and> nd_Status nd = NodeStatusReady \<and> \<not> nd_Drain nd)"

definition registry_inv :: "node_registry \<Rightarrow> bool" where
  "registry_inv r \<longleftrightarrow>
     (\<forall>p pool. map_of (nr_WorkerPools r) p = Some pool \<longrightarrow> pool_inv p pool) \<and>
     (\<forall>n p. map_of (nr_RegisteredNodes r) n = Some p \<longrightarrow>
        (\<exists>pool. map_of (nr_WorkerPools r) p = Some pool \<and> has_key (wp_Nodes pool) n))"

definition fresh_pool :: "worker_pool \<Rightarrow> bool" where
  "fresh_pool p \<longleftrightarrow> wp_Nodes p = [] \<and> wp_NodeRegistrations p = []"

definition same_lock :: "node_registry \<Rightarrow> node_registry \<Rightarrow> bool" where
  "same_lock r r' \<longleftrightarrow> nr_Lock r' = nr_Lock r \<and> nr_LastChangeIndex r' = nr_LastChangeIndex r"

lemma registry_inv_init: "registry_inv NewNodeRegistry"
  by (simp add: registry_inv_def NewNodeRegistry_def)

lemma pool_inv_update_config: "pool_inv p pool \<Longrightarrow> pool_inv p (update_pool_config pool q)"
  by (simp add: pool_inv_def update_pool_config_def)

lemma pool_inv_add_node:
  "pool_inv p pool \<Longrightarrow> nd_Status node = NodeStatusReady \<Longrightarrow> \<not> nd_Drain node \<Longrightarrow> pool_inv p (add_node node t pool)"
  by (auto simp: pool_inv_def add_node_def AList.update_nonempty)

lemma pool_inv_new:
  "fresh_pool pool \<Longrightarrow> nd_Status node = NodeStatusReady \<Longrightarrow> \<not> nd_Drain node \<Longrightarrow>
     pool_inv (wp_Name pool) ((add_node node t pool)\<lparr>wp_ScalingProvider := Some pr\<rparr>)"
  by (auto simp: pool_inv_def add_node_def fresh_pool_def wf_map_def)

lemma add_node_keys: "has_key (wp_Nodes (add_node node t pool)) n \<longleftrightarrow> n = nd_ID node \<or> has_key (wp_Nodes pool) n"
  by (simp add: add_node_def)

lemma update_config_nodes [simp]: "wp_Nodes (update_pool_config p q) = wp_Nodes p"
  by (simp add: update_pool_config_def)

text \<open>Replacing a pool by one with at least its nodes keeps the invariant.\<close>

lemma registry_inv_put:
  assumes inv: "registry_inv r" and q: "pool_inv p q"
    and keys: "\<And>pool n. map_of (nr_WorkerPools r) p = Some pool \<Longrightarrow> has_key (wp_Nodes pool) n \<Longrightarrow> has_key (wp_Nodes q) n"
  shows "registry_inv (r\<lparr>nr_WorkerPools := AList.update p q (nr_WorkerPools r)\<rparr>)"
    and "has_key (wp_Nodes q) n \<Longrightarrow> registry_inv (r\<lparr>nr_RegisteredNodes := AList.update n p (nr_RegisteredNodes r),
      nr_WorkerPools := AList.update p q (nr_WorkerPools r)\<rparr>)"
proof -
  have pools: "\<forall>p' pool. map_of (AList.update p q (nr_WorkerPools r)) p' = Some pool \<longrightarrow> pool_inv p' pool"
    using inv q by (auto simp: registry_inv_def split: if_splits)
  have nodes: "\<exists>pool. map_of (AList.update p q (nr_WorkerPools r)) p' = Some pool \<and> has_key (wp_Nodes pool) n'"
    if reg: "map_of (nr_RegisteredNodes r) n' = Some p'" for n' p'
  proof (cases "p' = p")
    case True
    obtain pool where "map_of (nr_WorkerPools r) p' = Some pool" "has_key (wp_Nodes pool) n'"
      using inv reg unfolding registry_inv_def by blast
    then show ?thesis using keys True by simp
  next
    case False
    then show ?thesis using inv reg by (simp add: registry_inv_def)
  qed
  show "registry_inv (r\<lparr>nr_WorkerPools := AList.update p q (nr_WorkerPools r)\<rparr>)"
    unfolding registry_inv_def using pools nodes by simp
  show "registry_inv (r\<lparr>nr_RegisteredNodes := AList.update n p (nr_RegisteredNodes r),
      nr_WorkerPools := AList.update p q (nr_WorkerPools r)\<rparr>)" if "has_key (wp_Nodes q) n"
    unfolding registry_inv_def using pools nodes that by (auto split: if_splits)
qed

lemma Register_obeys:
  assumes inv: "registry_inv r" and fresh: "fresh_pool wp"
  shows "obeys (\<lambda>e. e = Now) (Register E hash node wp r) (\<lambda>(r', err). registry_inv r' \<and> same_lock r r')"
proof (cases "nd_Status node = NodeStatusReady \<and> \<not> nd_Drain node")
  case False
  then show ?thesis using inv by (auto simp: Register_def same_lock_def intro!: obeys_ret)
next
  case ready: True
  show ?thesis
  proof (cases "map_of (nr_WorkerPools r) (wp_Name wp)")
    case None
    have "registry_inv (r\<lparr>nr_RegisteredNodes := AList.update (nd_ID node) (wp_Name wp) (nr_RegisteredNodes r),
        nr_WorkerPools := AList.update (wp_Name wp) ((add_node node t wp)\<lparr>wp_ScalingProvider := Some pr\<rparr>) (nr_WorkerPools r)\<rparr>)"
      for t pr
      by (rule registry_inv_put(2) [OF inv pool_inv_new [OF fresh]]) (use ready None in \<open>auto simp: add_node_def\<close>)
    with ready None inv show ?thesis
      unfolding Register_def under_lock_def time_Now_def Let_def
      by (auto intro!: obeys_intro obeys_bnd_any simp: same_lock_def split: sum.split)
  next
    case (Some ex)
    obtain changed err where ch: "HasObjectChanged hash ex wp = (changed, err)" by fastforce
    define pool where "pool = (if changed then update_pool_config ex wp else ex)"
    have "pool_inv (wp_Name wp) ex" using inv Some by (simp add: registry_inv_def)
    then have p: "pool_inv (wp_Name wp) pool" and n: "wp_Nodes pool = wp_Nodes ex"
      by (auto simp: pool_def pool_inv_update_config)
    have "registry_inv (r\<lparr>nr_WorkerPools := AList.update (wp_Name wp) pool (nr_WorkerPools r)\<rparr>)"
      by (rule registry_inv_put(1) [OF inv p]) (use Some n in auto)
    moreover have "registry_inv (r\<lparr>nr_RegisteredNodes := AList.update (nd_ID node) (wp_Name wp) (nr_RegisteredNodes r),
        nr_WorkerPools := AList.update (wp_Name wp) (add_node node t pool) (nr_WorkerPools r)\<rparr>)" for t
      by (rule registry_inv_put(2) [OF inv pool_inv_add_node [OF p]]) (use ready Some n in \<open>auto simp: add_node_def\<close>)
    ultimately show ?thesis
      using ready Some ch unfolding Register_def under_lock_def time_Now_def Let_def
      by (auto intro!: obeys_intro obeys_bnd_any simp: same_lock_def pool_def [symmetric])
  qed
qed

lemma has_key_delete: "has_key (AList.delete n m) k \<longleftrightarrow> k \<noteq> n \<and> has_key m k"
  by simp

lemma pool_inv_remove:
  assumes "pool_inv p pool" and "AList.delete n (wp_Nodes pool) \<noteq> []"
  shows "pool_inv p (pool\<lparr>wp_Nodes := AList.delete n (wp_Nodes pool),
     wp_NodeRegistrations := AList.delete n (wp_NodeRegistrations pool)\<rparr>)"
  using assms by (auto simp: pool_inv_def split: if_splits)

definition deregistered :: "string \<Rightarrow> string \<Rightarrow> worker_pool \<Rightarrow> node_registry \<Rightarrow> node_registry" where
  "deregistered n p pool r =
     (let pool' = pool\<lparr>wp_Nodes := AList.delete n (wp_Nodes pool),
            wp_NodeRegistrations := AList.delete n (wp_NodeRegistrations pool)\<rparr>;
          pools = AList.update p pool' (nr_WorkerPools r)
      in r\<lparr>nr_RegisteredNodes := AList.delete n (nr_RegisteredNodes r),
           nr_WorkerPools := (if wp_Nodes pool' = [] then AList.delete p pools else pools)\<rparr>)"

lemma Deregister_cases:
  assumes inv: "registry_inv r" and unl: "nr_Lock r = unlocked"
  obtains (unknown) e where "map_of (nr_RegisteredNodes r) n = None" and "Deregister n r = ret (r, Some e)"
  | (known) p pool where "map_of (nr_RegisteredNodes r) n = Some p" and "map_of (nr_WorkerPools r) p = Some pool"
      and "has_key (wp_Nodes pool) n" and "Deregister n r = ret (deregistered n p pool r, None)"
proof (cases "map_of (nr_RegisteredNodes r) n")
  case None
  with unl show thesis by (intro unknown) (simp_all add: Deregister_def under_lock_def unlocked_def)
next
  case (Some p)
  then obtain pool where pool: "map_of (nr_WorkerPools r) p = Some pool" "has_key (wp_Nodes pool) n"
    using inv unfolding registry_inv_def by blast
  then have "wp_Name pool = p" using inv by (simp add: registry_inv_def pool_inv_def)
  with Some pool unl show thesis
    by (intro known) (auto simp: Deregister_def under_lock_def unlocked_def deregistered_def Let_def)
qed

lemma deregistered_inv:
  assumes inv: "registry_inv r" and pool: "map_of (nr_WorkerPools r) p = Some pool"
  shows "registry_inv (deregistered n p pool r)"
proof -
  have P: "pool_inv p pool" using inv pool by (simp add: registry_inv_def)
  let ?d = "AList.delete n (wp_Nodes pool)"
  let ?pool = "pool\<lparr>wp_Nodes := ?d, wp_NodeRegistrations := AList.delete n (wp_NodeRegistrations pool)\<rparr>"
  have pools: "\<forall>p' q. map_of (nr_WorkerPools (deregistered n p pool r)) p' = Some q \<longrightarrow> pool_inv p' q"
    using inv pool_inv_remove [OF P, of n] by (auto simp: registry_inv_def deregistered_def Let_def split: if_splits)
  have nodes: "\<exists>q. map_of (nr_WorkerPools (deregistered n p pool r)) p' = Some q \<and> has_key (wp_Nodes q) n'"
    if reg: "map_of (nr_RegisteredNodes (deregistered n p pool r)) n' = Some p'" for n' p'
  proof -
    have n': "n' \<noteq> n" "map_of (nr_RegisteredNodes r) n' = Some p'"
      using reg by (auto simp: deregistered_def Let_def split: if_splits)
    obtain q where q: "map_of (nr_WorkerPools r) p' = Some q" "has_key (wp_Nodes q) n'"
      using inv n'(2) unfolding registry_inv_def by blast
    show ?thesis
    proof (cases "p' = p")
      case True
      with q pool n' have "has_key ?d n'" by simp
      then have "?d \<noteq> []" using map_of_eq_None_Nil by blast
      with True \<open>has_key ?d n'\<close> show ?thesis by (simp add: deregistered_def Let_def)
    next
      case False
      with q show ?thesis by (simp add: deregistered_def Let_def)
    qed
  qed
  show ?thesis unfolding registry_inv_def using pools nodes by blast
qed

lemma deregistered_nodes [simp]:
  "nr_RegisteredNodes (deregistered n p pool r) = AList.delete n (nr_RegisteredNodes r)"
  by (simp add: deregistered_def Let_def)

lemma deregistered_lock: "same_lock r (deregistered n p pool r)"
  by (simp add: same_lock_def deregistered_def Let_def)

lemma Deregister_obeys:
  assumes "registry_inv r" and "nr_Lock r = unlocked"
  shows "obeys P (Deregister n r) (\<lambda>(r', err). registry_inv r' \<and> same_lock r r' \<and>
     map_of (nr_RegisteredNodes r') = (map_of (nr_RegisteredNodes r))(n := None))"
  using assms
proof (cases rule: Deregister_cases [where n = n])
  case (unknown e)
  then show ?thesis using assms by (auto intro!: obeys_ret simp: same_lock_def fun_upd_idem)
next
  case (known p pool)
  then show ?thesis using assms deregistered_inv deregistered_lock
    by (auto intro!: obeys_ret)
qed

lemma Deregister_returns:
  assumes "registry_inv r" and "nr_Lock r = unlocked"
  shows "returns (Deregister n r)"
  using assms by (cases rule: Deregister_cases [where n = n]) (simp_all add: returns_ret)

lemma Register_returns:
  assumes "nr_Lock r = unlocked"
  shows "returns (Register E hash node wp r)"
  unfolding Register_def under_lock_def time_Now_def Let_def
  using assms by (auto intro!: returns_intro simp: unlocked_def split: sum.split prod.split)

section \<open>The watcher\<close>

text \<open>
  What the decoder is relied on for: it leaves the node maps of the pool it fills alone.
  Those fields are not of a type a string can be decoded to.
\<close>

definition decode_law :: "decoder \<Rightarrow> bool" where
  "decode_law decode \<longleftrightarrow> (\<forall>m p q. decode m p = Inr q \<longrightarrow>
     wp_Nodes q = wp_Nodes p \<and> wp_NodeRegistrations q = wp_NodeRegistrations p)"

fun watch_event :: "event \<Rightarrow> bool" where
  "watch_event (KVGet _) = True"
| "watch_event (NodeInfo _) = True"
| "watch_event Now = True"
| "watch_event (NodesList _) = True"
| "watch_event _ = False"

lemma LoadPoolConfig_obeys: "obeys watch_event (LoadPoolConfig E k) (\<lambda>_. True)"
  unfolding LoadPoolConfig_def kv_get_def by (intro obeys_bnd_any obeys_intro) auto

lemma LoadPoolConfig_returns: "returns (LoadPoolConfig E k)"
  unfolding LoadPoolConfig_def kv_get_def by (intro returns_intro)

lemma ProcessNodeConfig_obeys:
  assumes "decode_law decode"
  shows "obeys watch_event (ProcessNodeConfig E decode node config) (\<lambda>r. \<forall>p. r = Inr p \<longrightarrow> fresh_pool p)"
  unfolding ProcessNodeConfig_def Let_def
  by (intro obeys_if obeys_bnd_any obeys_sum obeys_ret LoadPoolConfig_obeys TrueI)
    (use assms in \<open>auto simp: decode_law_def fresh_pool_def NewWorkerPool_def\<close>)

lemma ProcessNodeConfig_returns: "returns (ProcessNodeConfig E decode node config)"
  unfolding ProcessNodeConfig_def Let_def by (intro returns_intro LoadPoolConfig_returns)

lemma same_lock_trans: "same_lock r r' \<Longrightarrow> same_lock r' r'' \<Longrightarrow> same_lock r r''"
  by (simp add: same_lock_def)

lemma same_lock_unlocked: "same_lock r r' \<Longrightarrow> nr_Lock r = unlocked \<Longrightarrow> nr_Lock r' = unlocked"
  by (simp add: same_lock_def)

lemma drop_obeys:
  assumes "registry_inv r" and "nr_Lock r = unlocked"
  shows "obeys P (bnd (Deregister n r) (\<lambda>(r', err). ret r')) (\<lambda>r'. registry_inv r' \<and> same_lock r r' \<and>
     map_of (nr_RegisteredNodes r') = (map_of (nr_RegisteredNodes r))(n := None))"
  by (rule obeys_bnd [OF Deregister_obeys [OF assms]]) (auto intro!: obeys_ret)

lemma drop_returns:
  assumes "registry_inv r" and "nr_Lock r = unlocked"
  shows "returns (bnd (Deregister n r) (\<lambda>(r', err). ret r'))"
  by (intro returns_intro Deregister_returns assms)

lemma watch_node_obeys:
  assumes law: "decode_law decode" and inv: "registry_inv r" and unl: "nr_Lock r = unlocked"
  shows "obeys watch_event (watch_node E decode hash config n r) (\<lambda>r'. registry_inv r' \<and> same_lock r r')"
proof -
  have R: "obeys watch_event (Register E hash nd p r) (\<lambda>(r', err). registry_inv r' \<and> same_lock r r')"
    if "fresh_pool p" for nd p
    by (rule obeys_weaken [OF Register_obeys [OF inv that]]) auto
  have D: "obeys watch_event (bnd (Deregister (ns_ID n) q) (\<lambda>(r', err). ret r')) (\<lambda>r'. registry_inv r' \<and> same_lock r r')"
    if "registry_inv q" "same_lock r q" for q
    by (rule obeys_post [OF drop_obeys]) (use that unl in \<open>auto intro: same_lock_trans same_lock_unlocked\<close>)
  have r: "same_lock r r" by (simp add: same_lock_def)
  have K: "obeys watch_event (case conf of
              Inl e \<Rightarrow>
                (if has_key (nr_RegisteredNodes r) (ns_ID n)
                 then bnd (Deregister (ns_ID n) r) (\<lambda>(r, err). ret r) else ret r)
            | Inr nodeConfig \<Rightarrow>
                bnd (Register E hash nd nodeConfig r) (\<lambda>(r, err).
                if \<not> wp_ScalingEnabled nodeConfig
                then bnd (Deregister (ns_ID n) r) (\<lambda>(r', err'). ret r') else ret r))
          (\<lambda>r'. registry_inv r' \<and> same_lock r r')"
    if "\<forall>p. conf = Inr p \<longrightarrow> fresh_pool p" for conf nd
  proof (cases conf)
    case (Inl e)
    then show ?thesis using D [OF inv r] inv r by (auto intro: obeys_ret)
  next
    case (Inr p)
    with that have "fresh_pool p" by simp
    then show ?thesis unfolding Inr sum.case
      by (intro obeys_bnd [OF R] obeys_prod obeys_if D obeys_ret) auto
  qed
  show ?thesis
    unfolding watch_node_def node_info_def
    by (intro obeys_if D [OF inv r] obeys_ret obeys_bnd_any [OF obeys_call] obeys_sum
        obeys_bnd [OF ProcessNodeConfig_obeys [OF law]] K) (use inv r in auto)
qed

lemma watch_node_returns:
  assumes law: "decode_law decode" and inv: "registry_inv r" and unl: "nr_Lock r = unlocked"
  shows "returns (watch_node E decode hash config n r)"
proof -
  have K: "returns (bnd (Register E hash nd p r) (\<lambda>(r, err).
      if \<not> wp_ScalingEnabled p then bnd (Deregister (ns_ID n) r) (\<lambda>(r', err'). ret r') else ret r))"
    if "fresh_pool p" for nd p
    by (rule returns_bnd_obeys [OF Register_returns [OF unl] Register_obeys [OF inv that]])
      (use unl in \<open>auto intro!: drop_returns returns_ret intro: same_lock_unlocked\<close>)
  show ?thesis
    unfolding watch_node_def node_info_def
    by (intro returns_if returns_ret drop_returns [OF inv unl] returns_bnd [OF returns_call] returns_sum
        returns_bnd_obeys [OF ProcessNodeConfig_returns ProcessNodeConfig_obeys [OF law]] K) auto
qed

lemma watch_nodes_obeys:
  assumes "decode_law decode" and "registry_inv r" and "nr_Lock r = unlocked"
  shows "obeys watch_event (watch_nodes E decode hash config ns r) (\<lambda>r'. registry_inv r' \<and> same_lock r r') \<and>
    returns (watch_nodes E decode hash config ns r)"
  using assms(2,3)
proof (induction ns arbitrary: r)
  case Nil
  then show ?case by (simp add: obeys_ret returns_ret same_lock_def)
next
  case (Cons n ns)
  note W = watch_node_obeys [OF assms(1) Cons.prems]
  have IH: "obeys watch_event (watch_nodes E decode hash config ns q) (\<lambda>r'. registry_inv r' \<and> same_lock r r')"
    "returns (watch_nodes E decode hash config ns q)" if "registry_inv q \<and> same_lock r q" for q
    using Cons.IH [of q] Cons.prems that by (auto intro: obeys_post same_lock_trans same_lock_unlocked)
  show ?case unfolding watch_nodes.simps
    by (auto intro: obeys_bnd [OF W IH(1)] returns_bnd_obeys [OF watch_node_returns [OF assms(1) Cons.prems] W IH(2)])
qed

definition watch_inv :: "int \<times> node_registry \<Rightarrow> bool" where
  "watch_inv s \<longleftrightarrow> registry_inv (snd s) \<and> nr_Lock (snd s) = unlocked"

lemma hash_obeys:
  assumes "registry_inv r" and "nr_Lock r = unlocked"
  shows "obeys P (NodeRegistryUpdated hn r) (\<lambda>(r', b). registry_inv r' \<and> same_lock r r' \<and>
      nr_RegisteredNodes r' = nr_RegisteredNodes r \<and> nr_WorkerPools r' = nr_WorkerPools r)"
    and "returns (NodeRegistryUpdated hn r)"
  unfolding NodeRegistryUpdated_def under_lock_def Let_def using assms
  by (auto intro!: obeys_ret returns_ret simp: unlocked_def same_lock_def registry_inv_def)

lemma iter_obeys:
  assumes law: "decode_law decode" and s: "watch_inv s"
  shows "obeys watch_event (NodeWatcher_iter E decode hash hn config s)
      (\<lambda>s'. watch_inv s' \<and> (s' = s \<or> nr_LastChangeIndex (snd s) < nr_LastChangeIndex (snd s') \<and>
         fst s' = nr_LastChangeIndex (snd s')))"
    and "returns (NodeWatcher_iter E decode hash hn config s)"
proof -
  obtain w r where sr: "s = (w, r)" and inv: "registry_inv r" and unl: "nr_Lock r = unlocked"
    using s by (cases s) (auto simp: watch_inv_def)
  have W: "obeys watch_event (watch_nodes E decode hash config ns r) (\<lambda>r'. registry_inv r' \<and> same_lock r r')"
    "returns (watch_nodes E decode hash config ns r)" for ns
    using watch_nodes_obeys [OF law inv unl] by blast+
  have H: "obeys watch_event (NodeRegistryUpdated hn q) (\<lambda>(r', b). registry_inv r' \<and> same_lock r r')"
    "returns (NodeRegistryUpdated hn q)" if "registry_inv q \<and> same_lock r q" for q
    using that unl hash_obeys(2) [of q hn]
    by (auto intro!: obeys_post [OF hash_obeys(1) [of q]] intro: same_lock_trans same_lock_unlocked)
  have U: "under_lock q (ret x) = ret x" if "same_lock r q" for q and x :: "int \<times> node_registry"
    using that unl by (simp add: under_lock_def same_lock_def unlocked_def)
  have F: "watch_inv (i, q\<lparr>nr_LastChangeIndex := i\<rparr>)" if "registry_inv q" "same_lock r q" for q i
    using that unl by (simp add: watch_inv_def registry_inv_def same_lock_def)
  show "obeys watch_event (NodeWatcher_iter E decode hash hn config s)
      (\<lambda>s'. watch_inv s' \<and> (s' = s \<or> nr_LastChangeIndex (snd s) < nr_LastChangeIndex (snd s') \<and>
         fst s' = nr_LastChangeIndex (snd s')))"
    unfolding NodeWatcher_iter_def sr prod.case nodes_list_def
    by (intro obeys_bnd_any [OF obeys_call] obeys_sum obeys_prod obeys_if obeys_ret obeys_bnd [OF W(1)] obeys_bnd [OF H(1)])
      (use s sr F in \<open>auto simp: U intro!: obeys_ret\<close>)
  show "returns (NodeWatcher_iter E decode hash hn config s)"
    unfolding NodeWatcher_iter_def sr prod.case nodes_list_def
    by (intro returns_bnd [OF returns_call] returns_sum returns_prod returns_if returns_ret
        returns_bnd_obeys [OF W(2) W(1)] returns_bnd_obeys [OF H(2) H(1)])
      (auto simp: U intro!: returns_ret)
qed

text \<open>The states the watcher goes through, whatever the services answer.\<close>

inductive watching ::
  "env \<Rightarrow> decoder \<Rightarrow> (worker_pool \<Rightarrow> int result) \<Rightarrow> ((string, string) gomap \<Rightarrow> int result) \<Rightarrow> config \<Rightarrow>
     int \<times> node_registry \<Rightarrow> log \<Rightarrow> bool"
  for E decode hash hn config where
  start: "watching E decode hash hn config (1, NewNodeRegistry) []"
| step: "watching E decode hash hn config s h \<Longrightarrow>
     NodeWatcher_iter E decode hash hn config s h = (Ret s', h') \<Longrightarrow> watching E decode hash hn config s' h'"

inductive_cases watchingE: "watching E decode hash hn config s h"

lemma watching_inv:
  assumes "decode_law decode" and "watching E decode hash hn config s h"
  shows "watch_inv s"
  using assms(2)
proof induction
  case start
  then show ?case by (simp add: watch_inv_def registry_inv_init) (simp add: NewNodeRegistry_def)
next
  case (step s h s' h')
  then show ?case using obeys_run(3) [OF iter_obeys(1) [OF assms(1)]] by blast
qed

section \<open>Properties\<close>

definition demo_decode :: decoder where
  "demo_decode m p = Inr (p\<lparr>wp_Name := (case map_of m ''replicator_worker_pool'' of Some v \<Rightarrow> v | None \<Rightarrow> []),
     wp_ProviderName := ''aws'', wp_Region := ''r'', wp_ScalingEnabled := True\<rparr>)"

definition demo_meta :: "(string, string) gomap" where
  "demo_meta = map (\<lambda>k. (k, ''pool'')) requiredKeys"

definition demo_hash :: "worker_pool \<Rightarrow> int result" where
  "demo_hash p = Inr (wp_Cooldown p)"

definition demo_hash_nodes :: "(string, string) gomap \<Rightarrow> int result" where
  "demo_hash_nodes m = Inr (int (length m))"

lemma demo_decode_law: "decode_law demo_decode"
  by (simp add: decode_law_def demo_decode_def)

text \<open>
  C6: node discovery keeps its books: in every state the watcher reaches, whatever Nomad and
  Consul answer, each pool is filed under its name with a provider and at least one node,
  each registered node belongs to the pool it is registered with, and the registry is
  unlocked; and from every such state the next iteration returns without a panic and
  without waiting for a lock, never moving the change index backwards.
\<close>

theorem watcher_safe:
  assumes "decode_law decode" and "watching E decode hash hn config (w, r) h"
  shows "registry_inv r \<and> nr_Lock r = unlocked \<and>
    (\<exists>w' r' h'. NodeWatcher_iter E decode hash hn config (w, r) h = (Ret (w', r'), h') \<and>
       nr_LastChangeIndex r \<le> nr_LastChangeIndex r')"
proof -
  note inv = watching_inv [OF assms]
  obtain w' r' h' where it: "NodeWatcher_iter E decode hash hn config (w, r) h = (Ret (w', r'), h')"
    using iter_obeys(2) [OF assms(1) inv] by (metis returnsE surj_pair)
  from obeys_run(3) [OF iter_obeys(1) [OF assms(1) inv] it] inv it show ?thesis
    by (auto simp: watch_inv_def)
qed

theorem watcher_safe_witness:
  "registry_inv NewNodeRegistry \<and> (\<exists>w' r' h'. NodeWatcher_iter ref_env demo_decode demo_hash demo_hash_nodes demo_config
     (1, NewNodeRegistry) [] = (Ret (w', r'), h') \<and> nr_LastChangeIndex NewNodeRegistry \<le> nr_LastChangeIndex r')"
  using watcher_safe [OF demo_decode_law watching.start] by blast

text \<open>
  C32: a ready node that is not draining and is new to its pool is registered with it: it
  can be looked up by its ID in the registry and in the pool, with the moment of its
  discovery as registration time; a node that is not ready or is draining is declined with
  an error, and nothing changes.
\<close>

theorem register_lookup:
  assumes "Register E hash node wp r h = (Ret (r', err), h')"
    and "\<And>pool. map_of (nr_WorkerPools r) (wp_Name wp) = Some pool \<Longrightarrow> \<not> has_key (wp_Nodes pool) (nd_ID node)"
    and "wp_ScalingEnabled wp"
  shows "if nd_Status node = NodeStatusReady \<and> \<not> nd_Drain node
    then err = None \<longrightarrow> map_of (nr_RegisteredNodes r') (nd_ID node) = Some (wp_Name wp) \<and>
      (\<exists>pool. map_of (nr_WorkerPools r') (wp_Name wp) = Some pool \<and> map_of (wp_Nodes pool) (nd_ID node) = Some node \<and>
         map_of (wp_NodeRegistrations pool) (nd_ID node) = Some (en_now E h))
    else r' = r \<and> err \<noteq> None \<and> h' = h"
proof (cases "nd_Status node = NodeStatusReady \<and> \<not> nd_Drain node")
  case False
  with assms(1) show ?thesis by (auto simp: Register_def ret_app split: if_splits)
next
  case True
  have L: "\<not> lk_Writer (nr_Lock r)" "lk_Readers (nr_Lock r) = 0"
    using assms(1) True by (auto simp: Register_def under_lock_def block_app split: if_splits)
  show ?thesis
  proof (cases "map_of (nr_WorkerPools r) (wp_Name wp)")
    case None
    with assms(1) True L show ?thesis
      by (auto simp: Register_def under_lock_def go_simps Let_def add_node_def split: sum.splits)
  next
    case (Some pool)
    obtain changed e where ch: "HasObjectChanged hash pool wp = (changed, e)" by fastforce
    with assms Some True L show ?thesis
      by (cases changed) (auto simp: Register_def under_lock_def go_simps Let_def add_node_def)
  qed
qed

theorem register_lookup_witness:
  "\<exists>r' h'. Register ref_env demo_hash demo_node (demo_pool\<lparr>wp_Nodes := []\<rparr>) NewNodeRegistry [] = (Ret (r', None), h') \<and>
     map_of (nr_RegisteredNodes r') ''n1'' = Some ''pool''"
proof -
  obtain r' h' where r: "Register ref_env demo_hash demo_node (demo_pool\<lparr>wp_Nodes := []\<rparr>) NewNodeRegistry [] = (Ret (r', None), h')"
    by (simp add: Register_def under_lock_def go_simps Let_def demo_node_def demo_pool_def NewNodeRegistry_def
        unlocked_def add_node_def NewScalingProvider_def NewAwsScalingProvider_def NewWorkerPool_def)
  from register_lookup [OF r] r show ?thesis
    by (auto simp: demo_node_def demo_pool_def NewNodeRegistry_def)
qed

text \<open>
  Deregistering a known node removes it from the registry and from its pool, leaves
  every other node registered as it was and every other pool alone, and drops the pool
  exactly when the node was its last; an unknown node is an error and changes nothing.
  No call of it panics while the invariant holds.
\<close>

theorem deregister_exact:
  assumes inv: "registry_inv r" and unl: "nr_Lock r = unlocked"
  shows "case map_of (nr_RegisteredNodes r) n of
      None \<Rightarrow> \<exists>e. Deregister n r h = (Ret (r, Some e), h)
    | Some p \<Rightarrow> \<exists>r' pool. Deregister n r h = (Ret (r', None), h) \<and>
        map_of (nr_RegisteredNodes r') = (map_of (nr_RegisteredNodes r))(n := None) \<and>
        map_of (nr_WorkerPools r) p = Some pool \<and>
        map_of (nr_WorkerPools r') = (map_of (nr_WorkerPools r))(p :=
          (if dom (map_of (wp_Nodes pool)) = {n} then None
           else Some (pool\<lparr>wp_Nodes := AList.delete n (wp_Nodes pool),
                  wp_NodeRegistrations := AList.delete n (wp_NodeRegistrations pool)\<rparr>)))"
  using inv unl
proof (cases rule: Deregister_cases [where n = n])
  case (unknown e)
  then show ?thesis by (simp add: ret_app)
next
  case (known p pool)
  have "map_of (nr_WorkerPools (deregistered n p pool r)) = (map_of (nr_WorkerPools r))(p :=
          (if dom (map_of (wp_Nodes pool)) = {n} then None
           else Some (pool\<lparr>wp_Nodes := AList.delete n (wp_Nodes pool),
                  wp_NodeRegistrations := AList.delete n (wp_NodeRegistrations pool)\<rparr>)))"
    using delete_Nil_iff [OF known(3)] by (simp add: deregistered_def Let_def)
  with known show ?thesis by (simp add: ret_app)
qed

definition demo_registry :: node_registry where
  "demo_registry = NewNodeRegistry\<lparr>nr_RegisteredNodes := [(''n1'', ''pool'')],
     nr_WorkerPools := [(''pool'', demo_pool\<lparr>wp_Nodes := [(''n1'', demo_node)], wp_NodeRegistrations := [(''n1'', 7)]\<rparr>)]\<rparr>"

lemma demo_registry_inv: "registry_inv demo_registry" "nr_Lock demo_registry = unlocked"
  by (auto simp: registry_inv_def pool_inv_def demo_registry_def demo_pool_def demo_node_def NewNodeRegistry_def wf_map_def)

theorem deregister_exact_witness:
  "\<exists>r'. Deregister ''n1'' demo_registry [] = (Ret (r', None), []) \<and> map_of (nr_WorkerPools r') ''pool'' = None"
  using deregister_exact [OF demo_registry_inv, of "''n1''" "[]"]
  by (auto simp: demo_registry_def NewNodeRegistry_def)

text \<open>
  C33: a node that comes and goes leaves no trace: registering a new node with a pool not
  seen before and deregistering it again restores the registry's maps.
\<close>

theorem register_deregister_roundtrip:
  assumes inv: "registry_inv r" and unl: "nr_Lock r = unlocked" and fresh: "fresh_pool wp"
    and new: "map_of (nr_RegisteredNodes r) (nd_ID node) = None" "map_of (nr_WorkerPools r) (wp_Name wp) = None"
    and reg: "Register E hash node wp r h = (Ret (r1, None), h1)"
  shows "\<exists>r2. Deregister (nd_ID node) r1 h2 = (Ret (r2, None), h2) \<and>
    map_of (nr_RegisteredNodes r2) = map_of (nr_RegisteredNodes r) \<and>
    map_of (nr_WorkerPools r2) = map_of (nr_WorkerPools r)"
proof -
  have ready: "nd_Status node = NodeStatusReady \<and> \<not> nd_Drain node"
    using reg by (auto simp: Register_def ret_app split: if_splits)
  obtain pr where r1: "r1 = r\<lparr>nr_RegisteredNodes := AList.update (nd_ID node) (wp_Name wp) (nr_RegisteredNodes r),
      nr_WorkerPools := AList.update (wp_Name wp) ((add_node node (en_now E h) wp)\<lparr>wp_ScalingProvider := Some pr\<rparr>) (nr_WorkerPools r)\<rparr>"
    using reg ready new unl
    by (auto simp: Register_def under_lock_def unlocked_def go_simps Let_def split: sum.splits)
  have I: "registry_inv r1" "same_lock r r1"
    using obeys_run(3) [OF Register_obeys [OF inv fresh] reg] by auto
  have unl1: "nr_Lock r1 = unlocked" using I(2) unl by (rule same_lock_unlocked)
  show ?thesis
    using I(1) unl1
  proof (cases rule: Deregister_cases [where n = "nd_ID node"])
    case (unknown e)
    then show ?thesis by (simp add: r1)
  next
    case (known p pool)
    then have "p = wp_Name wp" and "pool = (add_node node (en_now E h) wp)\<lparr>wp_ScalingProvider := Some pr\<rparr>"
      by (auto simp: r1)
    with known(4) new fresh show ?thesis
      by (auto simp: ret_app deregistered_def Let_def add_node_def fresh_pool_def r1 fun_upd_idem_iff)
  qed
qed

theorem register_deregister_roundtrip_witness:
  "\<exists>r1 h1 r2. Register ref_env demo_hash demo_node (demo_pool\<lparr>wp_Nodes := []\<rparr>) NewNodeRegistry [] = (Ret (r1, None), h1) \<and>
     Deregister ''n1'' r1 h1 = (Ret (r2, None), h1) \<and> map_of (nr_WorkerPools r2) = map_of []"
proof -
  let ?p = "demo_pool\<lparr>wp_Nodes := []\<rparr>"
  obtain r1 h1 where r: "Register ref_env demo_hash demo_node ?p NewNodeRegistry [] = (Ret (r1, None), h1)"
    by (simp add: Register_def under_lock_def go_simps Let_def demo_node_def demo_pool_def NewNodeRegistry_def
        unlocked_def add_node_def NewScalingProvider_def NewAwsScalingProvider_def NewWorkerPool_def)
  have "fresh_pool ?p" "nr_Lock NewNodeRegistry = unlocked" "nd_ID demo_node = ''n1''"
    "nr_RegisteredNodes NewNodeRegistry = []" "nr_WorkerPools NewNodeRegistry = []"
    by (simp_all add: fresh_pool_def demo_pool_def NewWorkerPool_def NewNodeRegistry_def demo_node_def)
  with register_deregister_roundtrip [OF registry_inv_init _ _ _ _ r, of h1] r show ?thesis by auto
qed

text \<open>
  A node whose configuration moves it to another known pool is not removed from the
  old one: it stays in the node map of its old pool, and deregistering it later removes it
  from the new pool only, after which nothing removes it from the old one by its ID.  The
  old pool then counts, and can select for scale-in, a node that is not in it.
\<close>

theorem moved_node_stays_behind:
  assumes inv: "registry_inv r" and unl: "nr_Lock r = unlocked" and fresh: "fresh_pool wp"
    and old: "map_of (nr_WorkerPools r) p = Some old" "has_key (wp_Nodes old) (nd_ID node)"
    and move: "p \<noteq> wp_Name wp" "wp_ScalingEnabled wp"
      "\<And>pool. map_of (nr_WorkerPools r) (wp_Name wp) = Some pool \<Longrightarrow> \<not> has_key (wp_Nodes pool) (nd_ID node)"
    and reg: "Register E hash node wp r h = (Ret (r1, None), h1)"
    and dereg: "Deregister (nd_ID node) r1 h2 = (Ret (r2, None), h2)"
  shows "map_of (nr_RegisteredNodes r2) (nd_ID node) = None \<and> map_of (nr_WorkerPools r2) p = Some old \<and>
    fst (Deregister (nd_ID node) r2 h3) = Ret (r2, Some (Errorf ''node was not previously registered, no deregistration is required'' None))"
proof -
  have ready: "nd_Status node = NodeStatusReady \<and> \<not> nd_Drain node"
    using reg by (auto simp: Register_def ret_app split: if_splits)
  have I: "registry_inv r1" "same_lock r r1"
    using obeys_run(3) [OF Register_obeys [OF inv fresh] reg] by auto
  have L: "\<not> lk_Writer (nr_Lock r)" "lk_Readers (nr_Lock r) = 0" using unl by (simp_all add: unlocked_def)
  have r1: "map_of (nr_RegisteredNodes r1) (nd_ID node) = Some (wp_Name wp) \<and> map_of (nr_WorkerPools r1) p = Some old"
  proof (cases "map_of (nr_WorkerPools r) (wp_Name wp)")
    case None
    with reg ready L old(1) move(1) show ?thesis
      by (auto simp: Register_def under_lock_def go_simps Let_def split: sum.splits)
  next
    case (Some pool)
    obtain changed e where "HasObjectChanged hash pool wp = (changed, e)" by fastforce
    with Some reg ready L old(1) move show ?thesis
      by (cases changed) (auto simp: Register_def under_lock_def go_simps Let_def)
  qed
  have unl1: "nr_Lock r1 = unlocked" using I(2) unl by (rule same_lock_unlocked)
  have "map_of (nr_RegisteredNodes r2) (nd_ID node) = None \<and> map_of (nr_WorkerPools r2) p = Some old \<and> nr_Lock r2 = unlocked"
    using I(1) unl1
  proof (cases rule: Deregister_cases [where n = "nd_ID node"])
    case (unknown e)
    with r1 show ?thesis by simp
  next
    case (known q pool)
    with r1 dereg move(1) unl1 show ?thesis by (auto simp: ret_app deregistered_def Let_def)
  qed
  then show ?thesis by (simp add: Deregister_def under_lock_def unlocked_def ret_app)
qed

theorem moved_node_stays_behind_witness:
  "\<exists>r1 h1 r2. Register ref_env demo_hash demo_node (demo_pool\<lparr>wp_Name := ''b'', wp_Nodes := []\<rparr>) demo_registry [] = (Ret (r1, None), h1) \<and>
     Deregister ''n1'' r1 [] = (Ret (r2, None), []) \<and> has_key (nr_WorkerPools r2) ''pool''"
proof -
  let ?b = "demo_pool\<lparr>wp_Name := ''b'', wp_Nodes := []\<rparr>"
  let ?old = "demo_pool\<lparr>wp_Nodes := [(''n1'', demo_node)], wp_NodeRegistrations := [(''n1'', 7)]\<rparr>"
  note D = demo_registry_def NewNodeRegistry_def demo_node_def demo_pool_def NewWorkerPool_def unlocked_def
  obtain r1 h1 where r: "Register ref_env demo_hash demo_node ?b demo_registry [] = (Ret (r1, None), h1)"
    and d: "\<exists>r2. Deregister ''n1'' r1 [] = (Ret (r2, None), [])"
    by (simp add: D Register_def Deregister_def under_lock_def go_simps Let_def add_node_def NewScalingProvider_def
        NewAwsScalingProvider_def)
  then obtain r2 where d: "Deregister ''n1'' r1 [] = (Ret (r2, None), [])" by blast
  have "map_of (nr_WorkerPools demo_registry) ''pool'' = Some ?old" "fresh_pool ?b" "nd_ID demo_node = ''n1''"
    "map_of (nr_WorkerPools demo_registry) ''b'' = None" "wp_ScalingEnabled ?b"
    by (simp_all add: D fresh_pool_def)
  with moved_node_stays_behind [OF demo_registry_inv, of ?b "''pool''" ?old demo_node ref_env demo_hash "[]" r1 h1 "[]" r2] r d
  show ?thesis by auto
qed

text \<open>What Nomad promises of a query for a node, and what an iteration does to one node of the list.\<close>

definition info_law :: "env \<Rightarrow> bool" where
  "info_law E \<longleftrightarrow> (\<forall>h n nd. en_node_info E h n = Inr nd \<longrightarrow> nd_ID nd = n)"

lemma Register_nodes:
  "obeys P (Register E hash nd wp r) (\<lambda>(r', err). \<forall>k. k \<noteq> nd_ID nd \<longrightarrow> map_of (nr_RegisteredNodes r') k = map_of (nr_RegisteredNodes r) k)"
  if "P Now" for P :: "event \<Rightarrow> bool"
  unfolding Register_def under_lock_def time_Now_def Let_def
  by (intro obeys_intro obeys_bnd_any [OF obeys_call]) (use that in auto)

lemma Deregister_nodes:
  assumes "registry_inv r" and "nr_Lock r = unlocked" and "Deregister n r h = (Ret (r', err), h')"
  shows "map_of (nr_RegisteredNodes r') = (map_of (nr_RegisteredNodes r))(n := None)"
  using obeys_run(3) [OF Deregister_obeys [OF assms(1,2), where P = "\<lambda>_. True"] assms(3)] by simp

lemma watch_node_frame:
  assumes law: "decode_law decode" and inv: "registry_inv r" and unl: "nr_Lock r = unlocked" and info: "info_law E"
    and run: "watch_node E decode hash config n r h = (Ret r', h')"
  shows "k \<noteq> ns_ID n \<Longrightarrow> map_of (nr_RegisteredNodes r') k = map_of (nr_RegisteredNodes r) k"
    and "nr_LastChangeIndex r < ns_ModifyIndex n \<Longrightarrow>
      ns_Drain n \<and> ns_Status n = NodeStatusReady \<or> ns_Status n = NodeStatusDown \<Longrightarrow>
      map_of (nr_RegisteredNodes r') (ns_ID n) = None"
proof -
  let ?Q = "\<lambda>r'. \<forall>k. k \<noteq> ns_ID n \<longrightarrow> map_of (nr_RegisteredNodes r') k = map_of (nr_RegisteredNodes r) k"
  have D: "obeys (\<lambda>_. True) (bnd (Deregister (ns_ID n) q) (\<lambda>(r', err). ret r')) ?Q"
    if "registry_inv q" "nr_Lock q = unlocked" "?Q q" for q
    by (rule obeys_post [OF drop_obeys [OF that(1,2)]]) (use that in auto)
  have K: "obeys (\<lambda>_. True) (bnd (Register E hash nd p r) (\<lambda>(r, err).
      if \<not> wp_ScalingEnabled p then bnd (Deregister (ns_ID n) r) (\<lambda>(r', err'). ret r') else ret r)) ?Q"
    if "fresh_pool p" "nd_ID nd = ns_ID n" for nd p
    by (rule obeys_bnd [OF obeys_weaken [OF obeys_conj [OF Register_obeys [OF inv that(1)] Register_nodes [of "\<lambda>_. True"]]]])
      (use that unl in \<open>auto intro!: D obeys_ret intro: same_lock_unlocked\<close>)
  have "obeys (\<lambda>_. True) (watch_node E decode hash config n r) ?Q"
    unfolding watch_node_def node_info_def
  proof (intro obeys_if D [OF inv unl] obeys_ret obeys_bnd [where R = "\<lambda>i. \<forall>nd. i = Inr nd \<longrightarrow> nd_ID nd = ns_ID n"])
    fix i :: "node result" assume "\<forall>nd. i = Inr nd \<longrightarrow> nd_ID nd = ns_ID n"
    then show "obeys (\<lambda>_. True) (case i of Inl e \<Rightarrow> ret r | Inr nodeRecord \<Rightarrow>
            bnd (ProcessNodeConfig E decode nodeRecord config) (\<lambda>conf.
            case conf of
              Inl e \<Rightarrow>
                (if has_key (nr_RegisteredNodes r) (ns_ID n)
                 then bnd (Deregister (ns_ID n) r) (\<lambda>(r, err). ret r)
                 else ret r)
            | Inr nodeConfig \<Rightarrow>
                bnd (Register E hash nodeRecord nodeConfig r) (\<lambda>(r, err).
                if \<not> wp_ScalingEnabled nodeConfig
                then bnd (Deregister (ns_ID n) r) (\<lambda>(r', err'). ret r')
                else ret r))) ?Q"
      by (intro obeys_sum obeys_if obeys_ret D [OF inv unl] K
          obeys_bnd [OF obeys_weaken [where Q' = "\<lambda>r. \<forall>p. r = Inr p \<longrightarrow> fresh_pool p", OF ProcessNodeConfig_obeys [OF law]]])
        auto
  qed (use info in \<open>auto intro: obeys_call simp: info_law_def\<close>)
  from obeys_run(3) [OF this run]
  show "k \<noteq> ns_ID n \<Longrightarrow> map_of (nr_RegisteredNodes r') k = map_of (nr_RegisteredNodes r) k" by blast
  assume "nr_LastChangeIndex r < ns_ModifyIndex n"
    and "ns_Drain n \<and> ns_Status n = NodeStatusReady \<or> ns_Status n = NodeStatusDown"
  then have "watch_node E decode hash config n r = bnd (Deregister (ns_ID n) r) (\<lambda>(r, err). ret r)"
    by (auto simp: watch_node_def)
  with run have "bnd (Deregister (ns_ID n) r) (\<lambda>(r, err). ret r) h = (Ret r', h')" by simp
  from obeys_run(3) [OF drop_obeys [OF inv unl, where P = "\<lambda>_. True"] this]
  show "map_of (nr_RegisteredNodes r') (ns_ID n) = None" by simp
qed

lemma watch_nodes_drop:
  assumes law: "decode_law decode" and info: "info_law E"
    and "registry_inv r" and "nr_Lock r = unlocked" and "distinct (map ns_ID ns)"
    and "watch_nodes E decode hash config ns r h = (Ret r', h')"
  shows "(\<forall>k. k \<notin> ns_ID ` set ns \<longrightarrow> map_of (nr_RegisteredNodes r') k = map_of (nr_RegisteredNodes r) k) \<and>
    (\<forall>n \<in> set ns. nr_LastChangeIndex r < ns_ModifyIndex n \<and>
      (ns_Drain n \<and> ns_Status n = NodeStatusReady \<or> ns_Status n = NodeStatusDown) \<longrightarrow>
      map_of (nr_RegisteredNodes r') (ns_ID n) = None)"
  using assms(3-)
proof (induction ns arbitrary: r h)
  case Nil
  then show ?case by (simp add: ret_app)
next
  case (Cons n ns)
  from Cons.prems(4) obtain r1 h1 where w: "watch_node E decode hash config n r h = (Ret r1, h1)"
    and ws: "watch_nodes E decode hash config ns r1 h1 = (Ret r', h')"
    by (auto elim: bnd_RetE)
  have r1: "registry_inv r1 \<and> same_lock r r1"
    using obeys_run(3) [OF watch_node_obeys [OF law Cons.prems(1,2)] w] by simp
  note F = watch_node_frame [OF law Cons.prems(1,2) info w]
  have "nr_Lock r1 = unlocked" "nr_LastChangeIndex r1 = nr_LastChangeIndex r" "distinct (map ns_ID ns)"
    using r1 Cons.prems by (auto simp: same_lock_def)
  with Cons.IH [of r1 h1] r1 ws
  have IH: "\<forall>k. k \<notin> ns_ID ` set ns \<longrightarrow> map_of (nr_RegisteredNodes r') k = map_of (nr_RegisteredNodes r1) k"
    "\<forall>n \<in> set ns. nr_LastChangeIndex r < ns_ModifyIndex n \<and>
      (ns_Drain n \<and> ns_Status n = NodeStatusReady \<or> ns_Status n = NodeStatusDown) \<longrightarrow>
      map_of (nr_RegisteredNodes r') (ns_ID n) = None" by auto
  have "ns_ID n \<notin> ns_ID ` set ns" using Cons.prems(3) by simp
  with IH F show ?case by auto
qed



end
