(* ===== verification/Pool_Capacity.thy ===== *)
theory Pool_Capacity
  imports Helper
begin

text \<open>
  Evaluation of a worker pool: \<open>client/cluster_scaling.go\<close> and the cluster part of
  \<open>client/nomad.go\<close>.  The capacity object is a struct the code passes by pointer and fills
  step by step: every operation returns it.  Integers are 64 bits wide, percentages are
  floats, and a pool without nodes makes the average a division by zero, which panics.
\<close>

abbreviation "TaskStateRunning \<equiv> ''running''"
abbreviation "AllocDesiredStatusRun \<equiv> ''run''"
abbreviation "AllocClientStatusRunning \<equiv> ''running''"
abbreviation "AllocClientStatusPending \<equiv> ''pending''"

definition scaleInCapacityThreshold :: float64 where
  "scaleInCapacityThreshold = Fin 90"

section \<open>client/nomad.go\<close>

definition NodeReverseLookup :: "env \<Rightarrow> string \<Rightarrow> string result act" where
  "NodeReverseLookup E allocID =
     bnd (alloc_info E allocID) (\<lambda>resp.
     case resp of
       Inl e \<Rightarrow> ret (Inl e)
     | Inr None \<Rightarrow> panic
     | Inr (Some a) \<Rightarrow>
         (if al_NodeID a = [] then ret (Inl (Errorf ''The node reverse lookup returned an empty result'' None))
          else ret (Inr (al_NodeID a))))"

definition set_metric :: "string \<Rightarrow> cluster_capacity \<Rightarrow> cluster_capacity" where
  "set_metric ty c = c\<lparr>cc_ScalingMetric := (cc_ScalingMetric c)\<lparr>sm_Type := ty\<rparr>\<rparr>"

definition MostUtilizedResource :: "cluster_capacity \<Rightarrow> cluster_capacity" where
  "MostUtilizedResource alloc =
     (let used = cc_UsedCapacity alloc in
      case Max_floats [ar_CPUPercent used, ar_MemoryPercent used, ar_DiskPercent used] of
        None \<Rightarrow> alloc
      | Some mx \<Rightarrow>
          (if feq mx (Fin 0) then set_metric ScalingMetricNone alloc
           else if feq mx (ar_CPUPercent used) then set_metric ScalingMetricProcessor alloc
           else if feq mx (ar_DiskPercent used) then set_metric ScalingMetricDisk alloc
           else if feq mx (ar_MemoryPercent used) then set_metric ScalingMetricMemory alloc
           else alloc))"

text \<open>The loop of \<open>LeastAllocatedNode\<close>; \<open>lowest\<close> starts at zero, which also means none yet.\<close>

definition metric_percent :: "string \<Rightarrow> allocation_resources \<Rightarrow> float64 option" where
  "metric_percent ty used =
     (if ty = ScalingMetricProcessor then Some (ar_CPUPercent used)
      else if ty = ScalingMetricMemory then Some (ar_MemoryPercent used)
      else if ty = ScalingMetricDisk then Some (ar_DiskPercent used)
      else None)"

fun least_allocated :: "string \<Rightarrow> string \<Rightarrow> node_allocation list \<Rightarrow> float64 \<times> string \<Rightarrow> float64 \<times> string" where
  "least_allocated ty protectedNode [] (lowest, nodeID) = (lowest, nodeID)"
| "least_allocated ty protectedNode (alloc # as) (lowest, nodeID) =
     least_allocated ty protectedNode as
       (if na_NodeID alloc = protectedNode then (lowest, nodeID)
        else case metric_percent ty (na_UsedCapacity alloc) of
               Some p \<Rightarrow> (if feq lowest (Fin 0) \<or> p < lowest then (p, na_NodeID alloc) else (lowest, nodeID))
             | None \<Rightarrow> (if ty = ScalingMetricNone then (lowest, na_NodeID alloc) else (lowest, nodeID)))"

definition LeastAllocatedNode :: "env \<Rightarrow> cluster_capacity \<Rightarrow> string \<Rightarrow> (string \<times> string) act" where
  "LeastAllocatedNode E capacity protectedNode =
     (let nodeID = snd (least_allocated (sm_Type (cc_ScalingMetric capacity)) protectedNode (cc_NodeAllocations capacity) (Fin 0, []))
      in bnd (node_info E nodeID) (\<lambda>resp.
         ret (nodeID, case resp of Inl e \<Rightarrow> [] | Inr nd \<Rightarrow> nd_IP nd)))"

definition active_allocation :: "allocation \<Rightarrow> bool" where
  "active_allocation a \<longleftrightarrow> al_ClientStatus a = AllocClientStatusRunning \<or> al_ClientStatus a = AllocClientStatusPending"

definition DrainNode :: "env \<Rightarrow> string \<Rightarrow> go_error option act" where
  "DrainNode E nodeID =
     bnd (update_drain E nodeID) (\<lambda>err.
     case err of
       Some e \<Rightarrow> ret (Some e)
     | None \<Rightarrow>
         bnd (node_info E nodeID) (\<lambda>resp.
         case resp of
           Inl e \<Rightarrow> ret (Some e)
         | Inr nd \<Rightarrow>
             (if \<not> nd_Drain nd then ret None
              else
                bnd (ticks E) (\<lambda>n.
                poll n
                  (\<lambda>_. bnd (node_allocs E nodeID) (\<lambda>resp.
                     case resp of
                       Inl e \<Rightarrow> ret (Inl (Some e))
                     | Inr allocations \<Rightarrow>
                         ret (if filter active_allocation allocations = [] then Inl None else Inr ())))
                  (\<lambda>_. ret None) ()))))"

fun healthy_in :: "env \<Rightarrow> string \<Rightarrow> node_stub list \<Rightarrow> bool act" where
  "healthy_in E nodeIP [] = ret False"
| "healthy_in E nodeIP (node # nodes) =
     (if ns_Status node \<noteq> ''ready'' then healthy_in E nodeIP nodes
      else
        bnd (node_info E (ns_ID node)) (\<lambda>resp.
        case resp of
          Inl e \<Rightarrow> panic
        | Inr nd \<Rightarrow> (if nd_IP nd = nodeIP then ret True else healthy_in E nodeIP nodes)))"

definition VerifyNodeHealth :: "env \<Rightarrow> string \<Rightarrow> bool act" where
  "VerifyNodeHealth E nodeIP =
     bnd (ticks E) (\<lambda>n.
     poll n
       (\<lambda>_. bnd (nodes_list E 0) (\<lambda>resp.
          case resp of
            Inl e \<Rightarrow> ret (Inl False)
          | Inr (nodes, idx) \<Rightarrow>
              bnd (healthy_in E nodeIP nodes) (\<lambda>ok. ret (if ok then Inl True else Inr ()))))
       (\<lambda>_. ret False) ())"

text \<open>\<open>None\<close> is the panic of the division by a node count of zero.\<close>

definition MaxAllowedClusterUtilization :: "cluster_capacity \<Rightarrow> int \<Rightarrow> bool \<Rightarrow> int option" where
  "MaxAllowedClusterUtilization capacity nodeFaultTolerance scaleIn =
     (let mem = (sm_Type (cc_ScalingMetric capacity) = ScalingMetricMemory);
          allocTotal = (if mem then ar_MemoryMB (cc_TaskAllocation capacity) else ar_CPUMHz (cc_TaskAllocation capacity));
          capacityTotal = (if mem then ar_MemoryMB (cc_TotalCapacity capacity) else ar_CPUMHz (cc_TotalCapacity capacity))
      in if cc_NodeCount capacity = 0 then None
         else
           let nodeAvgAlloc = i64 (tdiv capacityTotal (cc_NodeCount capacity));
               capacityTotal' = (if scaleIn then i64 (capacityTotal - nodeAvgAlloc) else capacityTotal)
           in Some (i64 (i64 (capacityTotal' - allocTotal) - i64 (nodeAvgAlloc * nodeFaultTolerance))))"

section \<open>client/cluster\_scaling.go\<close>

definition add_resources :: "resources \<Rightarrow> allocation_resources \<Rightarrow> allocation_resources" where
  "add_resources r a =
     a\<lparr>ar_CPUMHz := i64 (ar_CPUMHz a + rs_CPU r), ar_MemoryMB := i64 (ar_MemoryMB a + rs_MemoryMB r),
       ar_DiskMB := i64 (ar_DiskMB a + rs_DiskMB r)\<rparr>"

definition count_node :: "(string, node) gomap \<Rightarrow> string \<Rightarrow> cluster_capacity \<Rightarrow> cluster_capacity" where
  "count_node nodes k capacity =
     (case map_of nodes k of
        None \<Rightarrow> capacity
      | Some node \<Rightarrow>
          capacity\<lparr>cc_NodeCount := i64 (cc_NodeCount capacity + 1),
            cc_NodeList := cc_NodeList capacity @ [nd_ID node],
            cc_TotalCapacity := add_resources (nd_Resources node) (cc_TotalCapacity capacity)\<rparr>)"

definition calculatePoolCapacity :: "env \<Rightarrow> cluster_capacity \<Rightarrow> worker_pool \<Rightarrow> cluster_capacity act" where
  "calculatePoolCapacity E capacity workerPool =
     bnd (range_keys E (wp_Nodes workerPool)) (\<lambda>ks.
     ret (fold (count_node (wp_Nodes workerPool)) ks capacity))"

definition node_usage :: "allocation_resources \<Rightarrow> node_allocation \<Rightarrow> node_allocation" where
  "node_usage whole n =
     (let u = na_UsedCapacity n in
      n\<lparr>na_UsedCapacity := u\<lparr>ar_CPUPercent := PercentOf (ar_CPUMHz u) (ar_CPUMHz whole),
          ar_DiskPercent := PercentOf (ar_DiskMB u) (ar_DiskMB whole),
          ar_MemoryPercent := PercentOf (ar_MemoryMB u) (ar_MemoryMB whole)\<rparr>\<rparr>)"

definition CalculateUsage :: "cluster_capacity \<Rightarrow> cluster_capacity" where
  "CalculateUsage clusterInfo =
     (let used = cc_UsedCapacity clusterInfo; whole = cc_TotalCapacity clusterInfo;
          used' = used\<lparr>ar_CPUPercent := PercentOf (ar_CPUMHz used) (ar_CPUMHz whole),
            ar_DiskPercent := PercentOf (ar_DiskMB used) (ar_DiskMB whole),
            ar_MemoryPercent := PercentOf (ar_MemoryMB used) (ar_MemoryMB whole)\<rparr>
      in clusterInfo\<lparr>cc_UsedCapacity := used', cc_NodeAllocations := map (node_usage used') (cc_NodeAllocations clusterInfo)\<rparr>)"

definition counted :: "allocation \<Rightarrow> bool" where
  "counted a \<longleftrightarrow> al_ClientStatus a = TaskStateRunning \<and> al_DesiredStatus a = AllocDesiredStatusRun"

fun consume :: "allocation list \<Rightarrow> allocation_resources \<times> allocation_resources \<Rightarrow> allocation_resources \<times> allocation_resources" where
  "consume [] (pool, node) = (pool, node)"
| "consume (a # as) (pool, node) =
     consume as (if counted a then (add_resources (al_Resources a) pool, add_resources (al_Resources a) node)
                 else (pool, node))"

fun consumed_loop :: "env \<Rightarrow> string list \<Rightarrow> cluster_capacity \<Rightarrow> (cluster_capacity \<times> go_error option) act" where
  "consumed_loop E [] capacity = ret (capacity, None)"
| "consumed_loop E (node # nodes) capacity =
     bnd (node_allocs E node) (\<lambda>resp.
     case resp of
       Inl e \<Rightarrow> ret (capacity, Some e)
     | Inr allocations \<Rightarrow>
         (let (used, info) = consume allocations (cc_UsedCapacity capacity, no_resources)
          in consumed_loop E nodes
               (capacity\<lparr>cc_UsedCapacity := used,
                  cc_NodeAllocations := cc_NodeAllocations capacity @ [\<lparr>na_NodeID = node, na_UsedCapacity = info\<rparr>]\<rparr>)))"

definition calculatePoolConsumed :: "env \<Rightarrow> cluster_capacity \<Rightarrow> worker_pool \<Rightarrow> (cluster_capacity \<times> go_error option) act" where
  "calculatePoolConsumed E capacity workerPool =
     bnd (range_keys E (wp_Nodes workerPool)) (\<lambda>ks.
     bnd (consumed_loop E ks capacity) (\<lambda>(capacity', err).
     case err of
       Some e \<Rightarrow> ret (capacity', Some e)
     | None \<Rightarrow> ret (CalculateUsage capacity', None)))"

definition placed_on :: "worker_pool \<Rightarrow> allocation \<Rightarrow> bool" where
  "placed_on workerPool a \<longleftrightarrow> al_DesiredStatus a = AllocDesiredStatusRun \<and>
     al_ClientStatus a = AllocClientStatusRunning \<and> has_key (wp_Nodes workerPool) (al_NodeID a)"

definition checkJobPlacement :: "env \<Rightarrow> string \<Rightarrow> worker_pool \<Rightarrow> bool act" where
  "checkJobPlacement E job workerPool =
     bnd (job_allocs E job) (\<lambda>resp.
     case resp of Inl e \<Rightarrow> ret False | Inr allocs \<Rightarrow> ret (list_ex (placed_on workerPool) allocs))"

fun reserve_loop :: "env \<Rightarrow> worker_pool \<Rightarrow> string list \<Rightarrow> cluster_capacity \<Rightarrow> (cluster_capacity \<times> go_error option) act" where
  "reserve_loop E workerPool [] capacity = ret (capacity, None)"
| "reserve_loop E workerPool (jobName # jobNames) capacity =
     bnd (checkJobPlacement E jobName workerPool) (\<lambda>ok.
     if \<not> ok then reserve_loop E workerPool jobNames capacity
     else
       bnd (job_info E jobName) (\<lambda>resp.
       case resp of
         Inl e \<Rightarrow> ret (capacity, Some e)
       | Inr job \<Rightarrow>
           reserve_loop E workerPool jobNames
             (capacity\<lparr>cc_TaskAllocation :=
                fold add_resources (concat (map tg_Tasks (jb_TaskGroups job))) (cc_TaskAllocation capacity)\<rparr>)))"

definition calculateScalingReserve ::
  "env \<Rightarrow> cluster_capacity \<Rightarrow> job_policies \<Rightarrow> worker_pool \<Rightarrow> (cluster_capacity \<times> go_error option) act" where
  "calculateScalingReserve E capacity jobs workerPool =
     bnd (range_keys E (jp_Policies jobs)) (\<lambda>ks. reserve_loop E workerPool ks capacity)"

definition clusterScalingRequired :: "cluster_capacity \<Rightarrow> cluster_capacity \<times> bool" where
  "clusterScalingRequired capacity =
     (let ty = sm_Type (cc_ScalingMetric capacity);
          metric = (if ty = ScalingMetricMemory
                    then \<lparr>sm_Type = ty, sm_Capacity = ar_MemoryMB (cc_TotalCapacity capacity),
                          sm_Utilization = ar_MemoryMB (cc_UsedCapacity capacity)\<rparr>
                    else \<lparr>sm_Type = ty, sm_Capacity = ar_CPUMHz (cc_TotalCapacity capacity),
                          sm_Utilization = ar_CPUMHz (cc_UsedCapacity capacity)\<rparr>);
          dir1 = (if sm_Utilization metric < cc_MaxAllowedUtilization capacity \<or> ty = ScalingMetricNone
                  then ScalingDirectionIn else cc_ScalingDirection capacity);
          dir2 = (if cc_MaxAllowedUtilization capacity \<le> sm_Utilization metric \<and> ty \<noteq> ScalingDirectionNone
                  then ScalingDirectionOut else dir1)
      in (capacity\<lparr>cc_ScalingMetric := metric, cc_ScalingDirection := dir2\<rparr>, dir2 \<noteq> ScalingDirectionNone))"

definition ClusterScalingSafe :: "cluster_capacity \<Rightarrow> worker_pool \<Rightarrow> bool option" where
  "ClusterScalingSafe capacity workerPool =
     (let ty = sm_Type (cc_ScalingMetric capacity);
          poolUsedCapacity = (if ty = ScalingMetricProcessor then ar_CPUMHz (cc_UsedCapacity capacity)
            else if ty = ScalingMetricMemory then ar_MemoryMB (cc_UsedCapacity capacity) else 0)
      in if cc_ScalingDirection capacity = ScalingDirectionIn then
           (case MaxAllowedClusterUtilization capacity (wp_FaultTolerance workerPool) True of
              None \<Rightarrow> None
            | Some newMaxAllowedUtilization \<Rightarrow>
                let newClusterUtilization = PercentOf poolUsedCapacity newMaxAllowedUtilization in
                Some (\<not> (newMaxAllowedUtilization \<le> poolUsedCapacity \<or>
                          scaleInCapacityThreshold \<le> newClusterUtilization)))
         else Some True)"

definition EvaluatePoolScaling ::
  "env \<Rightarrow> cluster_capacity \<Rightarrow> worker_pool \<Rightarrow> job_policies \<Rightarrow> (cluster_capacity \<times> bool \<times> go_error option) act" where
  "EvaluatePoolScaling E capacity0 workerPool jobs =
     bnd (calculatePoolCapacity E capacity0 workerPool) (\<lambda>capacity1.
     bnd (calculatePoolConsumed E capacity1 workerPool) (\<lambda>(capacity2, err).
     case err of
       Some e \<Rightarrow> ret (capacity2, False, Some e)
     | None \<Rightarrow>
         bnd (calculateScalingReserve E capacity2 jobs workerPool) (\<lambda>(capacity3, err).
         case err of
           Some e \<Rightarrow> ret (capacity3, False, Some e)
         | None \<Rightarrow>
             (let capacity4 = MostUtilizedResource capacity3 in
              case MaxAllowedClusterUtilization capacity4 (wp_FaultTolerance workerPool) False of
                None \<Rightarrow> panic
              | Some m \<Rightarrow>
                  (let (capacity5, scale) = clusterScalingRequired (capacity4\<lparr>cc_MaxAllowedUtilization := m\<rparr>) in
                   if \<not> scale then ret (capacity5, False, None)
                   else case ClusterScalingSafe capacity5 workerPool of
                          None \<Rightarrow> panic
                        | Some safe \<Rightarrow> ret (capacity5, safe, None))))))"

section \<open>The interface and its contract\<close>

text \<open>
  The part of the \<open>NomadClient\<close> interface that cluster scaling calls.  An evaluation and the
  choice of a node read only; a chosen node is one of the nodes evaluated and never the
  protected one; draining changes the drain mode of the given node and nothing else.
\<close>

record nomad_cluster =
  nc_EvaluatePoolScaling :: "cluster_capacity \<Rightarrow> worker_pool \<Rightarrow> job_policies \<Rightarrow> (cluster_capacity \<times> bool \<times> go_error option) act"
  nc_LeastAllocatedNode :: "cluster_capacity \<Rightarrow> string \<Rightarrow> (string \<times> string) act"
  nc_DrainNode :: "string \<Rightarrow> go_error option act"
  nc_NodeReverseLookup :: "string \<Rightarrow> string result act"

definition nomadCluster :: "env \<Rightarrow> nomad_cluster" where
  "nomadCluster E = \<lparr>nc_EvaluatePoolScaling = EvaluatePoolScaling E, nc_LeastAllocatedNode = LeastAllocatedNode E,
     nc_DrainNode = DrainNode E, nc_NodeReverseLookup = NodeReverseLookup E\<rparr>"

lemma nomadCluster_sel [simp]:
  "nc_EvaluatePoolScaling (nomadCluster E) = EvaluatePoolScaling E"
  "nc_LeastAllocatedNode (nomadCluster E) = LeastAllocatedNode E"
  "nc_DrainNode (nomadCluster E) = DrainNode E"
  "nc_NodeReverseLookup (nomadCluster E) = NodeReverseLookup E"
  by (simp_all add: nomadCluster_def)

locale pool_evaluator =
  fixes N :: nomad_cluster
  assumes evaluate: "obeys reading (nc_EvaluatePoolScaling N cap pool jobs)
      (\<lambda>(cap', scale, err). scale \<longrightarrow> err = None \<and> cc_ScalingDirection cap' \<in> {ScalingDirectionIn, ScalingDirectionOut})"
    and least: "obeys reading (nc_LeastAllocatedNode N cap prot)
      (\<lambda>(nodeID, ip). nodeID = [] \<or> nodeID \<noteq> prot \<and> nodeID \<in> na_NodeID ` set (cc_NodeAllocations cap))"
    and drain: "obeys (\<lambda>e. reading e \<or> e = UpdateDrain n) (nc_DrainNode N n) (\<lambda>_. True)"
    and lookup: "obeys reading (nc_NodeReverseLookup N a) (\<lambda>_. True)"

lemma scaling_required:
  "snd (clusterScalingRequired c)"
  "cc_ScalingDirection (fst (clusterScalingRequired c)) \<in> {ScalingDirectionIn, ScalingDirectionOut}"
  by (auto simp: clusterScalingRequired_def Let_def)

lemma scaling_required_dir:
  "clusterScalingRequired c = (c', b) \<Longrightarrow>
     b \<and> (cc_ScalingDirection c' = ScalingDirectionIn \<or> cc_ScalingDirection c' = ScalingDirectionOut)"
  using scaling_required [of c] by auto

lemma consumed_loop_reading: "obeys reading (consumed_loop E ks c) (\<lambda>_. True)"
  by (induction ks arbitrary: c)
    (auto intro!: obeys_intro obeys_bnd_any simp: node_allocs_def split: prod.splits sum.splits)

lemma reserve_loop_reading: "obeys reading (reserve_loop E p ks c) (\<lambda>_. True)"
  by (induction ks arbitrary: c)
    (auto intro!: obeys_intro obeys_bnd_any simp: checkJobPlacement_def job_allocs_def job_info_def split: sum.splits)

lemma EvaluatePoolScaling_obeys:
  "obeys reading (EvaluatePoolScaling E c p jobs)
     (\<lambda>(c', scale, err). scale \<longrightarrow> err = None \<and> cc_ScalingDirection c' \<in> {ScalingDirectionIn, ScalingDirectionOut})"
proof -
  have A: "obeys reading (calculatePoolCapacity E c p) (\<lambda>_. True)" for c
    unfolding calculatePoolCapacity_def range_keys_def by (intro obeys_bnd_any obeys_intro TrueI)
  have B: "obeys reading (calculatePoolConsumed E c p) (\<lambda>_. True)" for c
    unfolding calculatePoolConsumed_def range_keys_def
    by (intro obeys_bnd_any obeys_intro consumed_loop_reading TrueI)
  have D: "obeys reading (calculateScalingReserve E c jobs p) (\<lambda>_. True)" for c
    unfolding calculateScalingReserve_def range_keys_def
    by (intro obeys_bnd_any obeys_intro reserve_loop_reading TrueI)
  show ?thesis
    unfolding EvaluatePoolScaling_def Let_def
    by (intro obeys_bnd_any [OF A] obeys_bnd_any [OF B] obeys_bnd_any [OF D] obeys_prod obeys_option obeys_ret obeys_panic obeys_if)
      (auto dest: scaling_required_dir)
qed

lemma least_allocated_in:
  "snd (least_allocated ty prot as (l, n)) = n \<or>
     snd (least_allocated ty prot as (l, n)) \<noteq> prot \<and> snd (least_allocated ty prot as (l, n)) \<in> na_NodeID ` set as"
proof (induction as arbitrary: l n)
  case (Cons a as)
  obtain l' n' where s: "(if na_NodeID a = prot then (l, n)
        else case metric_percent ty (na_UsedCapacity a) of
               Some p \<Rightarrow> (if feq l (Fin 0) \<or> p < l then (p, na_NodeID a) else (l, n))
             | None \<Rightarrow> (if ty = ScalingMetricNone then (l, na_NodeID a) else (l, n))) = (l', n')" by fastforce
  then have "n' = n \<or> n' = na_NodeID a \<and> n' \<noteq> prot" by (auto split: if_splits option.splits)
  with Cons.IH [of l' n'] s show ?case by auto
qed simp

lemma LeastAllocatedNode_obeys:
  "obeys reading (LeastAllocatedNode E c prot)
     (\<lambda>(nodeID, ip). nodeID = [] \<or> nodeID \<noteq> prot \<and> nodeID \<in> na_NodeID ` set (cc_NodeAllocations c))"
  unfolding LeastAllocatedNode_def node_info_def Let_def
  by (intro obeys_bnd_any obeys_intro)
    (use least_allocated_in [of "sm_Type (cc_ScalingMetric c)" prot "cc_NodeAllocations c" "Fin 0" "[]"] in auto)

lemma DrainNode_obeys: "obeys (\<lambda>e. reading e \<or> e = UpdateDrain n) (DrainNode E n) (\<lambda>_. True)"
  unfolding DrainNode_def api_defs
  by (intro obeys_bnd_any obeys_intro obeys_poll [where I = "\<lambda>_. True"]) (auto split: sum.splits)

lemma NodeReverseLookup_obeys: "obeys reading (NodeReverseLookup E a) (\<lambda>_. True)"
  unfolding NodeReverseLookup_def alloc_info_def by (intro obeys_bnd_any obeys_intro) auto

interpretation nomad: pool_evaluator "nomadCluster E" for E
  by unfold_locales
    (simp_all add: EvaluatePoolScaling_obeys LeastAllocatedNode_obeys DrainNode_obeys NodeReverseLookup_obeys
      del: insert_iff)

section \<open>What is counted\<close>

text \<open>Sums of resources; the order of the terms does not matter, and a sum wraps only once.\<close>

definition sum_cpu :: "resources list \<Rightarrow> int" where "sum_cpu rs = sum_list (map rs_CPU rs)"
definition sum_mem :: "resources list \<Rightarrow> int" where "sum_mem rs = sum_list (map rs_MemoryMB rs)"
definition sum_disk :: "resources list \<Rightarrow> int" where "sum_disk rs = sum_list (map rs_DiskMB rs)"

definition has_sums :: "allocation_resources \<Rightarrow> resources list \<Rightarrow> bool" where
  "has_sums a rs \<longleftrightarrow> ar_CPUMHz a = i64 (sum_cpu rs) \<and> ar_MemoryMB a = i64 (sum_mem rs) \<and> ar_DiskMB a = i64 (sum_disk rs)"

lemma has_sums_Nil [simp]: "has_sums no_resources []"
  by (simp add: has_sums_def no_resources_def sum_cpu_def sum_mem_def sum_disk_def)

lemma has_sums_add: "has_sums a rs \<Longrightarrow> has_sums (add_resources r a) (rs @ [r])"
  by (simp add: has_sums_def add_resources_def sum_cpu_def sum_mem_def sum_disk_def)

lemma has_sums_fold: "has_sums a rs \<Longrightarrow> has_sums (fold add_resources qs a) (rs @ qs)"
proof (induction qs arbitrary: a rs)
  case (Cons q qs)
  from Cons.IH [OF has_sums_add [OF Cons.prems]] show ?case by simp
qed simp

lemma has_sums_perm: "has_sums a rs \<Longrightarrow> mset rs = mset qs \<Longrightarrow> has_sums a qs"
  unfolding has_sums_def sum_cpu_def sum_mem_def sum_disk_def by (metis mset_map sum_mset_sum_list)

definition node_resources :: "(string, node) gomap \<Rightarrow> resources list" where
  "node_resources ns = map (nd_Resources \<circ> snd) ns"

lemma map_of_keys: "wf_map m \<Longrightarrow> map (\<lambda>k. the (map_of m k)) (map fst m) = map snd m"
  by (auto simp: wf_map_def intro!: map_cong)

lemma count_nodes_fold:
  assumes "\<forall>k \<in> set ks. has_key ns k"
  shows "fold (count_node ns) ks c = c\<lparr>
     cc_NodeCount := (if ks = [] then cc_NodeCount c else i64 (cc_NodeCount c + int (length ks))),
     cc_NodeList := cc_NodeList c @ map (\<lambda>k. nd_ID (the (map_of ns k))) ks,
     cc_TotalCapacity := fold add_resources (map (\<lambda>k. nd_Resources (the (map_of ns k))) ks) (cc_TotalCapacity c)\<rparr>"
  using assms
proof (induction ks arbitrary: c)
  case (Cons k ks)
  then obtain nd where nd: "map_of ns k = Some nd" by auto
  have c: "count_node ns k c = c\<lparr>cc_NodeCount := i64 (cc_NodeCount c + 1), cc_NodeList := cc_NodeList c @ [nd_ID nd],
      cc_TotalCapacity := add_resources (nd_Resources nd) (cc_TotalCapacity c)\<rparr>"
    by (simp add: count_node_def nd)
  have "fold (count_node ns) (k # ks) c = fold (count_node ns) ks (count_node ns k c)" by simp
  also have "\<dots> = (count_node ns k c)\<lparr>
     cc_NodeCount := (if ks = [] then cc_NodeCount (count_node ns k c) else i64 (cc_NodeCount (count_node ns k c) + int (length ks))),
     cc_NodeList := cc_NodeList (count_node ns k c) @ map (\<lambda>k. nd_ID (the (map_of ns k))) ks,
     cc_TotalCapacity := fold add_resources (map (\<lambda>k. nd_Resources (the (map_of ns k))) ks) (cc_TotalCapacity (count_node ns k c))\<rparr>"
    using Cons by simp
  finally show ?case unfolding c by (simp add: nd algebra_simps)
qed simp

lemma calculatePoolCapacity_run:
  assumes wf: "wf_map (wp_Nodes p)"
  obtains c where "calculatePoolCapacity E empty_capacity p h = (Ret c, h)"
    and "cc_NodeCount c = i64 (int (length (wp_Nodes p)))"
    and "has_sums (cc_TotalCapacity c) (node_resources (wp_Nodes p))"
    and "mset (cc_NodeList c) = mset (map (nd_ID \<circ> snd) (wp_Nodes p))"
    and "c = empty_capacity\<lparr>cc_NodeCount := cc_NodeCount c, cc_NodeList := cc_NodeList c, cc_TotalCapacity := cc_TotalCapacity c\<rparr>"
proof -
  define ks where "ks = range_order (en_order E h) (wp_Nodes p)"
  define c where "c = fold (count_node (wp_Nodes p)) ks empty_capacity"
  have r: "calculatePoolCapacity E empty_capacity p h = (Ret c, h)"
    by (simp add: calculatePoolCapacity_def range_keys_def bnd_ask ret_app c_def ks_def)
  have "\<forall>k \<in> set ks. has_key (wp_Nodes p) k" by (auto simp: ks_def dest: weak_map_of_SomeI)
  note c' = count_nodes_fold [OF this, of empty_capacity, folded c_def]
  let ?f = "\<lambda>k. the (map_of (wp_Nodes p) k)"
  have m: "mset (map ?f ks) = mset (map snd (wp_Nodes p))"
    using map_of_keys [OF wf] mset_range_order [of "en_order E h" "wp_Nodes p"] unfolding ks_def by (metis mset_map)
  have "has_sums (fold add_resources (map (nd_Resources \<circ> ?f) ks) no_resources) (map (nd_Resources \<circ> ?f) ks)"
    using has_sums_fold [OF has_sums_Nil] by simp
  moreover have "mset (map (nd_Resources \<circ> ?f) ks) = mset (node_resources (wp_Nodes p))"
    using m unfolding node_resources_def by (metis map_map mset_map)
  ultimately have "has_sums (cc_TotalCapacity c) (node_resources (wp_Nodes p))"
    using has_sums_perm by (simp add: c' empty_capacity_def comp_def)
  moreover have "mset (map (nd_ID \<circ> ?f) ks) = mset (map (nd_ID \<circ> snd) (wp_Nodes p))"
    using m by (metis map_map mset_map)
  moreover have "length ks = length (wp_Nodes p)" by (simp add: ks_def)
  ultimately show thesis
    using r by (intro that [of c]) (auto simp: c' empty_capacity_def comp_def)
qed

text \<open>
  C15: the capacity of a pool is that of its nodes: whatever order the nodes are visited in,
  every node is counted once, and total processor, memory and disk capacity are the sums
  over the nodes (wrapped to 64 bits once, not per node).
\<close>

theorem pool_capacity_total:
  assumes "wf_map (wp_Nodes p)"
  shows "\<exists>c. calculatePoolCapacity E empty_capacity p h = (Ret c, h) \<and>
    cc_NodeCount c = i64 (int (length (wp_Nodes p))) \<and>
    mset (cc_NodeList c) = mset (map (nd_ID \<circ> snd) (wp_Nodes p)) \<and>
    ar_CPUMHz (cc_TotalCapacity c) = i64 (\<Sum>(k, nd) \<leftarrow> wp_Nodes p. rs_CPU (nd_Resources nd)) \<and>
    ar_MemoryMB (cc_TotalCapacity c) = i64 (\<Sum>(k, nd) \<leftarrow> wp_Nodes p. rs_MemoryMB (nd_Resources nd)) \<and>
    ar_DiskMB (cc_TotalCapacity c) = i64 (\<Sum>(k, nd) \<leftarrow> wp_Nodes p. rs_DiskMB (nd_Resources nd))"
proof -
  obtain c where c: "calculatePoolCapacity E empty_capacity p h = (Ret c, h)"
    "cc_NodeCount c = i64 (int (length (wp_Nodes p)))" "has_sums (cc_TotalCapacity c) (node_resources (wp_Nodes p))"
    "mset (cc_NodeList c) = mset (map (nd_ID \<circ> snd) (wp_Nodes p))"
    by (rule calculatePoolCapacity_run [OF assms])
  have S: "(\<Sum>(k, nd) \<leftarrow> m. f (nd_Resources nd)) = sum_list (map f (node_resources m))"
    for f :: "resources \<Rightarrow> int" and m
    by (simp add: node_resources_def comp_def case_prod_unfold)
  show ?thesis unfolding S using c by (simp add: has_sums_def sum_cpu_def sum_mem_def sum_disk_def)
qed

theorem pool_capacity_total_witness:
  "\<exists>c. calculatePoolCapacity ref_env empty_capacity demo_pool [] = (Ret c, []) \<and> cc_NodeCount c = 2 \<and>
     ar_CPUMHz (cc_TotalCapacity c) = 2000"
proof -
  have "wf_map (wp_Nodes demo_pool)" by (simp add: wf_map_def demo_pool_def)
  from pool_capacity_total [OF this, of ref_env "[]"] show ?thesis
    by (auto simp: demo_pool_def demo_node_def)
qed

text \<open>Consumption: one record per node, and the pool's consumption is the sum of its nodes'.\<close>

definition node_sum :: "(allocation_resources \<Rightarrow> int) \<Rightarrow> node_allocation list \<Rightarrow> int" where
  "node_sum f as = (\<Sum>a \<leftarrow> as. f (na_UsedCapacity a))"

definition consumption_inv :: "cluster_capacity \<Rightarrow> bool" where
  "consumption_inv c \<longleftrightarrow>
     ar_CPUMHz (cc_UsedCapacity c) = i64 (node_sum ar_CPUMHz (cc_NodeAllocations c)) \<and>
     ar_MemoryMB (cc_UsedCapacity c) = i64 (node_sum ar_MemoryMB (cc_NodeAllocations c)) \<and>
     ar_DiskMB (cc_UsedCapacity c) = i64 (node_sum ar_DiskMB (cc_NodeAllocations c))"

lemma consume_sums:
  assumes "consume as (p, n) = (p', n')"
  shows "i64 (ar_CPUMHz p' - ar_CPUMHz n') = i64 (ar_CPUMHz p - ar_CPUMHz n)"
    and "i64 (ar_MemoryMB p' - ar_MemoryMB n') = i64 (ar_MemoryMB p - ar_MemoryMB n)"
    and "i64 (ar_DiskMB p' - ar_DiskMB n') = i64 (ar_DiskMB p - ar_DiskMB n)"
proof -
  have d: "i64 (i64 (x + z) - i64 (y + z)) = i64 (x - y)" for x y z
    by (simp add: i64_def mod_simps algebra_simps)
  have "i64 (ar_CPUMHz p' - ar_CPUMHz n') = i64 (ar_CPUMHz p - ar_CPUMHz n) \<and>
    i64 (ar_MemoryMB p' - ar_MemoryMB n') = i64 (ar_MemoryMB p - ar_MemoryMB n) \<and>
    i64 (ar_DiskMB p' - ar_DiskMB n') = i64 (ar_DiskMB p - ar_DiskMB n)"
    using assms
    by (induction as arbitrary: p n) (auto simp: add_resources_def d split: if_splits)
  then show "i64 (ar_CPUMHz p' - ar_CPUMHz n') = i64 (ar_CPUMHz p - ar_CPUMHz n)"
    and "i64 (ar_MemoryMB p' - ar_MemoryMB n') = i64 (ar_MemoryMB p - ar_MemoryMB n)"
    and "i64 (ar_DiskMB p' - ar_DiskMB n') = i64 (ar_DiskMB p - ar_DiskMB n)" by blast+
qed

lemma consume_norm:
  assumes "consume as (p, n) = (p', n')"
  shows "i64 (ar_CPUMHz p) = ar_CPUMHz p \<Longrightarrow> i64 (ar_CPUMHz p') = ar_CPUMHz p'"
    and "i64 (ar_MemoryMB p) = ar_MemoryMB p \<Longrightarrow> i64 (ar_MemoryMB p') = ar_MemoryMB p'"
    and "i64 (ar_DiskMB p) = ar_DiskMB p \<Longrightarrow> i64 (ar_DiskMB p') = ar_DiskMB p'"
proof -
  have "(i64 (ar_CPUMHz p) = ar_CPUMHz p \<longrightarrow> i64 (ar_CPUMHz p') = ar_CPUMHz p') \<and>
    (i64 (ar_MemoryMB p) = ar_MemoryMB p \<longrightarrow> i64 (ar_MemoryMB p') = ar_MemoryMB p') \<and>
    (i64 (ar_DiskMB p) = ar_DiskMB p \<longrightarrow> i64 (ar_DiskMB p') = ar_DiskMB p')"
    using assms
  proof (induction as arbitrary: p n)
    case (Cons a as)
    obtain q m where q: "(if counted a then (add_resources (al_Resources a) p, add_resources (al_Resources a) n) else (p, n)) = (q, m)"
      by fastforce
    with Cons.prems have "consume as (q, m) = (p', n')" by simp
    from Cons.IH [OF this] q show ?case by (auto simp: add_resources_def split: if_splits)
  qed simp
  then show "i64 (ar_CPUMHz p) = ar_CPUMHz p \<Longrightarrow> i64 (ar_CPUMHz p') = ar_CPUMHz p'"
    and "i64 (ar_MemoryMB p) = ar_MemoryMB p \<Longrightarrow> i64 (ar_MemoryMB p') = ar_MemoryMB p'"
    and "i64 (ar_DiskMB p) = ar_DiskMB p \<Longrightarrow> i64 (ar_DiskMB p') = ar_DiskMB p'" by blast+
qed

lemma i64_add_node: "i64 (p' - n') = i64 (i64 s - 0) \<Longrightarrow> i64 p' = p' \<Longrightarrow> p' = i64 (s + n')"
  by (metis diff_zero i64_add i64_idem diff_add_cancel)

lemma consumption_step:
  assumes inv: "consumption_inv c" and r: "consume as (cc_UsedCapacity c, no_resources) = (used, info)"
  shows "consumption_inv (c\<lparr>cc_UsedCapacity := used,
    cc_NodeAllocations := cc_NodeAllocations c @ [\<lparr>na_NodeID = k, na_UsedCapacity = info\<rparr>]\<rparr>)"
proof -
  have z: "ar_CPUMHz no_resources = 0" "ar_MemoryMB no_resources = 0" "ar_DiskMB no_resources = 0"
    by (simp_all add: no_resources_def)
  have norm: "i64 (ar_CPUMHz (cc_UsedCapacity c)) = ar_CPUMHz (cc_UsedCapacity c)"
    "i64 (ar_MemoryMB (cc_UsedCapacity c)) = ar_MemoryMB (cc_UsedCapacity c)"
    "i64 (ar_DiskMB (cc_UsedCapacity c)) = ar_DiskMB (cc_UsedCapacity c)"
    using inv by (simp_all add: consumption_inv_def)
  have "ar_CPUMHz used = i64 (node_sum ar_CPUMHz (cc_NodeAllocations c) + ar_CPUMHz info)"
    "ar_MemoryMB used = i64 (node_sum ar_MemoryMB (cc_NodeAllocations c) + ar_MemoryMB info)"
    "ar_DiskMB used = i64 (node_sum ar_DiskMB (cc_NodeAllocations c) + ar_DiskMB info)"
    using consume_sums [OF r] consume_norm [OF r] norm inv unfolding z consumption_inv_def
    by (metis i64_add_node)+
  then show ?thesis by (simp add: consumption_inv_def node_sum_def)
qed

lemma consumed_loop_obeys:
  assumes P: "\<And>n. P (NodeAllocations n)" and "consumption_inv c"
  shows "obeys P (consumed_loop E ks c) (\<lambda>(c', err). consumption_inv c' \<and>
     (err = None \<longrightarrow> map na_NodeID (cc_NodeAllocations c') = map na_NodeID (cc_NodeAllocations c) @ ks))"
  using assms(2)
proof (induction ks arbitrary: c)
  case Nil
  then show ?case by (simp add: obeys_ret)
next
  case (Cons k ks)
  show ?case
    unfolding consumed_loop.simps node_allocs_def
  proof (intro obeys_bnd_any [OF obeys_call] obeys_sum obeys_ret obeys_Let obeys_prod)
    fix resp as used info
    assume "resp = Inr as" and r: "consume as (cc_UsedCapacity c, no_resources) = (used, info)"
    from Cons.IH [OF consumption_step [OF Cons.prems r, of k]]
    show "obeys P (consumed_loop E ks (c\<lparr>cc_UsedCapacity := used,
        cc_NodeAllocations := cc_NodeAllocations c @ [\<lparr>na_NodeID = k, na_UsedCapacity = info\<rparr>]\<rparr>))
      (\<lambda>(c', err). consumption_inv c' \<and>
     (err = None \<longrightarrow> map na_NodeID (cc_NodeAllocations c') = map na_NodeID (cc_NodeAllocations c) @ k # ks))"
      by (rule obeys_post) auto
  qed (use P Cons.prems in auto)
qed

lemma CalculateUsage_consumption: "consumption_inv c \<Longrightarrow> consumption_inv (CalculateUsage c)"
  by (simp add: consumption_inv_def CalculateUsage_def Let_def node_sum_def node_usage_def comp_def)

lemma CalculateUsage_ids: "map na_NodeID (cc_NodeAllocations (CalculateUsage c)) = map na_NodeID (cc_NodeAllocations c)"
  by (simp add: CalculateUsage_def Let_def node_usage_def comp_def)


definition demo_alloc :: allocation where
  "demo_alloc = \<lparr>al_ID = ''a1'', al_NodeID = ''n1'', al_ClientStatus = ''running'', al_DesiredStatus = ''run'',
     al_Resources = \<lparr>rs_CPU = 300, rs_MemoryMB = 200, rs_DiskMB = 100\<rparr>\<rparr>"

definition pool_env :: env where
  "pool_env = ref_env\<lparr>en_node_allocs := (\<lambda>_ n. Inr [demo_alloc, demo_alloc\<lparr>al_ClientStatus := ''complete''\<rparr>]),
     en_node_info := (\<lambda>_ n. Inr (demo_node\<lparr>nd_ID := n, nd_Drain := True\<rparr>))\<rparr>"


section \<open>What is decided\<close>

text \<open>
  The scaling metric is the most utilised resource: when no percentage is undefined, the
  metric is none exactly when the greatest percentage is zero, and otherwise names a
  resource whose percentage no other one exceeds.
\<close>

theorem most_utilized_is_max:
  assumes "ar_CPUPercent u \<noteq> NaN" and "ar_MemoryPercent u \<noteq> NaN" and "ar_DiskPercent u \<noteq> NaN"
    and "u = cc_UsedCapacity c"
  shows "let ty = sm_Type (cc_ScalingMetric (MostUtilizedResource c)) in
    (case metric_percent ty u of
       Some m \<Rightarrow> m \<noteq> Fin 0 \<and> (\<forall>x \<in> {ar_CPUPercent u, ar_MemoryPercent u, ar_DiskPercent u}. \<not> m < x)
     | None \<Rightarrow> ty = ScalingMetricNone \<and> Fin 0 \<in> {ar_CPUPercent u, ar_MemoryPercent u, ar_DiskPercent u} \<and>
         (\<forall>x \<in> {ar_CPUPercent u, ar_MemoryPercent u, ar_DiskPercent u}. \<not> Fin 0 < x))"
proof -
  let ?vs = "[ar_CPUPercent u, ar_MemoryPercent u, ar_DiskPercent u]"
  obtain m where m: "Max_floats ?vs = Some m" by simp
  have nan: "\<forall>v \<in> set ?vs. v \<noteq> NaN" using assms by simp
  have mem: "m \<in> set ?vs" and max: "\<forall>v \<in> set ?vs. \<not> m < v"
    using fold_max_bound [OF nan] m by auto
  have feq: "feq m x \<longleftrightarrow> m = x" for x using mem nan by (intro feq_iff) auto
  define ty where "ty = (if m = Fin 0 then ScalingMetricNone else if m = ar_CPUPercent u then ScalingMetricProcessor
     else if m = ar_DiskPercent u then ScalingMetricDisk else ScalingMetricMemory)"
  have "sm_Type (cc_ScalingMetric (MostUtilizedResource c)) = ty"
    using m mem unfolding MostUtilizedResource_def assms(4) [symmetric] Let_def
    by (auto simp: feq set_metric_def ty_def simp del: Max_floats.simps)
  moreover have "metric_percent ty u = (if m = Fin 0 then None else Some m)"
    using mem by (auto simp: ty_def metric_percent_def)
  ultimately show ?thesis using mem max by (auto simp: ty_def)
qed

theorem most_utilized_is_max_witness:
  "sm_Type (cc_ScalingMetric (MostUtilizedResource (empty_capacity\<lparr>cc_UsedCapacity :=
     no_resources\<lparr>ar_CPUPercent := Fin 20, ar_MemoryPercent := Fin 30\<rparr>\<rparr>))) = ScalingMetricMemory"
  using most_utilized_is_max [of "no_resources\<lparr>ar_CPUPercent := Fin 20, ar_MemoryPercent := Fin 30\<rparr>"
    "empty_capacity\<lparr>cc_UsedCapacity := no_resources\<lparr>ar_CPUPercent := Fin 20, ar_MemoryPercent := Fin 30\<rparr>\<rparr>"]
  by (simp add: MostUtilizedResource_def no_resources_def empty_capacity_def set_metric_def metric_percent_def)

text \<open>
  An evaluation always asks for a scaling operation: the direction is out exactly when
  a metric is in use and utilisation has reached the allowed maximum, and in otherwise; the
  direction \<open>None\<close> that the code tests for never results, so a pool that is exactly right
  is still asked to shrink.
\<close>

theorem scaling_direction:
  "clusterScalingRequired c = (c', scale) \<Longrightarrow> scale \<and>
    cc_ScalingDirection c' =
      (if sm_Type (cc_ScalingMetric c) \<noteq> ScalingMetricNone \<and>
          cc_MaxAllowedUtilization c \<le> (if sm_Type (cc_ScalingMetric c) = ScalingMetricMemory
             then ar_MemoryMB (cc_UsedCapacity c) else ar_CPUMHz (cc_UsedCapacity c))
       then ScalingDirectionOut else ScalingDirectionIn)"
  by (auto simp: clusterScalingRequired_def Let_def split: if_splits)

theorem scaling_direction_witness:
  "\<exists>c'. clusterScalingRequired (empty_capacity\<lparr>cc_MaxAllowedUtilization := 5\<rparr>) = (c', True) \<and>
     cc_ScalingDirection c' = ScalingDirectionIn"
proof -
  obtain c' s where r: "clusterScalingRequired (empty_capacity\<lparr>cc_MaxAllowedUtilization := 5\<rparr>) = (c', s)" by fastforce
  from scaling_direction [OF r] r show ?thesis by (auto simp: empty_capacity_def no_resources_def)
qed

text \<open>The float comparison of the safety check decides the exact one.\<close>

lemma percent_below_90:
  assumes "0 \<le> u" and "u < 2 ^ 40" and "0 < m" and "m < 2 ^ 40" and "\<not> Fin 90 \<le> PercentOf u m"
  shows "10 * u < 9 * m"
proof (rule ccontr)
  assume "\<not> 10 * u < 9 * m"
  then have ge: "9 * m \<le> 10 * u" by simp
  have u: "float_of_int u = Fin (of_int u)" and m: "float_of_int m = Fin (of_int m)" and h: "float_of_int 100 = Fin 100"
    using assms by (auto simp: float_of_int_exact)
  have "rnd (of_int u * 100) = of_int (u * 100)" using rnd_int [of "u * 100"] assms by simp
  then have p: "PercentOf u m = Fin (rnd (of_int (u * 100) / of_int m))"
    using assms by (simp add: PercentOf_def u m h)
  have "(90 :: rat) = of_int (90 * m) / of_int m" using assms(3) by simp
  also have "\<dots> \<le> of_int (u * 100) / of_int m"
  proof (rule divide_right_mono)
    show "(of_int (90 * m) :: rat) \<le> of_int (u * 100)" unfolding of_int_le_iff using ge by linarith
  qed (use assms(3) in simp)
  finally have "rnd 90 \<le> rnd (of_int (u * 100) / of_int m)" by (rule rnd_mono)
  then have "90 \<le> rnd (of_int (u * 100) / of_int m)" by simp
  with assms(5) show False by (simp add: p)
qed

lemma i64_small_diff:
  "0 \<le> y \<Longrightarrow> y \<le> x \<Longrightarrow> x < 2 ^ 40 \<Longrightarrow> 0 \<le> a \<Longrightarrow> a < 2 ^ 40 \<Longrightarrow> 0 \<le> z \<Longrightarrow> z \<le> 2 ^ 60 \<Longrightarrow>
     i64 (x - y - a - z) = x - y - a - z"
  by (rule i64_id) simp

lemma max_allowed_scale_in:
  assumes "MaxAllowedClusterUtilization c ft True = Some m" and "0 < cc_NodeCount c"
    and ty: "sm_Type (cc_ScalingMetric c) = ScalingMetricProcessor"
    and b: "0 \<le> ar_CPUMHz (cc_TotalCapacity c)" "ar_CPUMHz (cc_TotalCapacity c) < 2 ^ 40"
      "0 \<le> ar_CPUMHz (cc_TaskAllocation c)" "ar_CPUMHz (cc_TaskAllocation c) < 2 ^ 40" "0 \<le> ft" "ft < 2 ^ 20"
  shows "m = ar_CPUMHz (cc_TotalCapacity c) - ar_CPUMHz (cc_TaskAllocation c) -
    (ft + 1) * (ar_CPUMHz (cc_TotalCapacity c) div cc_NodeCount c)"
proof -
  let ?t = "ar_CPUMHz (cc_TotalCapacity c)" and ?n = "cc_NodeCount c" and ?a = "ar_CPUMHz (cc_TaskAllocation c)"
  have "?t div ?n \<le> ?t div 1" by (rule zdiv_mono2) (use b assms(2) in auto)
  then have avg: "0 \<le> ?t div ?n" "?t div ?n \<le> ?t"
    using b(1) assms(2) by (simp_all add: pos_imp_zdiv_nonneg_iff)
  have "?t div ?n * ft \<le> 2 ^ 40 * 2 ^ 20" using avg b by (intro mult_mono) auto
  moreover have "0 \<le> ?t div ?n * ft" using avg b by simp
  ultimately have ft: "0 \<le> ?t div ?n * ft" "?t div ?n * ft \<le> 2 ^ 60" by simp_all
  have i: "i64 (?t div ?n * ft) = ?t div ?n * ft" by (rule i64_id) (use ft in simp)
  have j: "i64 (?t div ?n) = ?t div ?n" by (rule i64_id) (use avg b in simp)
  have k: "i64 (?t - ?t div ?n) = ?t - ?t div ?n" by (rule i64_id) (use avg b in simp)
  have l: "i64 (?t - ?t div ?n - ?a) = ?t - ?t div ?n - ?a" by (rule i64_id) (use avg b in simp)
  have m: "i64 (?t - ?t div ?n - ?a - ?t div ?n * ft) = ?t - ?t div ?n - ?a - ?t div ?n * ft"
    by (rule i64_small_diff) (use avg b ft in auto)
  have "MaxAllowedClusterUtilization c ft True = Some (?t - ?t div ?n - ?a - ?t div ?n * ft)"
    using assms(2) ty b(1) by (simp add: MaxAllowedClusterUtilization_def Let_def tdiv_nonneg i j k l m)
  with assms(1) show ?thesis by (simp add: algebra_simps)
qed


definition demo_capacity :: cluster_capacity where
  "demo_capacity = empty_capacity\<lparr>cc_NodeCount := 4, cc_ScalingMetric := \<lparr>sm_Type = ScalingMetricProcessor, sm_Capacity = 4000, sm_Utilization = 500\<rparr>,
     cc_TotalCapacity := no_resources\<lparr>ar_CPUMHz := 4000\<rparr>, cc_UsedCapacity := no_resources\<lparr>ar_CPUMHz := 500\<rparr>,
     cc_TaskAllocation := no_resources\<lparr>ar_CPUMHz := 100\<rparr>, cc_ScalingDirection := ScalingDirectionIn\<rparr>"


text \<open>
  With disk as the most utilised resource the safety of a scale-in is judged as if the
  pool used nothing: it is permitted whenever any processor capacity would remain, however
  much processor, memory or disk is in use.
\<close>

theorem disk_metric_ignores_usage:
  assumes "sm_Type (cc_ScalingMetric c) = ScalingMetricDisk" and "cc_ScalingDirection c = ScalingDirectionIn"
    and "MaxAllowedClusterUtilization c (wp_FaultTolerance p) True = Some m" and "0 < m"
  shows "ClusterScalingSafe (c\<lparr>cc_UsedCapacity := u\<rparr>) p = Some True"
proof -
  have "MaxAllowedClusterUtilization (c\<lparr>cc_UsedCapacity := u\<rparr>) (wp_FaultTolerance p) True = Some m"
    using assms(3) by (simp add: MaxAllowedClusterUtilization_def cong: if_cong)
  moreover have "PercentOf 0 m = Fin 0"
  proof -
    have "rnd (of_int m) \<noteq> 0" using assms(4) by simp
    then show ?thesis by (simp add: PercentOf_def float_of_int_def)
  qed
  ultimately show ?thesis
    using assms by (simp add: ClusterScalingSafe_def Let_def scaleInCapacityThreshold_def)
qed

theorem disk_metric_ignores_usage_witness:
  "ClusterScalingSafe (demo_capacity\<lparr>cc_ScalingMetric := \<lparr>sm_Type = ScalingMetricDisk, sm_Capacity = 0, sm_Utilization = 0\<rparr>,
     cc_UsedCapacity := no_resources\<lparr>ar_CPUMHz := 4000, ar_MemoryMB := 9999, ar_DiskMB := 9999\<rparr>\<rparr>) NewWorkerPool = Some True"
proof -
  let ?c = "demo_capacity\<lparr>cc_ScalingMetric := \<lparr>sm_Type = ScalingMetricDisk, sm_Capacity = 0, sm_Utilization = 0\<rparr>\<rparr>"
  have "MaxAllowedClusterUtilization ?c (wp_FaultTolerance NewWorkerPool) True = Some 1900" by code_simp
  from disk_metric_ignores_usage [OF _ _ this, of "no_resources\<lparr>ar_CPUMHz := 4000, ar_MemoryMB := 9999, ar_DiskMB := 9999\<rparr>"]
  show ?thesis by (simp add: demo_capacity_def)
qed

section \<open>Choosing and draining a node\<close>

lemma least_allocated_min:
  assumes "ty \<in> {ScalingMetricProcessor, ScalingMetricMemory, ScalingMetricDisk}"
    and "\<forall>a \<in> set as. na_NodeID a \<noteq> prot \<longrightarrow> (\<exists>q. metric_percent ty (na_UsedCapacity a) = Some q \<and> Fin 0 < q)"
    and "l = Fin 0 \<and> n = [] \<or> Fin 0 < l"
    and "least_allocated ty prot as (l, n) = (l', n')"
  shows "(l = Fin 0 \<or> \<not> l < l') \<and>
    (\<forall>a \<in> set as. na_NodeID a \<noteq> prot \<longrightarrow> \<not> the (metric_percent ty (na_UsedCapacity a)) < l') \<and>
    (l' = l \<and> n' = n \<or> (\<exists>a \<in> set as. na_NodeID a = n' \<and> n' \<noteq> prot \<and> metric_percent ty (na_UsedCapacity a) = Some l')) \<and>
    (l' = Fin 0 \<and> n' = [] \<or> Fin 0 < l') \<and> (l' = Fin 0 \<longrightarrow> l = Fin 0 \<and> (\<forall>a \<in> set as. na_NodeID a = prot))"
  using assms(2-)
proof (induction as arbitrary: l n)
  case Nil
  then show ?case by auto
next
  case (Cons a as)
  have nz: "\<not> feq l (Fin 0)" if "Fin 0 < l" using that by (cases l) auto
  define st where "st = (if na_NodeID a = prot then (l, n)
        else case metric_percent ty (na_UsedCapacity a) of
               Some p \<Rightarrow> (if feq l (Fin 0) \<or> p < l then (p, na_NodeID a) else (l, n))
             | None \<Rightarrow> (if ty = ScalingMetricNone then (l, na_NodeID a) else (l, n)))"
  obtain l1 n1 where s: "st = (l1, n1)" by fastforce
  have run: "least_allocated ty prot as (l1, n1) = (l', n')"
    using Cons.prems(3) s by (simp add: st_def)
  have l1: "l1 = Fin 0 \<and> n1 = [] \<or> Fin 0 < l1"
    using s Cons.prems(1,2) by (auto simp: st_def split: if_splits option.splits)
  note IH = Cons.IH [OF _ l1 run]
  have IH': "(l1 = Fin 0 \<or> \<not> l1 < l') \<and>
    (\<forall>a \<in> set as. na_NodeID a \<noteq> prot \<longrightarrow> \<not> the (metric_percent ty (na_UsedCapacity a)) < l') \<and>
    (l' = l1 \<and> n' = n1 \<or> (\<exists>a \<in> set as. na_NodeID a = n' \<and> n' \<noteq> prot \<and> metric_percent ty (na_UsedCapacity a) = Some l')) \<and>
    (l' = Fin 0 \<and> n' = [] \<or> Fin 0 < l') \<and> (l' = Fin 0 \<longrightarrow> l1 = Fin 0 \<and> (\<forall>a \<in> set as. na_NodeID a = prot))"
    using IH Cons.prems(1) by simp
  show ?case
  proof (cases "na_NodeID a = prot")
    case True
    with s have "l1 = l" "n1 = n" by (auto simp: st_def)
    with IH' True show ?thesis by auto
  next
    case False
    then obtain q where q: "metric_percent ty (na_UsedCapacity a) = Some q" "Fin 0 < q" using Cons.prems(1) by auto
    have qn: "q \<noteq> Fin 0" using q(2) by auto
    show ?thesis
    proof (cases "feq l (Fin 0) \<or> q < l")
      case True
      with s False q have st: "l1 = q" "n1 = na_NodeID a" by (auto simp: st_def)
      with IH' qn have nq: "\<not> q < l'" by auto
      have "l = Fin 0 \<or> \<not> l < l'"
      proof (rule ccontr)
        assume "\<not> (l = Fin 0 \<or> \<not> l < l')"
        then have "l < l'" "l \<noteq> Fin 0" by auto
        moreover have "q < l" using True \<open>l \<noteq> Fin 0\<close> nz Cons.prems(2) by auto
        ultimately show False using nq flt_trans by blast
      qed
      with IH' st nq q qn False show ?thesis by auto
    next
      case nlt: False
      with s False q have st: "l1 = l" "n1 = n" by (auto simp: st_def)
      have "l \<noteq> Fin 0" using nlt by auto
      with IH' st have "\<not> l < l'" "Fin 0 < l" using Cons.prems(2) by auto
      have "\<not> q < l'"
      proof
        assume "q < l'"
        moreover have "l \<noteq> NaN" "l' \<noteq> NaN" using \<open>Fin 0 < l\<close> \<open>q < l'\<close> by (auto, cases q, auto)
        ultimately show False using flt_total [of l l'] flt_trans nlt \<open>\<not> l < l'\<close> by blast
      qed
      with IH' st q False \<open>l \<noteq> Fin 0\<close> show ?thesis by auto
    qed
  qed
qed

text \<open>
  The node chosen for removal is never the protected one, and when every candidate uses
  some of the metric's resource it is one that uses least of it.
\<close>

theorem least_allocated_node:
  assumes ty: "sm_Type (cc_ScalingMetric c) \<in> {ScalingMetricProcessor, ScalingMetricMemory, ScalingMetricDisk}"
    and pos: "\<forall>a \<in> set (cc_NodeAllocations c). na_NodeID a \<noteq> prot \<longrightarrow>
      (\<exists>q. metric_percent (sm_Type (cc_ScalingMetric c)) (na_UsedCapacity a) = Some q \<and> Fin 0 < q)"
    and run: "LeastAllocatedNode E c prot h = (Ret (n, ip), h')"
  shows "n = [] \<and> (\<forall>a \<in> set (cc_NodeAllocations c). na_NodeID a = prot) \<or>
    n \<noteq> prot \<and> (\<exists>a \<in> set (cc_NodeAllocations c). na_NodeID a = n \<and>
      (\<forall>b \<in> set (cc_NodeAllocations c). na_NodeID b \<noteq> prot \<longrightarrow>
         \<not> the (metric_percent (sm_Type (cc_ScalingMetric c)) (na_UsedCapacity b)) < the (metric_percent (sm_Type (cc_ScalingMetric c)) (na_UsedCapacity a))))"
proof -
  obtain l where l: "least_allocated (sm_Type (cc_ScalingMetric c)) prot (cc_NodeAllocations c) (Fin 0, []) = (l, n)"
    using run by (cases "least_allocated (sm_Type (cc_ScalingMetric c)) prot (cc_NodeAllocations c) (Fin 0, [])")
      (auto simp: LeastAllocatedNode_def go_simps)
  note M = least_allocated_min [OF ty pos _ l, simplified]
  show ?thesis
  proof (cases "l = Fin 0")
    case True
    with M show ?thesis by auto
  next
    case False
    with M obtain a where "a \<in> set (cc_NodeAllocations c)" "na_NodeID a = n" "n \<noteq> prot"
      "metric_percent (sm_Type (cc_ScalingMetric c)) (na_UsedCapacity a) = Some l" by auto
    with M show ?thesis by auto
  qed
qed

definition demo_usage :: "string \<Rightarrow> int \<Rightarrow> node_allocation" where
  "demo_usage n p = \<lparr>na_NodeID = n, na_UsedCapacity = no_resources\<lparr>ar_CPUPercent := Fin (of_int p)\<rparr>\<rparr>"

theorem least_allocated_node_witness:
  "\<exists>n ip h'. LeastAllocatedNode pool_env (demo_capacity\<lparr>cc_NodeAllocations := [demo_usage ''n1'' 10, demo_usage ''n2'' 5, demo_usage ''n3'' 20]\<rparr>) ''n2'' [] =
     (Ret (n, ip), h') \<and> n \<noteq> ''n2''"
proof -
  let ?c = "demo_capacity\<lparr>cc_NodeAllocations := [demo_usage ''n1'' 10, demo_usage ''n2'' 5, demo_usage ''n3'' 20]\<rparr>"
  obtain n ip h' where r: "LeastAllocatedNode pool_env ?c ''n2'' [] = (Ret (n, ip), h')"
    by (simp add: LeastAllocatedNode_def go_simps Let_def)
  have "n = [] \<and> (\<forall>a \<in> set (cc_NodeAllocations ?c). na_NodeID a = ''n2'') \<or> n \<noteq> ''n2''"
    using least_allocated_node [OF _ _ r]
    by (auto simp: demo_capacity_def demo_usage_def metric_percent_def no_resources_def)
  with r show ?thesis by (auto simp: demo_capacity_def demo_usage_def)
qed

text \<open>
  The choice is not minimal in general: the zero that stands for "no node yet" is also
  the usage of an idle node, so an idle node that is visited before a busy one is passed
  over in favour of the busy one.
\<close>

theorem idle_node_passed_over:
  assumes "Fin 0 < Fin q" and "a \<noteq> prot" and "b \<noteq> prot" and "sm_Type (cc_ScalingMetric c) = ScalingMetricProcessor"
    and "cc_NodeAllocations c = [\<lparr>na_NodeID = a, na_UsedCapacity = u\<lparr>ar_CPUPercent := Fin 0\<rparr>\<rparr>,
      \<lparr>na_NodeID = b, na_UsedCapacity = v\<lparr>ar_CPUPercent := Fin q\<rparr>\<rparr>]"
  shows "\<exists>ip h'. LeastAllocatedNode E c prot h = (Ret (b, ip), h')"
  using assms by (simp add: LeastAllocatedNode_def go_simps metric_percent_def)

theorem idle_node_passed_over_witness:
  "\<exists>ip h'. LeastAllocatedNode pool_env (demo_capacity\<lparr>cc_NodeAllocations := [demo_usage ''idle'' 0, demo_usage ''busy'' 80]\<rparr>) [] [] =
     (Ret (''busy'', ip), h')"
  using idle_node_passed_over [of 80 "''idle''" "[]" "''busy''"
    "demo_capacity\<lparr>cc_NodeAllocations := [demo_usage ''idle'' 0, demo_usage ''busy'' 80]\<rparr>" no_resources no_resources pool_env "[]"]
  by (simp add: demo_capacity_def demo_usage_def)

text \<open>
  Draining is not confirmed by a nil error: when Nomad accepts the request but the node
  is not in drain mode afterwards, \<open>DrainNode\<close> still returns without an error, and the
  caller goes on to terminate a node whose allocations were never migrated.
\<close>

theorem drain_unconfirmed:
  assumes "en_update_drain E h n = None" and "en_node_info E (h @ [UpdateDrain n]) n = Inr nd" and "\<not> nd_Drain nd"
  shows "DrainNode E n h = (Ret None, h @ [UpdateDrain n, NodeInfo n])"
  using assms by (simp add: DrainNode_def go_simps)

theorem drain_unconfirmed_witness:
  "DrainNode (pool_env\<lparr>en_node_info := \<lambda>_ n. Inr demo_node\<rparr>) ''n1'' [] = (Ret None, [UpdateDrain ''n1'', NodeInfo ''n1''])"
  using drain_unconfirmed [of "pool_env\<lparr>en_node_info := \<lambda>_ n. Inr demo_node\<rparr>" "[]" "''n1''" demo_node]
  by (simp add: pool_env_def ref_env_def demo_node_def)

text \<open>The loops return, and keep the number of nodes, by which the evaluation divides.\<close>

lemma range_keys_returns: "returns (range_keys E m)"
  by (simp add: range_keys_def returns_ask)

lemma consumed_loop_returns: "returns (consumed_loop E ks c)"
  by (induction ks arbitrary: c)
    (auto intro!: returns_intro simp: node_allocs_def split: prod.splits sum.splits)

lemma reserve_loop_returns: "returns (reserve_loop E p ks c)"
  by (induction ks arbitrary: c)
    (auto intro!: returns_intro simp: checkJobPlacement_def job_allocs_def job_info_def split: sum.splits)

lemma consumed_loop_count:
  "obeys (\<lambda>_. True) (consumed_loop E ks c) (\<lambda>(c', e). cc_NodeCount c' = cc_NodeCount c)"
proof (induction ks arbitrary: c)
  case (Cons k ks)
  show ?case unfolding consumed_loop.simps node_allocs_def Let_def
    by (intro obeys_intro obeys_bnd_any obeys_post [OF Cons.IH]) auto
qed (simp add: obeys_ret)

lemma reserve_loop_count:
  "obeys (\<lambda>_. True) (reserve_loop E p ks c) (\<lambda>(c', e). cc_NodeCount c' = cc_NodeCount c)"
proof (induction ks arbitrary: c)
  case (Cons k ks)
  show ?case unfolding reserve_loop.simps checkJobPlacement_def job_allocs_def job_info_def
    by (intro obeys_intro obeys_bnd_any Cons.IH obeys_post [OF Cons.IH]) auto
qed (simp add: obeys_ret)

lemma MostUtilizedResource_count [simp]: "cc_NodeCount (MostUtilizedResource c) = cc_NodeCount c"
  by (simp add: MostUtilizedResource_def Let_def set_metric_def split: option.split)


definition no_jobs :: job_policies where "no_jobs = newJobScalingPolicy"


end
