(* ===== verification/Cluster_Scaling.thy ===== *)
theory Cluster_Scaling
  imports Failsafe Node_Registry Pool_Capacity
begin

text \<open>
  Cluster scaling: \<open>replicator/cluster_scaling.go\<close> and \<open>replicator/node_protection.go\<close>.  The
  evaluation of one worker pool is written against the three interfaces the code calls: the
  Consul client \<open>C\<close>, the Nomad client \<open>N\<close> and, for the provider a pool was registered with,
  \<open>prov\<close>.  The pool is a pointer into the registry: an evaluation returns the pool with its
  changes, and \<open>workerPoolScaling\<close> returns the registry that holds it.
\<close>

section \<open>replicator/cluster\_scaling.go\<close>

definition checkCooldownThreshold :: "env \<Rightarrow> worker_pool \<Rightarrow> bool act" where
  "checkCooldownThreshold E workerPool =
     (if IsZero (st_LastScalingEvent (wp_State workerPool)) then ret True
      else
        let cooldown = st_LastScalingEvent (wp_State workerPool) + duration_seconds (wp_Cooldown workerPool) in
        bnd (time_Now E) (\<lambda>now. if now < cooldown then ret False else ret True))"

definition count_request :: "worker_pool \<Rightarrow> worker_pool \<times> bool" where
  "count_request workerPool =
     (let s = wp_State workerPool in
      if st_ScalingDirection s = ScalingDirectionIn then
        (let n = i64 (st_ScaleInRequests s + 1); s' = s\<lparr>st_ScaleInRequests := n, st_ScaleOutRequests := 0\<rparr>
         in if n = wp_ScalingThreshold workerPool
            then (workerPool\<lparr>wp_State := s'\<lparr>st_ScaleInRequests := 0\<rparr>\<rparr>, True)
            else (workerPool\<lparr>wp_State := s'\<rparr>, False))
      else if st_ScalingDirection s = ScalingDirectionOut then
        (let n = i64 (st_ScaleOutRequests s + 1); s' = s\<lparr>st_ScaleOutRequests := n, st_ScaleInRequests := 0\<rparr>
         in if n = wp_ScalingThreshold workerPool
            then (workerPool\<lparr>wp_State := s'\<lparr>st_ScaleOutRequests := 0\<rparr>\<rparr>, True)
            else (workerPool\<lparr>wp_State := s'\<rparr>, False))
      else (workerPool\<lparr>wp_State := s\<lparr>st_ScaleInRequests := 0, st_ScaleOutRequests := 0\<rparr>\<rparr>, False))"

definition checkPoolScalingThreshold :: "consul_client \<Rightarrow> worker_pool \<Rightarrow> (worker_pool \<times> bool) act" where
  "checkPoolScalingThreshold C workerPool =
     (let (pool, scale) = count_request workerPool in
      bnd (ci_PersistState C (wp_State pool)) (\<lambda>(s, err).
      ret (pool\<lparr>wp_State := s\<rparr>, scale \<and> err = None)))"

definition initial_state :: "config \<Rightarrow> worker_pool \<Rightarrow> scaling_state" where
  "initial_state config workerPool =
     empty_state\<lparr>st_ResourceName := wp_Name workerPool, st_ResourceType := ClusterType,
       st_StatePath := cf_ConsulKeyRoot config @ ''/state/nodes/'' @ wp_Name workerPool\<rparr>"

definition pool_message :: "worker_pool \<Rightarrow> failure_message" where
  "pool_message workerPool =
     \<lparr>fm_AlertUID = wp_NotificationUID workerPool, fm_ClusterIdentifier = [], fm_Reason = [],
      fm_ResourceID = wp_Name workerPool, fm_ResourceType = ClusterType, fm_StatePath = []\<rparr>"

text \<open>
  The call of the scaling provider, which both directions end with: the state is written back
  to the entry of the registry under the pool's name, which is the pool itself.
\<close>

definition scale_by_provider ::
  "scaling_provider \<Rightarrow> node_registry \<Rightarrow> worker_pool \<Rightarrow> worker_pool act" where
  "scale_by_provider P nodeRegistry workerPool =
     bnd (sp_Scale P workerPool) (\<lambda>(pool, err).
     case err of
       Some e \<Rightarrow> ret pool
     | None \<Rightarrow> under_lock nodeRegistry
         (case map_of (nr_WorkerPools nodeRegistry) (wp_Name pool) of
            None \<Rightarrow> panic
          | Some entry \<Rightarrow> ret pool))"

definition scale_in_pool ::
  "nomad_cluster \<Rightarrow> scaling_provider \<Rightarrow> node_registry \<Rightarrow> cluster_capacity \<Rightarrow> worker_pool \<Rightarrow> worker_pool act" where
  "scale_in_pool N P nodeRegistry poolCapacity workerPool =
     bnd (nc_LeastAllocatedNode N poolCapacity (wp_ProtectedNode workerPool)) (\<lambda>(nodeID, nodeIP).
     if nodeIP = [] \<or> nodeID = [] then ret workerPool
     else
       let pool = upd_state (\<lambda>s. s\<lparr>st_EligibleNodes := st_EligibleNodes s @ [nodeIP]\<rparr>) workerPool in
       bnd (nc_DrainNode N nodeID) (\<lambda>err.
       case err of
         Some e \<Rightarrow> ret pool
       | None \<Rightarrow> scale_by_provider P nodeRegistry pool))"

text \<open>The evaluation of a pool, from the check of the state \<open>s0\<close> that was read on.\<close>

definition evaluate_state ::
  "env \<Rightarrow> consul_client \<Rightarrow> nomad_cluster \<Rightarrow> (scaling_provider_kind \<Rightarrow> scaling_provider) \<Rightarrow> config \<Rightarrow>
     node_registry \<Rightarrow> job_policies \<Rightarrow> worker_pool \<Rightarrow> scaling_state \<Rightarrow> worker_pool act" where
  "evaluate_state E C N prov config nodeRegistry jobs workerPool s0 =
     bnd (FailsafeCheck E C s0 config (wp_RetryThreshold workerPool) (pool_message workerPool)) (\<lambda>(passing, msg, s1).
     if \<not> passing then ret (workerPool\<lparr>wp_State := s1\<rparr>)
     else
       bnd (nc_EvaluatePoolScaling N empty_capacity (workerPool\<lparr>wp_State := s1\<rparr>) jobs) (\<lambda>(poolCapacity, scale, err).
       if err \<noteq> None \<or> \<not> scale then ret (workerPool\<lparr>wp_State := s1\<rparr>)
       else
         bnd (ci_PersistState C (s1\<lparr>st_ScalingDirection := cc_ScalingDirection poolCapacity\<rparr>)) (\<lambda>(s2, err2).
         let pool = workerPool\<lparr>wp_State := s2\<rparr> in
         case wp_ScalingProvider workerPool of
           None \<Rightarrow> panic
         | Some k \<Rightarrow>
             bnd (sp_SafetyCheck (prov k) pool) (\<lambda>safe.
             if \<not> safe then ret pool
             else
               bnd (checkCooldownThreshold E pool) (\<lambda>ok.
               if \<not> ok then ret pool
               else
                 bnd (checkPoolScalingThreshold C pool) (\<lambda>(pool', ok').
                 if \<not> ok' then ret pool'
                 else if cc_ScalingDirection poolCapacity = ScalingDirectionOut then
                   scale_by_provider (prov k) nodeRegistry pool'
                 else if cc_ScalingDirection poolCapacity = ScalingDirectionIn then
                   scale_in_pool N (prov k) nodeRegistry poolCapacity pool'
                 else ret pool'))))))"

definition evaluate_pool ::
  "env \<Rightarrow> consul_client \<Rightarrow> nomad_cluster \<Rightarrow> (scaling_provider_kind \<Rightarrow> scaling_provider) \<Rightarrow> config \<Rightarrow>
     node_registry \<Rightarrow> job_policies \<Rightarrow> worker_pool \<Rightarrow> worker_pool act" where
  "evaluate_pool E C N prov config nodeRegistry jobs workerPool =
     bnd (ci_ReadState C (initial_state config workerPool) True)
       (evaluate_state E C N prov config nodeRegistry jobs workerPool)"

definition workerPoolScaling ::
  "env \<Rightarrow> consul_client \<Rightarrow> nomad_cluster \<Rightarrow> (scaling_provider_kind \<Rightarrow> scaling_provider) \<Rightarrow> config \<Rightarrow>
     node_registry \<Rightarrow> job_policies \<Rightarrow> string \<Rightarrow> node_registry act" where
  "workerPoolScaling E C N prov config nodeRegistry jobs poolName =
     (if lk_Writer (nr_Lock nodeRegistry) then block
      else case map_of (nr_WorkerPools nodeRegistry) poolName of
        None \<Rightarrow> panic
      | Some workerPool \<Rightarrow>
          bnd (evaluate_pool E C N prov config nodeRegistry jobs workerPool) (\<lambda>pool.
          ret (nodeRegistry\<lparr>nr_WorkerPools := AList.update poolName pool (nr_WorkerPools nodeRegistry)\<rparr>)))"

section \<open>replicator/node\_protection.go\<close>

definition lock_writer :: "node_registry \<Rightarrow> node_registry" where
  "lock_writer r = r\<lparr>nr_Lock := (nr_Lock r)\<lparr>lk_Writer := True\<rparr>\<rparr>"

text \<open>The lock is taken before the lookup and released only on the path that finds the pool.\<close>

definition nodeProtectionCheck :: "env \<Rightarrow> nomad_cluster \<Rightarrow> node_registry \<Rightarrow> (node_registry \<times> go_error option) act" where
  "nodeProtectionCheck E N nodeReg =
     (let allocID = en_getenv E ''NOMAD_ALLOC_ID'' in
      if allocID = [] then ret (nodeReg, None)
      else
        bnd (nc_NodeReverseLookup N allocID) (\<lambda>resp.
        case resp of
          Inl e \<Rightarrow> ret (nodeReg, Some (Errorf ''Replicator is running as a Nomad job but we are unable to determine the node hosting our allocation'' (Some e)))
        | Inr host \<Rightarrow>
            (if host = [] then
               ret (nodeReg, Some (Errorf ''Replicator is running as a Nomad job but we are unable to determine the node hosting our allocation'' None))
             else under_lock nodeReg
               (case map_of (nr_RegisteredNodes nodeReg) host of
                  None \<Rightarrow> ret (lock_writer nodeReg, Some (Errorf ''running as a Nomad job but unable to determine the worker pool for our host node'' None))
                | Some pool \<Rightarrow>
                    (case map_of (nr_WorkerPools nodeReg) pool of
                       None \<Rightarrow> panic
                     | Some workerPool \<Rightarrow>
                         ret (nodeReg\<lparr>nr_WorkerPools := AList.update pool (workerPool\<lparr>wp_ProtectedNode := host\<rparr>) (nr_WorkerPools nodeReg)\<rparr>,
                              None))))))"

section \<open>What every implementation of the interfaces gives\<close>

text \<open>
  Cluster scaling relies on three interfaces: a state store, an evaluator of pools and, for
  every kind of provider, a scaling provider.
\<close>

locale cluster_scaler = state_store C + pool_evaluator N for C N +
  fixes prov :: "scaling_provider_kind \<Rightarrow> scaling_provider"
  assumes provider: "scaling_provider (prov k)"

definition pool_frame :: "worker_pool \<Rightarrow> worker_pool \<Rightarrow> bool" where
  "pool_frame p q \<longleftrightarrow> q\<lparr>wp_State := wp_State p\<rparr> = p"

lemma pool_frame_state [simp]: "pool_frame p (p\<lparr>wp_State := s\<rparr>)"
  by (simp add: pool_frame_def)

lemma pool_frame_upd [simp]: "pool_frame p (q\<lparr>wp_State := s\<rparr>) = pool_frame p q"
  by (simp add: pool_frame_def)

lemma pool_frame_base [simp]: "pool_frame (p\<lparr>wp_State := s\<rparr>) q = pool_frame p q"
  by (cases p, cases q) (simp add: pool_frame_def)

lemma pool_frame_trans: "pool_frame p q \<Longrightarrow> pool_frame q r \<Longrightarrow> pool_frame p r"
  by (cases p, cases q, cases r) (simp add: pool_frame_def)

lemma pool_frame_sel:
  assumes "pool_frame p q"
  shows "wp_ProtectedNode q = wp_ProtectedNode p" and "wp_Name q = wp_Name p" and "wp_Nodes q = wp_Nodes p"
    and "wp_NodeRegistrations q = wp_NodeRegistrations p" and "wp_ScalingProvider q = wp_ScalingProvider p"
  using assms by (cases p, cases q, simp add: pool_frame_def)+

lemma pool_frame_scale: "pool_frame p q \<Longrightarrow> scale_frame q r \<Longrightarrow> pool_frame p r"
  by (cases p, cases q, cases r) (simp add: pool_frame_def scale_frame_def)

text \<open>An evaluation registers no job and never drains the node \<open>prot\<close>.\<close>

fun spares :: "string \<Rightarrow> event \<Rightarrow> bool" where
  "spares prot (UpdateDrain n) = (n \<noteq> prot)"
| "spares prot (JobRegister _) = False"
| "spares prot _ = True"

lemma spares_reading: "reading e \<Longrightarrow> spares prot e" and spares_failsafe: "failsafe_event p e \<Longrightarrow> spares prot e"
  and spares_provider: "provider_event p e \<Longrightarrow> spares prot e" and spares_quiet: "quiet e \<Longrightarrow> spares prot e"
  by (cases e, auto)+

text \<open>The gates an evaluation has to pass before it acts, as conditions on the state it read.\<close>

definition gates_open :: "env \<Rightarrow> worker_pool \<Rightarrow> scaling_state \<Rightarrow> bool" where
  "gates_open E workerPool s \<longleftrightarrow>
     \<not> st_FailsafeMode s \<and> st_FailureCount s < wp_RetryThreshold workerPool \<and>
     (IsZero (st_LastScalingEvent s) \<or>
        (\<exists>h. st_LastScalingEvent s + duration_seconds (wp_Cooldown workerPool) \<le> en_now E h)) \<and>
     (i64 (st_ScaleInRequests s + 1) = wp_ScalingThreshold workerPool \<or>
        i64 (st_ScaleOutRequests s + 1) = wp_ScalingThreshold workerPool)"

lemma gates_openI:
  assumes "failsafe_frame s s1" and "same_but_updated (s1\<lparr>st_ScalingDirection := d\<rparr>) s2"
    and "\<not> st_FailsafeMode s" and "st_FailureCount s < wp_RetryThreshold p"
    and "IsZero (st_LastScalingEvent s2) \<or>
      (\<exists>h. st_LastScalingEvent s2 + duration_seconds (wp_Cooldown p) \<le> en_now E h)"
    and "snd (count_request (p\<lparr>wp_State := s2\<rparr>))"
  shows "gates_open E p s"
  using assms(3-) failsafe_frame_sel [OF assms(1)] same_but_updated_sel [OF assms(2)]
  by (simp add: gates_open_def count_request_def Let_def split: if_splits)

context cluster_scaler
begin

lemma provider_obeys:
  "obeys (provider_event (st_StatePath (wp_State p))) (sp_Scale (prov k) p) (\<lambda>(q, err). scale_frame p q)"
  by (rule obeys_post [OF scaling_provider.scale [OF provider]]) auto

lemma scale_by_provider_obeys:
  "obeys (spares n) (scale_by_provider (prov k) r p) (scale_frame p)"
  unfolding scale_by_provider_def under_lock_def
  by (rule obeys_bnd_mono [OF provider_obeys])
    (auto intro!: obeys_intro dest: spares_provider split: option.splits)

lemma drain_then_scale_obeys:
  assumes "nodeID \<noteq> n" and "pool_frame p q"
  shows "obeys (spares n) (bnd (nc_DrainNode N nodeID)
     (\<lambda>err. case err of None \<Rightarrow> scale_by_provider (prov k) r q | Some e \<Rightarrow> ret q)) (pool_frame p)"
  by (intro obeys_bnd_mono [OF drain] obeys_option obeys_ret obeys_post [OF scale_by_provider_obeys])
    (use assms in \<open>auto simp: spares_reading intro: pool_frame_scale\<close>)

lemma scale_in_pool_obeys:
  assumes "wp_ProtectedNode p = n"
  shows "obeys (spares n) (scale_in_pool N (prov k) r cap p) (pool_frame p)"
  unfolding scale_in_pool_def Let_def
  by (rule obeys_bnd_mono [OF least], erule spares_reading)
    (use assms in \<open>auto intro!: obeys_if obeys_ret drain_then_scale_obeys simp: pool_frame_def\<close>)

lemma threshold_obeys:
  "obeys quiet (checkPoolScalingThreshold C p)
     (\<lambda>(q, ok). pool_frame p q \<and> (ok \<longrightarrow> snd (count_request p)) \<and>
        same_but_updated (wp_State (fst (count_request p))) (wp_State q))"
proof -
  have f: "pool_frame p (fst (count_request p))" by (simp add: count_request_def Let_def)
  show ?thesis
    unfolding checkPoolScalingThreshold_def Let_def
    by (intro obeys_prod obeys_bnd [OF persist_quiet] obeys_ret) (use f in auto)
qed

lemma cooldown_obeys:
  "obeys (\<lambda>e. e = Now) (checkCooldownThreshold E p)
     (\<lambda>ok. ok \<longrightarrow> IsZero (st_LastScalingEvent (wp_State p)) \<or>
        (\<exists>h. st_LastScalingEvent (wp_State p) + duration_seconds (wp_Cooldown p) \<le> en_now E h))"
  unfolding checkCooldownThreshold_def time_Now_def Let_def
proof (intro obeys_if obeys_ret obeys_bnd [where R = "\<lambda>t. \<exists>h. t = en_now E h"] obeys_call)
qed (auto simp: not_less)

lemma threshold_step:
  assumes "\<And>e. quiet e \<Longrightarrow> P e"
    and "\<And>q ok. pool_frame p q \<Longrightarrow> ok \<longrightarrow> snd (count_request p) \<Longrightarrow> obeys P (f (q, ok)) Q"
  shows "obeys P (bnd (checkPoolScalingThreshold C p) f) Q"
  by (rule obeys_bnd_mono [OF threshold_obeys]) (use assms in auto)

lemmas evaluation_rules =
  obeys_prod obeys_if obeys_ret obeys_option obeys_panic
  obeys_bnd_mono [OF check_obeys] obeys_bnd_mono [OF evaluate] obeys_bnd_mono [OF persist_quiet]
  obeys_bnd_mono [OF scaling_provider.safety_quiet [OF provider]] obeys_bnd_mono [OF cooldown_obeys]

lemma evaluate_state_obeys:
  "obeys (spares (wp_ProtectedNode p)) (evaluate_state E C N prov cfg r jobs p s) (pool_frame p)"
  unfolding evaluate_state_def Let_def
  by (intro evaluation_rules threshold_step obeys_post [OF scale_by_provider_obeys] obeys_post [OF scale_in_pool_obeys])
    (auto simp: spares_reading spares_failsafe spares_quiet pool_frame_sel elim: pool_frame_scale pool_frame_trans)

lemma evaluate_state_gated:
  assumes "\<not> gates_open E p s"
  shows "obeys quiet (evaluate_state E C N prov cfg r jobs p s) (pool_frame p)"
  unfolding evaluate_state_def Let_def
  by (intro evaluation_rules threshold_step)
    (use assms in \<open>auto dest: failsafe_event_quiet reading_quiet gates_openI elim: pool_frame_trans\<close>)

lemma evaluate_pool_obeys:
  "obeys (spares (wp_ProtectedNode p)) (evaluate_pool E C N prov cfg r jobs p) (pool_frame p)"
  unfolding evaluate_pool_def
  by (rule obeys_bnd_mono [OF read_quiet]) (simp_all add: spares_quiet evaluate_state_obeys)

lemma evaluate_pool_gated:
  assumes "ci_ReadState C (initial_state cfg p) True h = (Ret s, h')" and "\<not> gates_open E p s"
  shows "filter mutating (snd (evaluate_pool E C N prov cfg r jobs p h)) = filter mutating h"
proof -
  have "filter mutating h' = filter mutating h"
    using obeys_filter [OF read_quiet [of "initial_state cfg p" True], of h] assms(1) by simp
  moreover have "filter mutating (snd (evaluate_state E C N prov cfg r jobs p s h')) = filter mutating h'"
    by (rule obeys_filter [OF evaluate_state_gated [OF assms(2)]])
  ultimately show ?thesis by (simp add: evaluate_pool_def bnd_def assms(1))
qed

end

text \<open>The program's own clients.\<close>

definition providers :: "env \<Rightarrow> scaling_provider_kind \<Rightarrow> scaling_provider" where
  "providers E k = (case k of AwsScalingProvider svc \<Rightarrow> awsScalingProvider E (consulClient E) svc)"

interpretation scaler: cluster_scaler "consulClient E" "nomadCluster E" "providers E" for E
proof (intro cluster_scaler.intro cluster_scaler_axioms.intro consul.state_store_axioms nomad.pool_evaluator_axioms)
  show "scaling_provider (providers E k)" for k
    by (cases k) (simp add: providers_def aws.scaling_provider_axioms)
qed

abbreviation scale_pool :: "env \<Rightarrow> config \<Rightarrow> node_registry \<Rightarrow> job_policies \<Rightarrow> string \<Rightarrow> node_registry act" where
  "scale_pool E \<equiv> workerPoolScaling E (consulClient E) (nomadCluster E) (providers E)"

lemma scale_pool_run:
  assumes "map_of (nr_WorkerPools r) n = Some p" and "\<not> lk_Writer (nr_Lock r)"
  shows "scale_pool E cfg r jobs n =
    bnd (evaluate_pool E (consulClient E) (nomadCluster E) (providers E) cfg r jobs p)
      (\<lambda>q. ret (r\<lparr>nr_WorkerPools := AList.update n q (nr_WorkerPools r)\<rparr>))"
  using assms by (simp add: workerPoolScaling_def)

lemma registry_inv_frame:
  assumes "registry_inv r" and "map_of (nr_WorkerPools r) n = Some p" and "pool_frame p q"
  shows "registry_inv (r\<lparr>nr_WorkerPools := AList.update n q (nr_WorkerPools r)\<rparr>)"
proof -
  have "pool_inv n p" using assms(1,2) by (simp add: registry_inv_def)
  then have "pool_inv n q" using pool_frame_sel [OF assms(3)] by (simp add: pool_inv_def)
  then show ?thesis
    using assms(1,2) pool_frame_sel(3) [OF assms(3)] unfolding registry_inv_def by (auto split: if_splits; fastforce)
qed

text \<open>An evaluation that returns has put the pool back with another scaling state.\<close>

lemma scale_pool_result:
  assumes run: "scale_pool E cfg r jobs n h = (Ret r', h')"
  obtains p q where "map_of (nr_WorkerPools r) n = Some p" and "\<not> lk_Writer (nr_Lock r)" and "pool_frame p q"
    and "r' = r\<lparr>nr_WorkerPools := AList.update n q (nr_WorkerPools r)\<rparr>"
proof -
  have w: "\<not> lk_Writer (nr_Lock r)" using run by (auto simp: workerPoolScaling_def block_app)
  obtain p where p: "map_of (nr_WorkerPools r) n = Some p"
    using run w by (cases "map_of (nr_WorkerPools r) n") (auto simp: workerPoolScaling_def panic_app)
  obtain q where q: "evaluate_pool E (consulClient E) (nomadCluster E) (providers E) cfg r jobs p h = (Ret q, h')"
    and r': "r' = r\<lparr>nr_WorkerPools := AList.update n q (nr_WorkerPools r)\<rparr>"
    using run by (auto simp: scale_pool_run [OF p w] ret_app elim!: bnd_RetE)
  show thesis by (rule that [OF p w obeys_run(3) [OF scaler.evaluate_pool_obeys q refl] r'])
qed

section \<open>Properties\<close>

text \<open>
  C1: whatever the services answer, one evaluation of a pool changes the cluster only if the
  state it read lets it: the pool is not in failsafe mode, it has failed less often than its
  retry threshold, its cooldown is over, and this request is the one that reaches the
  scaling threshold.
\<close>

theorem evaluation_gated:
  assumes pool: "map_of (nr_WorkerPools r) n = Some p"
    and stored: "en_kv_get E h (cf_ConsulKeyRoot cfg @ ''/state/nodes/'' @ wp_Name p) = Inr (Some kv)"
    and s: "s = fst (unmarshal_state (kp_Value kv) (initial_state cfg p))"
    and acts: "e \<in> set (calls (scale_pool E cfg r jobs n) h)" "mutating e"
  shows "\<not> st_FailsafeMode s \<and> st_FailureCount s < wp_RetryThreshold p \<and>
     (IsZero (st_LastScalingEvent s) \<or>
        (\<exists>h'. st_LastScalingEvent s + duration_seconds (wp_Cooldown p) \<le> en_now E h')) \<and>
     (i64 (st_ScaleInRequests s + 1) = wp_ScalingThreshold p \<or>
        i64 (st_ScaleOutRequests s + 1) = wp_ScalingThreshold p)"
proof (rule ccontr)
  assume "\<not> ?thesis"
  then have closed: "\<not> gates_open E p s" by (simp add: gates_open_def)
  let ?m = "evaluate_pool E (consulClient E) (nomadCluster E) (providers E) cfg r jobs p"
  have "ReadState E (initial_state cfg p) True h = (Ret s, h @ [KVGet (st_StatePath (initial_state cfg p))])"
    using stored s by (simp add: ReadState_def go_simps initial_state_def)
  with scaler.evaluate_pool_gated [OF _ closed]
  have "filter mutating (snd (?m h)) = filter mutating h" by simp
  moreover have "snd (?m h) = h @ calls ?m h" by (rule obeys_history [OF scaler.evaluate_pool_obeys])
  ultimately have "filter mutating (calls ?m h) = []" by simp
  moreover have "lk_Writer (nr_Lock r) \<Longrightarrow> calls (scale_pool E cfg r jobs n) h = []"
    by (simp add: workerPoolScaling_def calls_def block_app)
  moreover have "\<not> lk_Writer (nr_Lock r) \<Longrightarrow> calls (scale_pool E cfg r jobs n) h = calls ?m h"
    by (simp add: scale_pool_run [OF pool] calls_def bnd_def ret_def split: prod.splits outcome.splits)
  ultimately show False using acts by (metis empty_iff filter_empty_conv list.set(1))
qed

text \<open>
  A pool whose two nodes are nearly full, with two scale-out requests on record, in an
  environment where AWS refuses the update of the group.
\<close>

definition scale_env :: env where
  "scale_env = aws_env\<lparr>
     en_node_allocs := (\<lambda>_ n. Inr [demo_alloc\<lparr>al_Resources := \<lparr>rs_CPU = 900, rs_MemoryMB = 200, rs_DiskMB = 100\<rparr>\<rparr>]),
     en_kv_get := (\<lambda>_ k. Inr (Some \<lparr>kp_Value = JObj [(''scaleout_requests'', JInt 2), (''last_scaling_event'', JTime 5)], kp_Session = []\<rparr>)),
     en_update_asg := (\<lambda>_ _ _ _. Some (ApiErr ''denied''))\<rparr>"

definition scale_registry :: node_registry where
  "scale_registry = NewNodeRegistry\<lparr>nr_WorkerPools := [(''pool'', demo_pool)]\<rparr>"

lemma demo_percents:
  "PercentOf 400 2000 = Fin 20" "PercentOf 1800 2000 = Fin 90" "PercentOf 200 2000 = Fin 10"
  "PercentOf 200 400 = Fin 50" "PercentOf 900 1800 = Fin 50" "PercentOf 100 200 = Fin 50"
  by (simp_all add: PercentOf_def float_of_int_exact)

lemmas demo_evaluation =
  EvaluatePoolScaling_def go_simps scale_env_def aws_env_def ref_env_def demo_pool_def calculatePoolCapacity_def
  calculatePoolConsumed_def calculateScalingReserve_def range_order_def Let_def no_jobs_def demo_alloc_def
  counted_def empty_capacity_def add_resources_def count_node_def demo_node_def newJobScalingPolicy_def
  NewWorkerPool_def no_resources_def CalculateUsage_def node_usage_def demo_percents MostUtilizedResource_def
  set_metric_def MaxAllowedClusterUtilization_def clusterScalingRequired_def ClusterScalingSafe_def tdiv_nonneg

lemmas demo_scaling =
  scale_registry_def unlocked_def workerPoolScaling_def evaluate_pool_def evaluate_state_def initial_state_def
  empty_state_def FailsafeCheck_def PersistState_def NewNodeRegistry_def marshal_state_def time_ok_def day_def
  Second_def ReadState_def demo_config_def dec_member_def ToLower_def lower_char_def providers_def SafetyCheck_def
  describeScalingGroup_def demo_asg_def calls_def checkCooldownThreshold_def duration_seconds_def
  checkPoolScalingThreshold_def count_request_def scale_by_provider_def Scale_def scaleOut_def

lemma demo_run:
  "filter mutating (calls (scale_pool scale_env demo_config scale_registry no_jobs ''pool'') []) = [UpdateASG ''r'' ''pool'' 3]"
  "fst (scale_pool scale_env demo_config scale_registry no_jobs ''pool'' []) \<notin> {Panic, Block}"
  by (simp_all add: demo_evaluation demo_scaling)

theorem evaluation_gated_witness:
  "\<exists>s :: scaling_state. st_ScaleOutRequests s = 2 \<and> UpdateASG ''r'' ''pool'' 3 \<in>
     set (calls (scale_pool scale_env demo_config scale_registry no_jobs ''pool'') []) \<and>
     \<not> st_FailsafeMode s \<and> st_FailureCount s < wp_RetryThreshold demo_pool"
proof -
  let ?v = "JObj [(''scaleout_requests'', JInt 2), (''last_scaling_event'', JTime 5)]"
  let ?s = "fst (unmarshal_state ?v (initial_state demo_config demo_pool))"
  have e: "UpdateASG ''r'' ''pool'' 3 \<in> set (calls (scale_pool scale_env demo_config scale_registry no_jobs ''pool'') [])"
    using arg_cong [OF demo_run(1), of set] by auto
  have p: "map_of (nr_WorkerPools scale_registry) ''pool'' = Some demo_pool" by (simp add: scale_registry_def)
  have k: "en_kv_get scale_env [] (cf_ConsulKeyRoot demo_config @ ''/state/nodes/'' @ wp_Name demo_pool) =
      Inr (Some \<lparr>kp_Value = ?v, kp_Session = []\<rparr>)" by (simp add: scale_env_def)
  have "\<not> st_FailsafeMode ?s \<and> st_FailureCount ?s < wp_RetryThreshold demo_pool"
    using evaluation_gated [OF p k _ e] by simp
  moreover have "st_ScaleOutRequests ?s = 2" by (simp add: dec_member_def ToLower_def lower_char_def)
  ultimately show ?thesis using e by blast
qed

text \<open>
  An evaluation keeps the registry's invariant: it changes no pool but the one it is given,
  and of that one only the scaling state.
\<close>

theorem evaluation_keeps_registry:
  assumes inv: "registry_inv r" and run: "scale_pool E cfg r jobs n h = (Ret r', h')"
  shows "registry_inv r' \<and> nr_RegisteredNodes r' = nr_RegisteredNodes r \<and> nr_Lock r' = nr_Lock r \<and>
    (\<forall>k. k \<noteq> n \<longrightarrow> map_of (nr_WorkerPools r') k = map_of (nr_WorkerPools r) k) \<and>
    (\<exists>p s. map_of (nr_WorkerPools r) n = Some p \<and> map_of (nr_WorkerPools r') n = Some (p\<lparr>wp_State := s\<rparr>))"
proof -
  obtain p q where p: "map_of (nr_WorkerPools r) n = Some p" and fr: "pool_frame p q"
    and r': "r' = r\<lparr>nr_WorkerPools := AList.update n q (nr_WorkerPools r)\<rparr>"
    by (rule scale_pool_result [OF run])
  then have q: "q = p\<lparr>wp_State := wp_State q\<rparr>" by (cases p, cases q) (simp add: pool_frame_def)
  have "registry_inv r'" unfolding r' by (rule registry_inv_frame [OF inv p fr])
  then show ?thesis using p q r' by auto
qed

theorem evaluation_keeps_registry_witness:
  "\<exists>r' h'. scale_pool (ref_env\<lparr>en_node_allocs := \<lambda>_ _. Inl (ApiErr ''e'')\<rparr>) demo_config demo_registry no_jobs ''pool'' [] = (Ret r', h') \<and> registry_inv r'"
proof -
  obtain r' h' where r: "scale_pool (ref_env\<lparr>en_node_allocs := \<lambda>_ _. Inl (ApiErr ''e'')\<rparr>) demo_config demo_registry no_jobs ''pool'' [] = (Ret r', h')"
    by (simp add: demo_evaluation demo_scaling demo_registry_def)
  from evaluation_keeps_registry [OF demo_registry_inv(1) r] r show ?thesis by blast
qed

text \<open>
  C14: the node that hosts Replicator itself is never drained: once the protection check has
  succeeded, no evaluation of the pool the node is registered with drains it.
\<close>

theorem protected_node_spared:
  assumes alloc: "en_getenv E ''NOMAD_ALLOC_ID'' \<noteq> []"
    and host: "NodeReverseLookup E (en_getenv E ''NOMAD_ALLOC_ID'') h = (Ret (Inr host), h1)"
    and check: "nodeProtectionCheck E (nomadCluster E) r h = (Ret (r', None), h')"
  shows "\<exists>n p. map_of (nr_RegisteredNodes r) host = Some n \<and> map_of (nr_WorkerPools r') n = Some p \<and>
    wp_ProtectedNode p = host \<and> UpdateDrain host \<notin> set (calls (scale_pool E cfg r' jobs n) h2)"
proof -
  obtain n p where n: "map_of (nr_RegisteredNodes r) host = Some n" "map_of (nr_WorkerPools r) n = Some p"
    and r': "r' = r\<lparr>nr_WorkerPools := AList.update n (p\<lparr>wp_ProtectedNode := host\<rparr>) (nr_WorkerPools r)\<rparr>"
    and w: "\<not> lk_Writer (nr_Lock r)"
    using check alloc
    by (auto simp: nodeProtectionCheck_def under_lock_def go_simps host Let_def split: if_splits option.splits)
  have p: "map_of (nr_WorkerPools r') n = Some (p\<lparr>wp_ProtectedNode := host\<rparr>)" using r' by simp
  have "obeys (spares host) (scale_pool E cfg r' jobs n) (\<lambda>_. True)"
    using w r' scaler.evaluate_pool_obeys [of "p\<lparr>wp_ProtectedNode := host\<rparr>" E E cfg r' jobs]
    by (subst scale_pool_run [OF p]) (auto intro!: obeys_bnd obeys_ret)
  then have "UpdateDrain host \<notin> set (calls (scale_pool E cfg r' jobs n) h2)"
    by (auto dest: obeys_calls)
  with n p show ?thesis by auto
qed

definition protect_env :: env where
  "protect_env = ref_env\<lparr>en_getenv := \<lambda>_. ''a1'', en_alloc_info := \<lambda>_ _. Inr (Some demo_alloc)\<rparr>"

theorem protected_node_spared_witness:
  "\<exists>r' h'. nodeProtectionCheck protect_env (nomadCluster protect_env) demo_registry [] = (Ret (r', None), h') \<and>
     UpdateDrain ''n1'' \<notin> set (calls (scale_pool protect_env demo_config r' no_jobs ''pool'') h')"
proof -
  have 1: "en_getenv protect_env ''NOMAD_ALLOC_ID'' \<noteq> []" by (simp add: protect_env_def)
  have 2: "NodeReverseLookup protect_env (en_getenv protect_env ''NOMAD_ALLOC_ID'') [] = (Ret (Inr ''n1''), [AllocInfo ''a1''])"
    by (simp add: NodeReverseLookup_def go_simps protect_env_def demo_alloc_def)
  then obtain r' h' where 3: "nodeProtectionCheck protect_env (nomadCluster protect_env) demo_registry [] = (Ret (r', None), h')"
    using 1 by (simp add: nodeProtectionCheck_def go_simps under_lock_def demo_registry_def NewNodeRegistry_def unlocked_def)
  from protected_node_spared [OF 1 2 3, of demo_config no_jobs h'] 3 show ?thesis
    by (auto simp: demo_registry_def)
qed

text \<open>
  C40: when Replicator runs as a Nomad job on a node that is not (yet) registered, the
  protection check fails with the registry locked for good: every later evaluation of
  every pool waits for ever, without a call to any service.
\<close>

theorem protection_check_leaks_lock:
  assumes alloc: "en_getenv E ''NOMAD_ALLOC_ID'' \<noteq> []"
    and host: "NodeReverseLookup E (en_getenv E ''NOMAD_ALLOC_ID'') h = (Ret (Inr host), h1)" "host \<noteq> []"
    and unregistered: "map_of (nr_RegisteredNodes r) host = None" and free: "nr_Lock r = unlocked"
  shows "\<exists>r' e. nodeProtectionCheck E (nomadCluster E) r h = (Ret (r', Some e), h1) \<and>
    scale_pool E cfg r' jobs n h2 = (Block, h2)"
  using assms
  by (simp add: nodeProtectionCheck_def under_lock_def go_simps Let_def unlocked_def lock_writer_def workerPoolScaling_def)

theorem protection_check_leaks_lock_witness:
  "\<exists>r' e. nodeProtectionCheck protect_env (nomadCluster protect_env) NewNodeRegistry [] = (Ret (r', Some e), [AllocInfo ''a1'']) \<and>
    scale_pool protect_env demo_config r' no_jobs ''pool'' [] = (Block, [])"
  by (rule protection_check_leaks_lock [where host = "''n1''"])
    (simp_all add: NodeReverseLookup_def go_simps protect_env_def demo_alloc_def NewNodeRegistry_def)

section \<open>Consecutive requests\<close>

text \<open>
  The specification of the threshold: of the requests so far, the latest first, count those
  of the same direction in a row; every \<open>T\<close>-th of a row fires, and a request without a
  direction never does.
\<close>

definition run_length :: "string list \<Rightarrow> nat" where
  "run_length ds = length (takeWhile (\<lambda>d. d = hd ds) ds)"

lemma run_length_Cons:
  "run_length (d # ds) = (if ds \<noteq> [] \<and> hd ds = d then Suc (run_length ds) else 1)"
  by (cases ds) (auto simp: run_length_def)

definition fires :: "nat \<Rightarrow> string list \<Rightarrow> bool" where
  "fires T ds \<longleftrightarrow> hd ds \<in> {ScalingDirectionIn, ScalingDirectionOut} \<and> T dvd run_length ds"

text \<open>
  The implementation keeps two counters, which it stores with the state and reads back at the
  next evaluation: each round reads the state, enters the direction and checks the threshold.
\<close>

fun rounds :: "env \<Rightarrow> config \<Rightarrow> worker_pool \<Rightarrow> string list \<Rightarrow> bool list act" where
  "rounds E cfg p [] = ret []"
| "rounds E cfg p (d # ds) =
     bnd (ReadState E (initial_state cfg p) True) (\<lambda>s.
     bnd (checkPoolScalingThreshold (consulClient E) (p\<lparr>wp_State := s\<lparr>st_ScalingDirection := d\<rparr>\<rparr>)) (\<lambda>(q, ok).
     bnd (rounds E cfg p ds) (\<lambda>oks. ret (ok # oks))))"

definition counter :: "nat \<Rightarrow> string \<Rightarrow> string list \<Rightarrow> int" where
  "counter T d ds = (if ds \<noteq> [] \<and> hd ds = d then int (run_length ds mod T) else 0)"

text \<open>The simulation relation: the stored counters are those of the requests so far.\<close>

definition tracks :: "nat \<Rightarrow> string list \<Rightarrow> scaling_state \<Rightarrow> bool" where
  "tracks T ds s \<longleftrightarrow> st_ScaleInRequests s = counter T ScalingDirectionIn ds \<and>
     st_ScaleOutRequests s = counter T ScalingDirectionOut ds"

lemma counter_bound: "0 < T \<Longrightarrow> 0 \<le> counter T d ds \<and> counter T d ds < int T"
  by (simp add: counter_def)

lemma run_step:
  assumes "0 < T"
  shows "(int (Suc (m mod T)) = int T) = (T dvd Suc m)" and "\<not> T dvd Suc m \<Longrightarrow> int (Suc m mod T) = int (m mod T) + 1"
    and "T dvd Suc m \<Longrightarrow> Suc m mod T = 0"
  using assms by (auto simp: mod_Suc dvd_eq_mod_eq_0 split: if_splits)

lemma count_step:
  assumes T: "0 < T" "int T < 2 ^ 63" "wp_ScalingThreshold p = int T" and s: "tracks T ds (wp_State p)"
    and d: "st_ScalingDirection (wp_State p) = d"
  shows "snd (count_request p) = fires T (d # ds)" and "tracks T (d # ds) (wp_State (fst (count_request p)))"
proof -
  have i: "i64 (counter T x ds + 1) = counter T x ds + 1" for x
    using counter_bound [OF T(1), of x ds] T(2) by (intro i64_id) linarith
  have c: "counter T x (x # ds) = (if T dvd run_length (x # ds) then 0 else counter T x ds + 1)"
    and f: "(counter T x ds + 1 = int T) = (T dvd run_length (x # ds))" for x
    using run_step [OF T(1), of "run_length ds"] run_step [OF T(1), of 0] T(1)
    by (auto simp: counter_def run_length_Cons)
  have o: "x \<noteq> y \<Longrightarrow> counter T x (y # ds) = 0" for x y by (simp add: counter_def)
  show "snd (count_request p) = fires T (d # ds)" and "tracks T (d # ds) (wp_State (fst (count_request p)))"
    using s d by (auto simp: count_request_def Let_def fires_def tracks_def T(3) i f c o)
qed

definition storable :: "scaling_state \<Rightarrow> bool" where
  "storable s \<longleftrightarrow> time_ok (st_LastNotificationEvent s) \<and> time_ok (st_LastScalingEvent s) \<and> in64 (st_FailureCount s)"

definition reads :: "env \<Rightarrow> config \<Rightarrow> worker_pool \<Rightarrow> nat \<Rightarrow> string list \<Rightarrow> log \<Rightarrow> bool" where
  "reads E cfg p T ds h \<longleftrightarrow> (\<exists>s h'. ReadState E (initial_state cfg p) True h = (Ret s, h') \<and> tracks T ds s \<and>
     storable s \<and> st_StatePath s = st_StatePath (initial_state cfg p))"

text \<open>A store that works: writes succeed, are read back, and the clock is within the calendar.\<close>

definition store_works :: "env \<Rightarrow> bool" where
  "store_works E \<longleftrightarrow> kv_law E \<and> (\<forall>h k v. en_kv_put E h k v = None) \<and> (\<forall>h. time_ok (en_now E h))"

lemma persist_works:
  assumes "store_works E" and "storable s"
  shows "PersistState E s h = (Ret (s\<lparr>st_LastUpdated := en_now E h\<rparr>, None),
    h @ [Now, KVPut (st_StatePath s) (json_of_state (s\<lparr>st_LastUpdated := en_now E h\<rparr>))])"
  using assms by (simp add: PersistState_def go_simps store_works_def storable_def marshal_state_def Let_def)

lemma tracks_in64: "0 < T \<Longrightarrow> int T < 2 ^ 63 \<Longrightarrow> tracks T ds s \<Longrightarrow> storable s \<Longrightarrow> in64_state s"
  using counter_bound [of T ScalingDirectionIn ds] counter_bound [of T ScalingDirectionOut ds]
  by (auto simp: in64_state_def tracks_def storable_def)

lemma count_request_frame:
  "storable (wp_State (fst (count_request p))) = storable (wp_State p)"
  "st_StatePath (wp_State (fst (count_request p))) = st_StatePath (wp_State p)"
  by (simp_all add: count_request_def storable_def Let_def)

lemma round_step:
  assumes T: "0 < T" "int T < 2 ^ 63" "wp_ScalingThreshold p = int T" and E: "store_works E"
    and h: "reads E cfg p T ds h"
  shows "\<exists>h'. rounds E cfg p (d # es) h = bnd (rounds E cfg p es) (\<lambda>oks. ret (fires T (d # ds) # oks)) h' \<and>
    reads E cfg p T (d # ds) h'"
proof -
  obtain s h1 where s: "ReadState E (initial_state cfg p) True h = (Ret s, h1)" "tracks T ds s" "storable s"
    "st_StatePath s = st_StatePath (initial_state cfg p)" using h unfolding reads_def by blast
  let ?p = "p\<lparr>wp_State := s\<lparr>st_ScalingDirection := d\<rparr>\<rparr>"
  let ?q = "fst (count_request ?p)"
  have c: "snd (count_request ?p) = fires T (d # ds)" "tracks T (d # ds) (wp_State ?q)"
    using count_step [of T ?p ds d] T s(2) by (simp_all add: tracks_def)
  have q: "storable (wp_State ?q)" "st_StatePath (wp_State ?q) = st_StatePath (initial_state cfg p)"
    using s(3,4) count_request_frame [of ?p] by (auto simp: storable_def)
  note w = persist_works [OF E q(1), of h1]
  let ?s = "(wp_State ?q)\<lparr>st_LastUpdated := en_now E h1\<rparr>"
  let ?h = "h1 @ [Now, KVPut (st_StatePath (wp_State ?q)) (json_of_state ?s)]"
  have "ReadState E (initial_state cfg p) True ?h =
      (Ret (?s\<lparr>st_ScalingDirection := st_ScalingDirection (initial_state cfg p)\<rparr>), ?h @ [KVGet (st_StatePath (wp_State ?q))])"
    using E by (intro persist_then_read [OF _ w] tracks_in64 [OF T(1,2) c(2) q(1)]) (simp_all add: store_works_def q(2))
  then have "reads E cfg p T (d # ds) ?h"
    using c(2) q unfolding reads_def by (fastforce simp: tracks_def storable_def)
  moreover have "rounds E cfg p (d # es) h = bnd (rounds E cfg p es) (\<lambda>oks. ret (fires T (d # ds) # oks)) ?h"
    using s(1) w c(1) by (simp add: bnd_app checkPoolScalingThreshold_def split_def ret_app Let_def)
  ultimately show ?thesis by blast
qed

lemma rounds_from:
  assumes T: "0 < T" "int T < 2 ^ 63" "wp_ScalingThreshold p = int T" and E: "store_works E"
    and h: "reads E cfg p T hs h"
  shows "fst (rounds E cfg p ds h) = Ret (map (\<lambda>i. fires T (rev (take (Suc i) ds) @ hs)) [0..<length ds])"
  using h
proof (induction ds arbitrary: h hs)
  case (Cons d ds)
  obtain h' where h': "rounds E cfg p (d # ds) h = bnd (rounds E cfg p ds) (\<lambda>oks. ret (fires T (d # hs) # oks)) h'"
    "reads E cfg p T (d # hs) h'" using round_step [OF T E Cons.prems] by blast
  have "fst (rounds E cfg p ds h') = Ret (map (\<lambda>i. fires T (rev (take (Suc i) ds) @ d # hs)) [0..<length ds])"
    by (rule Cons.IH [OF h'(2)])
  then have "fst (rounds E cfg p (d # ds) h) =
      Ret (fires T (d # hs) # map (\<lambda>i. fires T (rev (take (Suc i) ds) @ d # hs)) [0..<length ds])"
    unfolding h'(1) by (cases "rounds E cfg p ds h'") (simp add: bnd_app ret_app)
  also have "\<dots> = Ret (map (\<lambda>i. fires T (rev (take (Suc i) (d # ds)) @ hs)) [0..<length (d # ds)])"
    by (simp add: upt_conv_Cons map_Suc_upt [symmetric] o_def del: upt_Suc)
  finally show ?case .
qed (simp add: ret_app)

text \<open>
  C2: through a store that works, the threshold implements its specification: over any sequence
  of evaluations of a pool without stored state, a scaling action is let through exactly at
  every \<open>ScalingThreshold\<close>-th request of the same direction in a row, whichever replicas made
  the evaluations.
\<close>

theorem threshold_counts_runs:
  assumes T: "0 < T" "int T < 2 ^ 63" "wp_ScalingThreshold p = int T" and E: "store_works E"
    and fresh: "en_kv_get E h (st_StatePath (initial_state cfg p)) = Inr None"
  shows "fst (rounds E cfg p ds h) = Ret (map (\<lambda>i. fires T (rev (take (Suc i) ds))) [0..<length ds])"
proof -
  have i: "storable (initial_state cfg p)" by (simp add: storable_def initial_state_def empty_state_def time_ok_def day_def Second_def)
  have "reads E cfg p T [] h"
    unfolding reads_def ReadState_def
    using fresh persist_works [OF E i]
    by (simp add: go_simps initial_state_def empty_state_def tracks_def counter_def storable_def time_ok_def day_def Second_def)
  from rounds_from [OF T E this, of ds] show ?thesis by simp
qed

theorem threshold_counts_runs_witness:
  "fst (rounds ref_env demo_config demo_pool [''Out'', ''Out'', ''In'', ''Out'', ''Out'', ''Out'', ''Out''] []) =
     Ret [False, False, False, False, False, True, False]"
    (is "fst (rounds _ _ _ ?ds _) = _")
proof -
  have "store_works ref_env"
    by (simp add: store_works_def kv_law_ref_env) (simp add: ref_env_def time_ok_def day_def Second_def)
  moreover have "wp_ScalingThreshold demo_pool = int 3" by (simp add: demo_pool_def NewWorkerPool_def)
  moreover have "en_kv_get ref_env [] (st_StatePath (initial_state demo_config demo_pool)) = Inr None"
    by (simp add: ref_env_def)
  ultimately have "fst (rounds ref_env demo_config demo_pool ?ds []) =
      Ret (map (\<lambda>i. fires 3 (rev (take (Suc i) ?ds))) [0..<length ?ds])"
    by (intro threshold_counts_runs) simp_all
  also have "\<dots> = Ret [False, False, False, False, False, True, False]" by code_simp
  finally show ?thesis .
qed

end
