(* ===== verification/Job_Policies.thy ===== *)
theory Job_Policies
  imports Helper
begin

text \<open>
  The scaling policies of the jobs: \<open>client/job_scaling_policies.go\<close>.  The policies of a job
  are a slice of pointers, and several loops change a slice while they range over it: the
  model keeps the backing array that such a loop reads apart from the slice that it changes.
  Goroutines are tasks, run one at a time in any order.  \<open>decode\<close> stands for
  \<open>mapstructure\<close>'s weakly typed decoding of a group's meta data into a policy with default
  values, \<open>hash\<close> for \<open>hashstructure.Hash\<close>.
\<close>

type_synonym policy_decoder = "(string, string) gomap \<Rightarrow> group_policy \<Rightarrow> group_policy result"

abbreviation "JobTypeSystem \<equiv> ''system''"
abbreviation "JobStatusRunning \<equiv> ''running''"
abbreviation "JobStatusDead \<equiv> ''dead''"

section \<open>Removing from a slice while ranging over it\<close>

text \<open>
  \<open>s = append(s[:i], s[i+1:]...)\<close> on a slice of length \<open>m\<close> with the backing array \<open>arr\<close>: the
  elements after \<open>i\<close> move down in the array, whose tail stays as it was; a position at or
  beyond the length is out of bounds.
\<close>

definition remove_at :: "nat \<Rightarrow> 'a list \<times> nat \<Rightarrow> ('a list \<times> nat) option" where
  "remove_at i = (\<lambda>(arr, m).
     if m < i + 1 then None
     else Some (take i arr @ take (m - (i + 1)) (drop (i + 1) arr) @ drop (m - 1) arr, m - 1))"

text \<open>
  \<open>for i, x := range s \<dots> if P x \<dots>\<close> over the \<open>n\<close> positions the slice had when the loop began,
  each read from the array as it is by then.
\<close>

fun remove_loop :: "('a \<Rightarrow> bool) \<Rightarrow> nat \<Rightarrow> nat \<Rightarrow> 'a list \<times> nat \<Rightarrow> ('a list \<times> nat) option" where
  "remove_loop P i 0 s = Some s"
| "remove_loop P i (Suc n) s =
     (if P (fst s ! i)
      then (case remove_at i s of None \<Rightarrow> None | Some s' \<Rightarrow> remove_loop P (Suc i) n s')
      else remove_loop P (Suc i) n s)"

definition remove_ranging :: "('a \<Rightarrow> bool) \<Rightarrow> 'a list \<Rightarrow> 'a list option" where
  "remove_ranging P xs =
     map_option (\<lambda>(arr, m). take m arr) (remove_loop P 0 (length xs) (xs, length xs))"

section \<open>client/job\_scaling\_policies.go\<close>

definition removeGroupScalingPolicy :: "string \<Rightarrow> string \<Rightarrow> job_policies \<Rightarrow> job_policies act" where
  "removeGroupScalingPolicy jobName groupName scaling =
     (case map_of (jp_Policies scaling) jobName of
        None \<Rightarrow> ret scaling
      | Some val \<Rightarrow>
          (case remove_ranging (\<lambda>p. gp_GroupName (jp_Heap scaling p) = groupName) val of
             None \<Rightarrow> panic
           | Some rest \<Rightarrow>
               ret (scaling\<lparr>jp_Policies :=
                 (if rest = [] then AList.delete jobName (jp_Policies scaling)
                  else AList.update jobName rest (jp_Policies scaling))\<rparr>)))"

definition RemoveJobScalingPolicy :: "string \<Rightarrow> job_policies \<Rightarrow> job_policies" where
  "RemoveJobScalingPolicy jobName scaling =
     (if has_key (jp_Policies scaling) jobName
      then scaling\<lparr>jp_Policies := AList.delete jobName (jp_Policies scaling)\<rparr> else scaling)"

text \<open>
  The names of the job's groups are taken out of the names of its policies, one after the
  other, each time while ranging over them.
\<close>

fun remove_names :: "string list \<Rightarrow> string list \<Rightarrow> string list option" where
  "remove_names [] names = Some names"
| "remove_names (g # gs) names =
     (case remove_ranging (\<lambda>gp. g = gp) names of None \<Rightarrow> None | Some names' \<Rightarrow> remove_names gs names')"

fun remove_groups :: "string \<Rightarrow> string list \<Rightarrow> job_policies \<Rightarrow> job_policies act" where
  "remove_groups jobName [] scaling = ret scaling"
| "remove_groups jobName (g # gs) scaling =
     bnd (removeGroupScalingPolicy jobName g scaling) (remove_groups jobName gs)"

definition checkOrphanedGroup :: "string \<Rightarrow> task_group list \<Rightarrow> job_policies \<Rightarrow> job_policies act" where
  "checkOrphanedGroup jobName groups scaling =
     (let taskGroupPolicyNames =
            (case map_of (jp_Policies scaling) jobName of
               None \<Rightarrow> [] | Some val \<Rightarrow> map (\<lambda>p. gp_GroupName (jp_Heap scaling p)) val)
      in case remove_names (map tg_Name groups) taskGroupPolicyNames of
           None \<Rightarrow> panic
         | Some orphans \<Rightarrow> remove_groups jobName orphans scaling)"

text \<open>
  The loop of \<open>updateScalingPolicy\<close> over the slice \<open>val\<close> that the job had: \<open>cur\<close> is the job's
  slice now, and \<open>room\<close> the number of elements that can still be appended in place; it is
  \<open>None\<close> once an append has moved \<open>cur\<close> to a new array, after which an assignment to
  \<open>val[i]\<close> no longer reaches it.
\<close>

fun update_loop ::
  "(ptr \<Rightarrow> group_policy) \<Rightarrow> (group_policy \<Rightarrow> int result) \<Rightarrow> string \<Rightarrow> ptr \<Rightarrow> nat \<Rightarrow> ptr list \<Rightarrow> nat option \<Rightarrow> ptr list \<Rightarrow> ptr list" where
  "update_loop heap hash groupName result i [] room cur = cur"
| "update_loop heap hash groupName result i (grp # val) room cur =
     (if gp_GroupName (heap grp) = groupName then
        (if fst (HasObjectChanged hash (heap result) (heap grp)) \<and> room \<noteq> None
         then update_loop heap hash groupName result (Suc i) val room (cur[i := result])
         else update_loop heap hash groupName result (Suc i) val room cur)
      else update_loop heap hash groupName result (Suc i) val
             (case room of None \<Rightarrow> None | Some n \<Rightarrow> if n = 0 then None else Some (n - 1)) (cur @ [result]))"

definition updateScalingPolicy ::
  "env \<Rightarrow> policy_decoder \<Rightarrow> (group_policy \<Rightarrow> int result) \<Rightarrow> string \<Rightarrow> string \<Rightarrow> (string, string) gomap \<Rightarrow>
     job_policies \<Rightarrow> (job_policies \<times> go_error option) act" where
  "updateScalingPolicy E decode hash jobName groupName groupMeta s =
     (case decode groupMeta NewGroupScalingPolicy of
        Inl e \<Rightarrow> ret (s, Some e)
      | Inr decoded \<Rightarrow>
          (let result = jp_Next s;
               heap = (jp_Heap s)(result := decoded\<lparr>gp_GroupName := groupName\<rparr>);
               s' = s\<lparr>jp_Heap := heap, jp_Next := Suc result\<rparr>
           in bnd (spare E) (\<lambda>room.
              let policies =
                (case map_of (jp_Policies s) jobName of
                   None \<Rightarrow> [result]
                 | Some [] \<Rightarrow> [result]
                 | Some val \<Rightarrow> update_loop heap hash groupName result 0 val (Some room) val)
              in ret (s'\<lparr>jp_Policies := AList.update jobName policies (jp_Policies s)\<rparr>, None))))"

definition jobRequiredKeys :: "string list" where
  "jobRequiredKeys =
     [''replicator_enabled'', ''replicator_min'', ''replicator_max'', ''replicator_scalein_mem'',
      ''replicator_scalein_cpu'', ''replicator_scaleout_mem'', ''replicator_scaleout_cpu'',
      ''replicator_notification_uid'']"

text \<open>
  The goroutines.  The closure that updates a policy reads the loop variable \<open>group\<close> when it
  runs, not when it is started: by then the variable may be any of the groups from the
  current one on.
\<close>

datatype policy_task =
    ProcessJob string
  | RemoveJob string
  | CheckOrphaned string "task_group list"
  | RemoveGroup string string
  | UpdatePolicy string "task_group list"

fun group_tasks :: "string \<Rightarrow> task_group list \<Rightarrow> policy_task list" where
  "group_tasks jobID [] = []"
| "group_tasks jobID (grp # groups) =
     (if \<not> tg_HasUpdate grp then group_tasks jobID groups
      else
        let missedKeys = ParseMetaConfig (tg_Meta grp) jobRequiredKeys in
        if length missedKeys = length jobRequiredKeys then
          RemoveGroup jobID (tg_Name grp) # group_tasks jobID groups
        else if length missedKeys > 0 then group_tasks jobID groups
        else UpdatePolicy jobID (grp # groups) # group_tasks jobID groups)"

text \<open>An error of the API is logged, and the missing answer then dereferenced.\<close>

definition jobScalingPolicyProcessor :: "env \<Rightarrow> string \<Rightarrow> policy_task list act" where
  "jobScalingPolicyProcessor E jobID =
     bnd (job_info E jobID) (\<lambda>resp.
     case resp of
       Inl e \<Rightarrow> panic
     | Inr jobInfo \<Rightarrow>
         (if jb_Type jobInfo = JobTypeSystem then ret []
          else if jb_Status jobInfo \<noteq> JobStatusRunning then ret []
          else ret (CheckOrphaned jobID (jb_TaskGroups jobInfo) # group_tasks jobID (jb_TaskGroups jobInfo))))"

fun run_task ::
  "env \<Rightarrow> policy_decoder \<Rightarrow> (group_policy \<Rightarrow> int result) \<Rightarrow> policy_task \<Rightarrow> job_policies \<Rightarrow> (job_policies \<times> policy_task list) act" where
  "run_task E decode hash (ProcessJob j) s = bnd (jobScalingPolicyProcessor E j) (\<lambda>ts. ret (s, ts))"
| "run_task E decode hash (RemoveJob j) s = ret (RemoveJobScalingPolicy j s, [])"
| "run_task E decode hash (CheckOrphaned j gs) s = bnd (checkOrphanedGroup j gs s) (\<lambda>s'. ret (s', []))"
| "run_task E decode hash (RemoveGroup j g) s = bnd (removeGroupScalingPolicy j g s) (\<lambda>s'. ret (s', []))"
| "run_task E decode hash (UpdatePolicy j gs) s =
     bnd (sched E) (\<lambda>k.
     let grp = gs ! (k mod length gs) in
     bnd (updateScalingPolicy E decode hash j (tg_Name grp) (tg_Meta grp) s) (\<lambda>(s', err). ret (s', [])))"

definition job_task :: "int \<Rightarrow> job_stub \<Rightarrow> policy_task list" where
  "job_task lastChangeIndex job =
     (if js_ModifyIndex job \<le> lastChangeIndex then []
      else if js_Status job = JobStatusRunning then [ProcessJob (js_ID job)]
      else if js_Status job = JobStatusDead then [RemoveJob (js_ID job)]
      else [])"

text \<open>One iteration of the endless loop of \<open>JobWatcher\<close>: the new index and the tasks it starts.\<close>

definition JobWatcher_iter :: "env \<Rightarrow> int \<Rightarrow> job_policies \<Rightarrow> (int \<times> job_policies \<times> policy_task list) act" where
  "JobWatcher_iter E waitIndex jobScalingPolicies =
     bnd (jobs_list E waitIndex) (\<lambda>resp.
     case resp of
       Inl e \<Rightarrow> ret (waitIndex, jobScalingPolicies, [])
     | Inr (jobs, lastIndex) \<Rightarrow>
         (if lastIndex \<le> jp_LastChangeIndex jobScalingPolicies then ret (waitIndex, jobScalingPolicies, [])
          else ret (lastIndex, jobScalingPolicies\<lparr>jp_LastChangeIndex := lastIndex\<rparr>,
                    concat (map (job_task (jp_LastChangeIndex jobScalingPolicies)) jobs))))"

section \<open>What the removal loop does\<close>

lemma remove_loop_skip:
  "(\<forall>j. i \<le> j \<and> j < i + n \<longrightarrow> \<not> P (fst s ! j)) \<Longrightarrow> remove_loop P i (n + n') s = remove_loop P (i + n) n' s"
  by (induction n arbitrary: i) auto

lemma remove_loop_keeps:
  "(\<forall>j. i \<le> j \<and> j < i + n \<longrightarrow> \<not> P (fst s ! j)) \<Longrightarrow> remove_loop P i n s = Some s"
  using remove_loop_skip [of i n P s 0] by simp

lemma remove_ranging_none: "filter P xs = [] \<Longrightarrow> remove_ranging P xs = Some xs"
  unfolding remove_ranging_def
  by (subst remove_loop_keeps) (auto simp: filter_empty_conv)

text \<open>A single match is removed, and nothing else.\<close>

lemma remove_ranging_single:
  assumes y: "\<forall>y \<in> set ys. \<not> P y" and x: "P x" and z: "\<forall>z \<in> set zs. \<not> P z"
  shows "remove_ranging P (ys @ x # zs) = Some (ys @ zs)"
proof -
  let ?xs = "ys @ x # zs"
  let ?arr = "ys @ zs @ [last ?xs]"
  have n: "length ?xs = length ys + Suc (length zs)" by simp
  have "remove_loop P 0 (length ?xs) (?xs, length ?xs) = remove_loop P (length ys) (Suc (length zs)) (?xs, length ?xs)"
    unfolding n by (subst remove_loop_skip) (auto simp: nth_append y)
  also have "remove_at (length ys) (?xs, length ?xs) = Some (?arr, length ys + length zs)"
    by (simp add: remove_at_def drop_eq_Nil append_eq_conv_conj)
      (metis append_butlast_last_id append_eq_conv_conj length_append_singleton length_butlast last_ConsL last_ConsR list.distinct(1) list.size(3,4) diff_Suc_1 length_Cons)
  then have "remove_loop P (length ys) (Suc (length zs)) (?xs, length ?xs) =
      remove_loop P (Suc (length ys)) (length zs) (?arr, length ys + length zs)"
    by (simp add: x nth_append)
  also have "\<dots> = Some (?arr, length ys + length zs)"
  proof (rule remove_loop_keeps, clarify)
    fix j assume j: "Suc (length ys) \<le> j" "j < Suc (length ys) + length zs" and p: "P (fst (?arr, length ys + length zs) ! j)"
    then have "zs \<noteq> []" by auto
    then have l: "last ?xs \<in> set zs" by simp
    have "?arr ! j \<in> set (zs @ [last ?xs])" using j by (simp add: nth_append)
    with l z p show False by auto
  qed
  finally show ?thesis by (simp add: remove_ranging_def)
qed

lemma remove_ranging_at_most_one:
  assumes "length (filter P xs) \<le> 1"
  shows "remove_ranging P xs = Some (filter (\<lambda>x. \<not> P x) xs)"
proof (cases "filter P xs")
  case Nil
  then have "filter (\<lambda>x. \<not> P x) xs = xs" by (auto simp: filter_empty_conv filter_id_conv)
  with Nil show ?thesis by (simp add: remove_ranging_none)
next
  case (Cons x r)
  with assms have "filter P xs = [x]" by simp
  then obtain ys zs where "xs = ys @ x # zs" "\<forall>y \<in> set ys. \<not> P y" "P x" "filter P zs = []"
    by (auto simp: filter_eq_Cons_iff)
  then show ?thesis by (auto simp: remove_ranging_single filter_empty_conv filter_id_conv)
qed

text \<open>With several matches the last position decides: it is never overwritten, and once an element
  is gone it lies beyond the slice.\<close>

lemma remove_loop_past_end:
  assumes "m < length arr" and "P (last arr)" and "i + n = length arr" and "0 < n"
  shows "remove_loop P i n (arr, m) = None"
  using assms
proof (induction n arbitrary: i arr m)
  case (Suc n)
  show ?case
  proof (cases "n = 0")
    case True
    with Suc.prems have "arr ! i = last arr" by (metis add_diff_cancel_right' gr_implies_not0 last_conv_nth length_0_conv Suc_eq_plus1 add.commute plus_nat.add_0)
    with Suc.prems True show ?thesis by (simp add: remove_at_def)
  next
    case False
    have "remove_loop P (Suc i) n s' = None" if s': "remove_at i (arr, m) = Some s'" for s'
    proof -
      obtain arr' m' where [simp]: "s' = (arr', m')" by (cases s')
      have m: "i + 1 \<le> m" and a: "arr' = take i arr @ take (m - (i + 1)) (drop (i + 1) arr) @ drop (m - 1) arr" "m' = m - 1"
        using s' by (auto simp: remove_at_def split: if_splits)
      have "length arr' = length arr" using a m Suc.prems by auto
      moreover have "last arr' = last arr" using a m Suc.prems(1) by simp
      ultimately show ?thesis using Suc.IH [of m' arr' "Suc i"] Suc.prems a(2) False by simp
    qed
    moreover have "remove_loop P (Suc i) n (arr, m) = None" using Suc.IH [of m arr "Suc i"] Suc.prems False by simp
    ultimately show ?thesis by (simp split: option.split)
  qed
qed simp

lemma remove_ranging_last_twice:
  assumes "P (last xs)" and "2 \<le> length (filter P xs)"
  shows "remove_ranging P xs = None"
proof -
  obtain x r where "filter P xs = x # r" using assms(2) by (cases "filter P xs") auto
  then obtain ys zs where xs: "xs = ys @ x # zs" "\<forall>y \<in> set ys. \<not> P y" "P x" "filter P zs = r"
    by (auto simp: filter_eq_Cons_iff)
  have zs: "zs \<noteq> []" using assms(2) xs by auto
  let ?arr = "take (length ys) xs @ take (length xs - (length ys + 1)) (drop (length ys + 1) xs) @ drop (length xs - 1) xs"
  have "remove_loop P 0 (length ys + Suc (length zs)) (xs, length xs) =
      remove_loop P (length ys) (Suc (length zs)) (xs, length xs)"
    by (subst remove_loop_skip) (auto simp: xs nth_append)
  also have "\<dots> = remove_loop P (Suc (length ys)) (length zs) (?arr, length xs - 1)"
    using xs by (simp add: remove_at_def)
  also have "\<dots> = None"
    by (rule remove_loop_past_end) (use assms(1) xs zs in \<open>auto simp: last_drop\<close>)
  finally show ?thesis by (simp add: remove_ranging_def xs(1))
qed

lemma shifted_nth:
  assumes "i \<le> j" and "j < m - 1" and "m \<le> length arr"
  shows "(take i arr @ take (m - (i + 1)) (drop (i + 1) arr) @ drop (m - 1) arr) ! j = arr ! Suc j"
  using assms by (auto simp: nth_append min_def)

lemma kept_nth:
  assumes "i < m" and "m \<le> length arr" and "m - 1 \<le> j" and "j < length arr"
  shows "(take i arr @ take (m - (i + 1)) (drop (i + 1) arr) @ drop (m - 1) arr) ! j = arr ! j"
proof -
  let ?front = "take i arr @ take (m - (i + 1)) (drop (i + 1) arr)"
  have "length ?front = m - 1" using assms by auto
  then have "(?front @ drop (m - 1) arr) ! j = drop (m - 1) arr ! (j - (m - 1))"
    using assms(3) by (simp only: nth_append not_less [symmetric] if_False)
  then show ?thesis using assms by simp
qed

lemma remove_loop_inside:
  assumes "1 \<le> m" and "m \<le> length arr" and "\<forall>j. m - 1 \<le> j \<and> j < length arr \<longrightarrow> \<not> P (arr ! j)" and "i + n = length arr"
  shows "remove_loop P i n (arr, m) \<noteq> None"
  using assms
proof (induction n arbitrary: i arr m)
  case (Suc n)
  show ?case
  proof (cases "P (arr ! i)")
    case True
    with Suc.prems have i: "i < m - 1" by (metis add_Suc_right le_add1 less_Suc_eq_le not_le)
    let ?arr = "take i arr @ take (m - (i + 1)) (drop (i + 1) arr) @ drop (m - 1) arr"
    have l: "length ?arr = length arr" using i Suc.prems(2) by simp
    have "\<not> P (?arr ! j)" if j: "m - 2 \<le> j" "j < length arr" for j
    proof (cases "j = m - 2")
      case True
      have "?arr ! j = arr ! Suc j" by (rule shifted_nth) (use i True Suc.prems(2) in auto)
      with True i have "?arr ! j = arr ! (m - 1)" by (simp add: numeral_2_eq_2 Suc_diff_Suc)
      then show ?thesis using Suc.prems by auto
    next
      case False
      have "?arr ! j = arr ! j" by (rule kept_nth) (use False i j Suc.prems(2) in auto)
      then show ?thesis using Suc.prems(3) j False by auto
    qed
    then have "remove_loop P (Suc i) n (?arr, m - 1) \<noteq> None"
      using Suc.IH [of "m - 1" ?arr "Suc i"] Suc.prems(1,2,4) i l by (simp add: numeral_2_eq_2)
    with True i show ?thesis by (simp add: remove_at_def)
  next
    case False
    have "remove_loop P (Suc i) n (arr, m) \<noteq> None"
      by (rule Suc.IH) (use Suc.prems in auto)
    with False show ?thesis by simp
  qed
qed simp

lemma remove_ranging_None_iff:
  "remove_ranging P xs = None \<longleftrightarrow> xs \<noteq> [] \<and> P (last xs) \<and> 2 \<le> length (filter P xs)"
proof (cases "xs = []")
  case False
  show ?thesis
  proof (cases "2 \<le> length (filter P xs)")
    case True
    have "remove_ranging P xs \<noteq> None" if "\<not> P (last xs)"
      unfolding remove_ranging_def map_option_is_None
    proof (rule remove_loop_inside)
      show "\<forall>j. length xs - 1 \<le> j \<and> j < length xs \<longrightarrow> \<not> P (xs ! j)"
        using that False by (metis One_nat_def Suc_pred last_conv_nth le_antisym length_greater_0_conv less_Suc_eq_le)
    qed (use False in \<open>auto simp: Suc_leI\<close>)
    then show ?thesis using remove_ranging_last_twice [OF _ True] True False by blast
  qed (use remove_ranging_at_most_one [of P xs] in auto)
qed (simp add: remove_ranging_def)

lemma remove_at_set:
  assumes "remove_at i (arr, m) = Some (arr', m')" and "m \<le> length arr"
  shows "set arr' \<subseteq> set arr" and "m' \<le> length arr'"
proof -
  have a: "arr' = take i arr @ take (m - (i + 1)) (drop (i + 1) arr) @ drop (m - 1) arr" "m' = m - 1"
    using assms(1) by (auto simp: remove_at_def split: if_splits)
  show "set arr' \<subseteq> set arr" unfolding a(1) by (auto dest: in_set_takeD in_set_dropD)
  show "m' \<le> length arr'" using assms unfolding a by (auto simp: remove_at_def split: if_splits)
qed

lemma remove_loop_set:
  "remove_loop P i n (arr, m) = Some (arr', m') \<Longrightarrow> m \<le> length arr \<Longrightarrow> set arr' \<subseteq> set arr"
proof (induction n arbitrary: i arr m)
  case (Suc n)
  then show ?case
    by (auto split: if_splits option.splits) (metis Suc.IH remove_at_set subsetD surj_pair)+
qed simp

lemma remove_ranging_subset: "remove_ranging P xs = Some ys \<Longrightarrow> set ys \<subseteq> set xs"
  by (auto simp: remove_ranging_def dest: in_set_takeD remove_loop_set)

section \<open>What an update does\<close>

text \<open>The groups that the policies of a job are for, in the order of its slice.\<close>

definition policy_names :: "job_policies \<Rightarrow> string \<Rightarrow> string list" where
  "policy_names s j = map (\<lambda>p. gp_GroupName (jp_Heap s p)) (case map_of (jp_Policies s) j of None \<Rightarrow> [] | Some ps \<Rightarrow> ps)"

lemma update_loop_length:
  "length (update_loop heap hash g r i val room cur) =
     length cur + length (filter (\<lambda>p. gp_GroupName (heap p) \<noteq> g) val)"
  by (induction val arbitrary: i room cur) auto

lemma update_loop_set: "set (update_loop heap hash g r i val room cur) \<subseteq> insert r (set cur)"
proof (induction val arbitrary: i room cur)
  case (Cons v val)
  have "set (cur[i := r]) \<subseteq> insert r (set cur)" by (rule set_update_subset_insert)
  then show ?case
    using Cons.IH [of "Suc i" room "cur[i := r]"] Cons.IH [of "Suc i" room cur]
      Cons.IH [of "Suc i" _ "cur @ [r]"] by (auto; blast)
qed auto

text \<open>An append happens exactly if there is an entry of another group, and it comes last.\<close>

lemma update_loop_last:
  assumes "(cur \<noteq> [] \<and> last cur = r \<and> length cur > i + length val) \<or> (\<exists>p \<in> set val. gp_GroupName (heap p) \<noteq> g)"
    and "i + length val \<le> length cur"
  shows "last (update_loop heap hash g r i val room cur) = r"
  using assms
proof (induction val arbitrary: i room cur)
  case (Cons v val)
  show ?case
  proof (cases "gp_GroupName (heap v) = g")
    case True
    have l: "last (cur[i := r]) = last cur" if "length cur > i + length (v # val)"
      using that by (subst last_list_update) auto
    show ?thesis using Cons.IH [of cur "Suc i" room] Cons.IH [of "cur[i := r]" "Suc i" room] Cons.prems True l by auto
  next
    case False
    then show ?thesis using Cons.IH [of "cur @ [r]" "Suc i"] Cons.prems by auto
  qed
qed auto

lemma update_loop_keeps: "r \<in> set cur \<Longrightarrow> r \<in> set (update_loop heap hash g r i val room cur)"
proof (induction val arbitrary: i room cur)
  case (Cons v val)
  have "r \<in> set (cur[i := r])"
    using Cons.prems by (cases "i < length cur") (simp_all add: set_update_memI list_update_beyond)
  then show ?case using Cons by simp
qed simp

lemma update_loop_same_group:
  assumes "\<forall>p \<in> set val. gp_GroupName (heap p) = g" and "i + length val \<le> length cur"
  shows "r \<in> set (update_loop heap hash g r i val (Some n) cur) \<or>
    update_loop heap hash g r i val (Some n) cur = cur \<and>
      (\<forall>p \<in> set val. \<not> fst (HasObjectChanged hash (heap r) (heap p)))"
  using assms
proof (induction val arbitrary: i)
  case (Cons v val)
  have "r \<in> set (cur[i := r])" using Cons.prems(2) by (intro set_update_memI) simp
  then have "r \<in> set (update_loop heap hash g r (Suc i) val (Some n) (cur[i := r]))" by (rule update_loop_keeps)
  then show ?case using Cons.IH [of "Suc i"] Cons.prems by auto
qed simp

lemma update_loop_entry:
  assumes "val \<noteq> []"
  shows "\<exists>p \<in> set (update_loop heap hash g r 0 val (Some n) val).
    p = r \<or> p \<in> set val \<and> gp_GroupName (heap p) = g \<and> \<not> fst (HasObjectChanged hash (heap r) (heap p))"
proof (cases "\<exists>p \<in> set val. gp_GroupName (heap p) \<noteq> g")
  case True
  then have "last (update_loop heap hash g r 0 val (Some n) val) = r" by (intro update_loop_last) auto
  moreover have "update_loop heap hash g r 0 val (Some n) val \<noteq> []"
    using update_loop_length [of heap hash g r 0 val "Some n" val] assms by force
  ultimately show ?thesis by (metis last_in_set)
next
  case False
  then show ?thesis
    using update_loop_same_group [of val heap g 0 val r hash n] assms by (cases val) auto
qed

lemma update_loop_names:
  assumes "gp_GroupName (heap r) = g" and "take (length val) (drop i cur) = val"
  shows "map (\<lambda>p. gp_GroupName (heap p)) (update_loop heap hash g r i val room cur) =
    map (\<lambda>p. gp_GroupName (heap p)) cur @ replicate (length (filter (\<lambda>p. gp_GroupName (heap p) \<noteq> g) val)) g"
  using assms(2)
proof (induction val arbitrary: i room cur)
  case (Cons v val)
  have i: "i < length cur" "cur ! i = v" "take (length val) (drop (Suc i) cur) = val"
  proof -
    obtain rest where r: "drop i cur = v # rest" "take (length val) rest = val"
      using Cons.prems by (cases "drop i cur") auto
    show "i < length cur" using r(1) by (metis drop_eq_Nil list.distinct(1) not_le)
    show "cur ! i = v" using r(1) by (metis nth_via_drop)
    show "take (length val) (drop (Suc i) cur) = val" using r by (metis drop_Suc list.sel(3) tl_drop)
  qed
  have l: "Suc (length val + i) \<le> length cur" using arg_cong [OF i(3), of length] i(1) by auto
  have "map (\<lambda>p. gp_GroupName (heap p)) (cur[i := r]) = map (\<lambda>p. gp_GroupName (heap p)) cur" if "gp_GroupName (heap v) = g"
    using that i assms(1) by (simp add: map_update list_update_same_conv)
  then show ?case
    using Cons.IH [of "Suc i" "cur[i := r]"] Cons.IH [of "Suc i" cur] Cons.IH [of "Suc i" "cur @ [r]"] i l
    by (auto simp: assms(1))
qed simp

lemma length_filter_at: "length (filter (\<lambda>x. Q (f x)) xs) = length (filter Q (map f xs))"
  by (simp add: filter_map o_def)

text \<open>What a successful update comes to, for a job whose pointers are allocated.\<close>

lemma update_run:
  assumes run: "updateScalingPolicy E decode hash j g meta s h = (Ret (s', None), h')"
    and alloc: "\<forall>ps. map_of (jp_Policies s) j = Some ps \<longrightarrow> (\<forall>p \<in> set ps. p < jp_Next s)"
  obtains decoded qs where "decode meta NewGroupScalingPolicy = Inr decoded"
    and "s' = s\<lparr>jp_Heap := (jp_Heap s)(jp_Next s := decoded\<lparr>gp_GroupName := g\<rparr>), jp_Next := Suc (jp_Next s),
      jp_Policies := AList.update j qs (jp_Policies s)\<rparr>"
    and "\<exists>p \<in> set qs. p = jp_Next s \<or> p < jp_Next s \<and> gp_GroupName (jp_Heap s p) = g \<and>
      \<not> fst (HasObjectChanged hash (decoded\<lparr>gp_GroupName := g\<rparr>) (jp_Heap s p))"
    and "policy_names s' j = (if policy_names s j = [] then [g] else policy_names s j @ replicate (length (filter (\<lambda>n. n \<noteq> g) (policy_names s j))) g)"
proof -
  obtain decoded where d: "decode meta NewGroupScalingPolicy = Inr decoded"
    using run by (auto simp: updateScalingPolicy_def ret_app split: sum.splits)
  let ?r = "jp_Next s" and ?new = "decoded\<lparr>gp_GroupName := g\<rparr>"
  let ?heap = "(jp_Heap s)(?r := ?new)"
  define ps where "ps = (case map_of (jp_Policies s) j of None \<Rightarrow> [] | Some ps \<Rightarrow> ps)"
  define qs where "qs = (if ps = [] then [?r] else update_loop ?heap hash g ?r 0 ps (Some (en_spare E h)) ps)"
  have s': "s' = s\<lparr>jp_Heap := ?heap, jp_Next := Suc ?r, jp_Policies := AList.update j qs (jp_Policies s)\<rparr>"
    using run d by (auto simp: updateScalingPolicy_def go_simps Let_def ps_def qs_def split: option.splits list.splits)
  have less: "p < ?r" if "p \<in> set ps" for p
    using that alloc by (cases "map_of (jp_Policies s) j") (auto simp: ps_def)
  have e: "\<exists>p \<in> set qs. p = ?r \<or> p < ?r \<and> gp_GroupName (jp_Heap s p) = g \<and> \<not> fst (HasObjectChanged hash ?new (jp_Heap s p))"
  proof (cases "ps = []")
    case False
    obtain p where p: "p \<in> set qs" "p = ?r \<or> p \<in> set ps \<and> gp_GroupName (?heap p) = g \<and> \<not> fst (HasObjectChanged hash (?heap ?r) (?heap p))"
      using update_loop_entry [OF False, of ?heap hash g ?r "en_spare E h"] False by (auto simp only: qs_def if_False)
    then have "p = ?r \<or> p < ?r \<and> gp_GroupName (jp_Heap s p) = g \<and> \<not> fst (HasObjectChanged hash ?new (jp_Heap s p))"
      using less [of p] by (cases "p = ?r") simp_all
    with p(1) show ?thesis by blast
  qed (simp add: qs_def)
  have old: "map (\<lambda>p. gp_GroupName (?heap p)) ps = map (\<lambda>p. gp_GroupName (jp_Heap s p)) ps"
    by (rule map_cong [OF refl]) (use less in fastforce)
  have n: "policy_names s j = map (\<lambda>p. gp_GroupName (jp_Heap s p)) ps" by (simp add: policy_names_def ps_def)
  note L = update_loop_names [of ?heap ?r g ps 0 ps hash "Some (en_spare E h)",
    unfolded length_filter_at [of "\<lambda>n. n \<noteq> g" "\<lambda>p. gp_GroupName (?heap p)"] old]
  have "policy_names s' j = map (\<lambda>p. gp_GroupName (?heap p)) qs" by (simp add: policy_names_def s')
  also have "\<dots> = (if policy_names s j = [] then [g] else policy_names s j @ replicate (length (filter (\<lambda>n. n \<noteq> g) (policy_names s j))) g)"
  proof (cases "ps = []")
    case True
    then show ?thesis by (simp add: qs_def n)
  next
    case False
    then have "map (\<lambda>p. gp_GroupName (?heap p)) qs = policy_names s j @ replicate (length (filter (\<lambda>n. n \<noteq> g) (policy_names s j))) g"
      using L unfolding n qs_def by (simp only: if_False fun_upd_same drop0 take_all le_refl) simp
    with False show ?thesis by (simp add: n)
  qed
  finally show thesis using that d s' e by blast
qed

section \<open>Properties\<close>

text \<open>
  C22: the removal of a group's policy, although it ranges over the slice it changes, agrees with
  its specification as long as the group has at most one policy: the other policies stay, in
  their order, and the job's entry goes with its last policy.
\<close>

theorem remove_group_is_filter:
  assumes job: "map_of (jp_Policies s) j = Some ps"
    and one: "length (filter (\<lambda>n. n = g) (policy_names s j)) \<le> 1"
  shows "removeGroupScalingPolicy j g s h =
    (Ret (s\<lparr>jp_Policies :=
       (let rest = filter (\<lambda>p. gp_GroupName (jp_Heap s p) \<noteq> g) ps in
        if rest = [] then AList.delete j (jp_Policies s) else AList.update j rest (jp_Policies s))\<rparr>), h)"
proof -
  have "length (filter (\<lambda>p. gp_GroupName (jp_Heap s p) = g) ps) \<le> 1"
    using one job by (simp add: policy_names_def filter_map o_def)
  from remove_ranging_at_most_one [OF this] job show ?thesis
    by (simp add: removeGroupScalingPolicy_def ret_app)
qed

definition demo_policies :: job_policies where
  "demo_policies = newJobScalingPolicy\<lparr>jp_Policies := [(''job'', [0, 1])], jp_Next := 2,
     jp_Heap := (\<lambda>p. NewGroupScalingPolicy\<lparr>gp_GroupName := if p = 0 then ''a'' else ''b''\<rparr>)\<rparr>"

theorem remove_group_is_filter_witness:
  "removeGroupScalingPolicy ''job'' ''a'' demo_policies [] =
     (Ret (demo_policies\<lparr>jp_Policies := [(''job'', [1])]\<rparr>), [])"
  using remove_group_is_filter [of demo_policies "''job''" "[0, 1]" "''a''" "[]"]
  by (simp add: policy_names_def demo_policies_def NewGroupScalingPolicy_def newJobScalingPolicy_def)

text \<open>
  The removal brings the process down exactly if the group has several policies and one of
  them is the job's last.
\<close>

theorem remove_group_panics_iff:
  "fst (removeGroupScalingPolicy j g s h) = Panic \<longleftrightarrow>
     policy_names s j \<noteq> [] \<and> last (policy_names s j) = g \<and> 2 \<le> length (filter (\<lambda>n. n = g) (policy_names s j))"
proof (cases "map_of (jp_Policies s) j")
  case (Some ps)
  let ?P = "\<lambda>p. gp_GroupName (jp_Heap s p) = g"
  have "fst (removeGroupScalingPolicy j g s h) = Panic \<longleftrightarrow> remove_ranging ?P ps = None"
    using Some by (simp add: removeGroupScalingPolicy_def go_simps split: option.split)
  then show ?thesis unfolding remove_ranging_None_iff using Some by (auto simp: policy_names_def last_map filter_map o_def)
qed (simp add: removeGroupScalingPolicy_def policy_names_def ret_app)

text \<open>
  What an update leaves in the job's entry: the group has a policy with the decoded values,
  or one that hashes to the same value; no pointer but the new one is added, and the new one
  is added once for every policy of another group, so that the entry of a job with several
  groups grows with every update.
\<close>

theorem update_policy_entry:
  assumes run: "updateScalingPolicy E decode hash j g meta s h = (Ret (s', None), h')"
    and alloc: "\<forall>ps. map_of (jp_Policies s) j = Some ps \<longrightarrow> (\<forall>p \<in> set ps. p < jp_Next s)"
  shows "(\<exists>ps decoded. map_of (jp_Policies s') j = Some ps \<and> decode meta NewGroupScalingPolicy = Inr decoded \<and>
      (\<exists>p \<in> set ps. gp_GroupName (jp_Heap s' p) = g \<and>
         (jp_Heap s' p = decoded\<lparr>gp_GroupName := g\<rparr> \<or>
            \<not> fst (HasObjectChanged hash (decoded\<lparr>gp_GroupName := g\<rparr>) (jp_Heap s' p))))) \<and>
    policy_names s' j = (if policy_names s j = [] then [g] else policy_names s j @ replicate (length (filter (\<lambda>n. n \<noteq> g) (policy_names s j))) g)"
proof -
  obtain decoded qs where u: "decode meta NewGroupScalingPolicy = Inr decoded"
    "s' = s\<lparr>jp_Heap := (jp_Heap s)(jp_Next s := decoded\<lparr>gp_GroupName := g\<rparr>), jp_Next := Suc (jp_Next s),
      jp_Policies := AList.update j qs (jp_Policies s)\<rparr>"
    and e: "\<exists>p \<in> set qs. p = jp_Next s \<or> p < jp_Next s \<and> gp_GroupName (jp_Heap s p) = g \<and>
      \<not> fst (HasObjectChanged hash (decoded\<lparr>gp_GroupName := g\<rparr>) (jp_Heap s p))"
    and n: "policy_names s' j = (if policy_names s j = [] then [g] else policy_names s j @ replicate (length (filter (\<lambda>n. n \<noteq> g) (policy_names s j))) g)"
    by (rule update_run [OF run alloc])
  have "map_of (jp_Policies s') j = Some qs" using u(2) by simp
  moreover have "\<exists>p \<in> set qs. gp_GroupName (jp_Heap s' p) = g \<and>
      (jp_Heap s' p = decoded\<lparr>gp_GroupName := g\<rparr> \<or> \<not> fst (HasObjectChanged hash (decoded\<lparr>gp_GroupName := g\<rparr>) (jp_Heap s' p)))"
    using e unfolding u(2) by fastforce
  ultimately show ?thesis using u(1) n by blast
qed

definition demo_policy_decode :: policy_decoder where
  "demo_policy_decode meta p = Inr (p\<lparr>gp_Enabled := True, gp_Min := 1, gp_Max := 4\<rparr>)"

definition demo_policy_hash :: "group_policy \<Rightarrow> int result" where
  "demo_policy_hash p = Inr (gp_Max p)"

lemma demo_update:
  obtains s' where "updateScalingPolicy ref_env demo_policy_decode demo_policy_hash ''job'' ''a'' [] demo_policies [] = (Ret (s', None), [])"
  by (simp add: updateScalingPolicy_def go_simps demo_policy_decode_def Let_def)

lemma demo_policies_alloc:
  "\<forall>ps. map_of (jp_Policies demo_policies) ''job'' = Some ps \<longrightarrow> (\<forall>p \<in> set ps. p < jp_Next demo_policies)"
  by (simp add: demo_policies_def)

theorem update_policy_entry_witness:
  "\<exists>s'. updateScalingPolicy ref_env demo_policy_decode demo_policy_hash ''job'' ''a'' [] demo_policies [] = (Ret (s', None), []) \<and>
     policy_names s' ''job'' = [''a'', ''b'', ''a'']"
proof -
  obtain s' where r: "updateScalingPolicy ref_env demo_policy_decode demo_policy_hash ''job'' ''a'' [] demo_policies [] = (Ret (s', None), [])"
    by (rule demo_update)
  have n: "policy_names demo_policies ''job'' = [''a'', ''b'']" by (simp add: policy_names_def demo_policies_def NewGroupScalingPolicy_def)
  from update_policy_entry [OF r demo_policies_alloc] r show ?thesis
    unfolding n by auto
qed

text \<open>
  Once a job has policies for several groups, updating one of them and then removing it, or
  merely checking the job for orphaned groups as every change of the job does, brings the
  process down.
\<close>

theorem update_then_check_panics:
  assumes run: "updateScalingPolicy E decode hash j g meta s h = (Ret (s', None), h')"
    and alloc: "\<forall>ps. map_of (jp_Policies s) j = Some ps \<longrightarrow> (\<forall>p \<in> set ps. p < jp_Next s)"
    and groups: "g \<in> set (policy_names s j)" "g' \<in> set (policy_names s j)" "g' \<noteq> g"
  shows "fst (removeGroupScalingPolicy j g s' h1) = Panic \<and>
    (\<forall>tg tgs. tg_Name tg = g \<longrightarrow> fst (checkOrphanedGroup j (tg # tgs) s' h1) = Panic)"
proof -
  have ne: "policy_names s j \<noteq> []" using groups(1) by (metis empty_iff list.set(1))
  have n: "policy_names s' j = policy_names s j @ replicate (length (filter (\<lambda>n. n \<noteq> g) (policy_names s j))) g"
    using update_run [OF run alloc] ne by metis
  have k: "filter (\<lambda>n. n \<noteq> g) (policy_names s j) \<noteq> []" and one: "filter (\<lambda>n. n = g) (policy_names s j) \<noteq> []"
    using groups by (auto simp: filter_empty_conv)
  then have last: "policy_names s' j \<noteq> []" "last (policy_names s' j) = g" unfolding n by auto
  have two: "2 \<le> length (filter (\<lambda>n. n = g) (policy_names s' j))"
    using k one unfolding n
    by (cases "filter (\<lambda>n. n \<noteq> g) (policy_names s j)"; cases "filter (\<lambda>n. n = g) (policy_names s j)") auto
  have "remove_ranging (\<lambda>gp. g = gp) (policy_names s' j) = None"
    unfolding remove_ranging_None_iff eq_commute [of g] using last two by simp
  then have "fst (checkOrphanedGroup j (tg # tgs) s' h1) = Panic" if "tg_Name tg = g" for tg tgs
    using that by (simp add: checkOrphanedGroup_def panic_app policy_names_def Let_def split: option.splits)
  moreover have "remove_ranging (\<lambda>p. gp_GroupName (jp_Heap s' p) = g) ps = None" if "map_of (jp_Policies s') j = Some ps" for ps
    using last two that by (subst remove_ranging_None_iff) (auto simp: policy_names_def last_map filter_map o_def)
  then have "fst (removeGroupScalingPolicy j g s' h1) = Panic"
    using last(1) by (cases "map_of (jp_Policies s') j") (auto simp: policy_names_def removeGroupScalingPolicy_def panic_app)
  ultimately show ?thesis by blast
qed

theorem update_then_check_panics_witness:
  "\<exists>s'. updateScalingPolicy ref_env demo_policy_decode demo_policy_hash ''job'' ''a'' [] demo_policies [] = (Ret (s', None), []) \<and>
     fst (removeGroupScalingPolicy ''job'' ''a'' s' []) = Panic"
proof -
  obtain s' where r: "updateScalingPolicy ref_env demo_policy_decode demo_policy_hash ''job'' ''a'' [] demo_policies [] = (Ret (s', None), [])"
    by (rule demo_update)
  have "''a'' \<in> set (policy_names demo_policies ''job'')" "''b'' \<in> set (policy_names demo_policies ''job'')"
    by (simp_all add: policy_names_def demo_policies_def NewGroupScalingPolicy_def)
  from update_then_check_panics [OF r demo_policies_alloc this, of "[]"] r show ?thesis by simp
qed

section \<open>The watcher\<close>

text \<open>
  The policies while the watcher runs: between its iterations any task that was started runs,
  in any order, and may start others.
\<close>

inductive job_watching ::
  "env \<Rightarrow> policy_decoder \<Rightarrow> (group_policy \<Rightarrow> int result) \<Rightarrow> int \<Rightarrow> job_policies \<Rightarrow> policy_task list \<Rightarrow> log \<Rightarrow> bool"
  for E decode hash where
  start: "job_watching E decode hash 1 newJobScalingPolicy [] []"
| iterate: "job_watching E decode hash (fst r) (fst (snd r)) (ts @ snd (snd r)) h'"
    if "job_watching E decode hash w s ts h" and "JobWatcher_iter E w s h = (Ret r, h')"
| task: "job_watching E decode hash w (fst r) (ts @ us @ snd r) h'"
    if "job_watching E decode hash w s (ts @ t # us) h" and "run_task E decode hash t s h = (Ret r, h')"

inductive_cases job_watchingE: "job_watching E decode hash w s ts h"

text \<open>No job has an empty entry, every pointer is to an allocated policy, and every pending update
  has a group to read.\<close>

definition policies_inv :: "job_policies \<Rightarrow> bool" where
  "policies_inv s \<longleftrightarrow> wf_map (jp_Policies s) \<and>
     (\<forall>j ps. map_of (jp_Policies s) j = Some ps \<longrightarrow> ps \<noteq> [] \<and> (\<forall>p \<in> set ps. p < jp_Next s))"

fun task_ok :: "policy_task \<Rightarrow> bool" where
  "task_ok (UpdatePolicy j gs) = (gs \<noteq> [])"
| "task_ok _ = True"

lemma policies_inv_put:
  assumes "policies_inv s" and "ps \<noteq> []" and "\<forall>p \<in> set ps. p < n" and "jp_Next s \<le> n"
  shows "policies_inv (s\<lparr>jp_Heap := heap, jp_Next := n, jp_Policies := AList.update j ps (jp_Policies s)\<rparr>)"
  using assms unfolding policies_inv_def by (fastforce split: if_splits)

lemma policies_inv_delete:
  "policies_inv s \<Longrightarrow> policies_inv (s\<lparr>jp_Policies := AList.delete j (jp_Policies s)\<rparr>)"
  unfolding policies_inv_def by (auto split: if_splits)

lemma remove_group_obeys:
  "policies_inv s \<Longrightarrow> obeys reading (removeGroupScalingPolicy j g s) policies_inv"
  unfolding removeGroupScalingPolicy_def
proof (intro obeys_intro)
  fix ps rest assume s: "policies_inv s" and ps: "map_of (jp_Policies s) j = Some ps"
    and r: "remove_ranging (\<lambda>p. gp_GroupName (jp_Heap s p) = g) ps = Some rest"
  have "\<forall>p \<in> set rest. p < jp_Next s"
    using remove_ranging_subset [OF r] s ps unfolding policies_inv_def by blast
  then show "policies_inv (s\<lparr>jp_Policies := if rest = [] then AList.delete j (jp_Policies s)
      else AList.update j rest (jp_Policies s)\<rparr>)"
    using policies_inv_put [OF s, where ps = rest and n = "jp_Next s" and heap = "jp_Heap s" and j = j]
      policies_inv_delete [OF s, of j] by simp
qed

lemma remove_groups_obeys: "policies_inv s \<Longrightarrow> obeys reading (remove_groups j gs s) policies_inv"
  by (induction gs arbitrary: s) (auto intro!: obeys_ret obeys_bnd [OF remove_group_obeys])

lemma update_obeys:
  assumes s: "policies_inv s"
  shows "obeys reading (updateScalingPolicy E decode hash j g meta s) (\<lambda>(s', err). policies_inv s')"
proof -
  define ps where "ps heap room = (case map_of (jp_Policies s) j of
      None \<Rightarrow> [jp_Next s] | Some [] \<Rightarrow> [jp_Next s]
    | Some val \<Rightarrow> update_loop heap hash g (jp_Next s) 0 val (Some room) val)" for heap room
  have "ps heap room \<noteq> [] \<and> (\<forall>p \<in> set (ps heap room). p < Suc (jp_Next s))" for heap room
  proof (cases "map_of (jp_Policies s) j")
    case (Some val)
    then have v: "val \<noteq> []" "\<forall>p \<in> set val. p < jp_Next s" using s by (auto simp: policies_inv_def)
    then have "ps heap room = update_loop heap hash g (jp_Next s) 0 val (Some room) val"
      using Some by (cases val) (simp_all add: ps_def)
    then show ?thesis
      using v update_loop_length [of heap hash g "jp_Next s" 0 val "Some room" val]
        update_loop_set [of heap hash g "jp_Next s" 0 val "Some room" val]
      by (metis add_is_0 insert_iff length_0_conv less_Suc_eq subsetD)
  qed (simp add: ps_def)
  then have inv: "policies_inv (s\<lparr>jp_Heap := heap', jp_Next := Suc (jp_Next s), jp_Policies := AList.update j (ps heap room) (jp_Policies s)\<rparr>)"
    for heap heap' room by (intro policies_inv_put [OF s]) auto
  show ?thesis
    unfolding updateScalingPolicy_def Let_def spare_def ps_def [symmetric]
    by (intro obeys_intro obeys_bnd_any [OF obeys_ask]) (simp_all add: s inv)
qed

lemma group_tasks_ok: "t \<in> set (group_tasks j gs) \<Longrightarrow> task_ok t"
  by (induction gs) (auto simp: Let_def split: if_splits)

lemma processor_obeys: "obeys reading (jobScalingPolicyProcessor E j) (\<lambda>ts. \<forall>t \<in> set ts. task_ok t)"
  unfolding jobScalingPolicyProcessor_def job_info_def
  by (intro obeys_bnd_any [OF obeys_call] obeys_intro) (auto dest: group_tasks_ok)

lemma run_task_obeys:
  assumes "policies_inv s"
  shows "obeys reading (run_task E decode hash t s) (\<lambda>(s', ts). policies_inv s' \<and> (\<forall>t \<in> set ts. task_ok t))"
proof (cases t)
  case (ProcessJob j)
  then show ?thesis using assms by (auto intro!: obeys_bnd [OF processor_obeys] obeys_ret)
next
  case (RemoveJob j)
  then show ?thesis using assms by (auto intro!: obeys_ret policies_inv_delete simp: RemoveJobScalingPolicy_def)
next
  case (CheckOrphaned j gs)
  then show ?thesis using assms
    by (auto intro!: obeys_bnd [where R = policies_inv] obeys_ret obeys_panic remove_groups_obeys
        simp: checkOrphanedGroup_def Let_def split: option.split)
next
  case (RemoveGroup j g)
  then show ?thesis using assms by (auto intro!: obeys_bnd [OF remove_group_obeys] obeys_ret)
next
  case (UpdatePolicy j gs)
  then show ?thesis using assms
    by (auto intro!: obeys_bnd_any [OF obeys_ask] obeys_bnd [OF update_obeys] obeys_ret simp: sched_def Let_def)
qed

lemma iter_task_obeys:
  "policies_inv s \<Longrightarrow> obeys reading (JobWatcher_iter E w s) (\<lambda>(w', s', ts). policies_inv s' \<and> (\<forall>t \<in> set ts. task_ok t))"
  unfolding JobWatcher_iter_def jobs_list_def
  by (intro obeys_bnd_any [OF obeys_call] obeys_intro) (auto simp: policies_inv_def job_task_def split: if_splits)


definition demo_group :: task_group where
  "demo_group = \<lparr>tg_Name = ''a'', tg_Count = 2, tg_Tasks = [\<lparr>rs_CPU = 100, rs_MemoryMB = 100, rs_DiskMB = 100\<rparr>],
     tg_Meta = map (\<lambda>k. (k, ''1'')) jobRequiredKeys, tg_HasUpdate = True\<rparr>"

definition demo_job :: job where
  "demo_job = \<lparr>jb_ID = ''job'', jb_Type = ''service'', jb_Status = JobStatusRunning, jb_TaskGroups = [demo_group]\<rparr>"

definition jobs_env :: env where
  "jobs_env = ref_env\<lparr>en_jobs_list := (\<lambda>_. Inr ([\<lparr>js_ID = ''job'', js_Status = JobStatusRunning, js_ModifyIndex = 3\<rparr>], 5)),
     en_job_info := (\<lambda>_ _. Inr demo_job)\<rparr>"

lemma demo_watching:
  "\<exists>w s ts h. job_watching jobs_env demo_policy_decode demo_policy_hash w s ts h \<and> policy_names s ''job'' = [''a'']"
proof -
  let ?W = "job_watching jobs_env demo_policy_decode demo_policy_hash"
  let ?s = "newJobScalingPolicy\<lparr>jp_LastChangeIndex := 5\<rparr>"
  let ?orphans = "CheckOrphaned ''job'' [demo_group]" and ?update = "UpdatePolicy ''job'' [demo_group]"
  have "JobWatcher_iter jobs_env 1 newJobScalingPolicy [] = (Ret (5, ?s, [ProcessJob ''job'']), [JobsList 1])"
    by (simp add: JobWatcher_iter_def go_simps jobs_env_def job_task_def newJobScalingPolicy_def)
  from iterate [OF start this] have 1: "?W 5 ?s ([] @ ProcessJob ''job'' # []) [JobsList 1]" by simp
  have "run_task jobs_env demo_policy_decode demo_policy_hash (ProcessJob ''job'') ?s [JobsList 1] =
      (Ret (?s, [?orphans, ?update]), [JobsList 1, JobInfo ''job''])"
    by (simp add: jobScalingPolicyProcessor_def go_simps jobs_env_def demo_job_def demo_group_def ParseMetaConfig_filter jobRequiredKeys_def)
  from task [OF 1 this] have 2: "?W 5 ?s ([?orphans] @ ?update # []) [JobsList 1, JobInfo ''job'']" by simp
  obtain s' where "run_task jobs_env demo_policy_decode demo_policy_hash ?update ?s [JobsList 1, JobInfo ''job''] =
      (Ret (s', []), [JobsList 1, JobInfo ''job''])" and n: "policy_names s' ''job'' = [''a'']"
    by (simp add: updateScalingPolicy_def go_simps demo_policy_decode_def Let_def newJobScalingPolicy_def demo_group_def policy_names_def)
  from task [OF 2 this(1)] n show ?thesis by fastforce
qed


end
