(* ===== verification/Job_Scaling.thy ===== *)
theory Job_Scaling
  imports Job_Policies Failsafe
begin

text \<open>
  Job scaling: the evaluation of a job's groups (\<open>client/nomad.go\<close>), the change of a group's
  count (\<open>client/job_scaling.go\<close>) and the scaling of one job (\<open>replicator/job_scaling.go\<close>).
  The locale \<open>nomad_job_client\<close> is the part of the \<open>NomadClient\<close> interface that the scaling of
  jobs uses, with its contract; the scaling itself is written against it and against the
  state store.  An answer of the allocation statistics is the CPU ticks and the resident
  memory of the allocation.
\<close>

abbreviation "DeploymentStatusRunning \<equiv> ''running''"
abbreviation "DeploymentStatusSuccessful \<equiv> ''successful''"
abbreviation "DeploymentStatusDescriptionPaused \<equiv> ''Deployment is paused''"

section \<open>client/nomad.go\<close>

definition bytesPerMegabyte :: int where "bytesPerMegabyte = 1024000"

definition GetTaskGroupResources :: "env \<Rightarrow> string \<Rightarrow> group_policy \<Rightarrow> (group_policy \<times> go_error option) act" where
  "GetTaskGroupResources E jobName groupPolicy =
     bnd (job_info E jobName) (\<lambda>resp.
     case resp of
       Inl e \<Rightarrow> ret (groupPolicy, Some e)
     | Inr job \<Rightarrow>
         ret (groupPolicy\<lparr>gp_Tasks :=
           fold (\<lambda>task r. r\<lparr>ar_CPUMHz := i64 (ar_CPUMHz r + rs_CPU task), ar_MemoryMB := i64 (ar_MemoryMB r + rs_MemoryMB task)\<rparr>)
             (concat (map tg_Tasks (jb_TaskGroups job)))
             ((gp_Tasks groupPolicy)\<lparr>ar_CPUMHz := 0, ar_MemoryMB := 0\<rparr>)\<rparr>, None))"

definition GetAllocationStats :: "env \<Rightarrow> allocation \<Rightarrow> group_policy \<Rightarrow> (float64 \<times> float64) act" where
  "GetAllocationStats E alloc scalingPolicy =
     bnd (alloc_stats E (al_ID alloc)) (\<lambda>resp.
     case resp of
       Inl e \<Rightarrow> ret (Fin 0, Fin 0)
     | Inr (totalTicks, rss) \<Rightarrow>
         ret (PercentOf (int_of_float (math_Floor totalTicks)) (ar_CPUMHz (gp_Tasks scalingPolicy)),
              PercentOf (i64 (rss div bytesPerMegabyte)) (ar_MemoryMB (gp_Tasks scalingPolicy))))"

fun alloc_loop :: "env \<Rightarrow> group_policy \<Rightarrow> allocation list \<Rightarrow> float64 \<times> float64 \<times> int \<Rightarrow> (float64 \<times> float64 \<times> int) act" where
  "alloc_loop E gsp [] acc = ret acc"
| "alloc_loop E gsp (stub # stubs) (cpu, mem, n) =
     (if al_ClientStatus stub = ''running'' \<and> al_DesiredStatus stub = ''run'' then
        bnd (alloc_info E (al_ID stub)) (\<lambda>resp.
        case resp of
          Inr (Some alloc) \<Rightarrow>
            bnd (GetAllocationStats E alloc gsp) (\<lambda>(c, m).
            alloc_loop E gsp stubs (fadd cpu c, fadd mem m, i64 (n + 1)))
        | _ \<Rightarrow> alloc_loop E gsp stubs (cpu, mem, n))
      else alloc_loop E gsp stubs (cpu, mem, n))"

definition GetJobAllocations :: "env \<Rightarrow> allocation list \<Rightarrow> group_policy \<Rightarrow> group_policy act" where
  "GetJobAllocations E allocs gsp =
     bnd (alloc_loop E gsp allocs (Fin 0, Fin 0, 0)) (\<lambda>(cpu, mem, n).
     ret (gsp\<lparr>gp_Tasks :=
       (if 0 < n
        then (gp_Tasks gsp)\<lparr>ar_CPUPercent := fdiv cpu (float_of_int n), ar_MemoryPercent := fdiv mem (float_of_int n)\<rparr>
        else (gp_Tasks gsp)\<lparr>ar_CPUPercent := Fin 0, ar_MemoryPercent := Fin 0\<rparr>)\<rparr>))"

definition MostUtilizedGroupResource :: "group_policy \<Rightarrow> group_policy" where
  "MostUtilizedGroupResource gsp =
     (let r = gp_Tasks gsp in
      case Max_floats [ar_CPUPercent r, ar_MemoryPercent r] of
        None \<Rightarrow> gsp
      | Some mx \<Rightarrow>
          (if feq mx (ar_CPUPercent r) then gsp\<lparr>gp_ScalingMetric := ScalingMetricProcessor\<rparr>
           else if feq mx (ar_MemoryPercent r) then gsp\<lparr>gp_ScalingMetric := ScalingMetricMemory\<rparr>
           else gsp))"

definition set_direction :: "group_policy \<Rightarrow> group_policy" where
  "set_direction gsp =
     (let r = gp_Tasks gsp;
          out = (if gp_ScalingMetric gsp = ScalingMetricProcessor then gp_ScaleOutCPU gsp < ar_CPUPercent r
                 else if gp_ScalingMetric gsp = ScalingMetricMemory then gp_ScaleOutMem gsp < ar_MemoryPercent r
                 else False);
          gsp' = gsp\<lparr>gp_ScaleDirection := (if out then ScalingDirectionOut else ScalingDirectionNone)\<rparr>
      in if ar_CPUPercent r < gp_ScaleInCPU gsp \<and> ar_MemoryPercent r < gp_ScaleInMem gsp
         then gsp'\<lparr>gp_ScaleDirection := ScalingDirectionIn\<rparr> else gsp')"

type_synonym heap = "ptr \<Rightarrow> group_policy"

fun EvaluateJobScaling :: "env \<Rightarrow> string \<Rightarrow> ptr list \<Rightarrow> heap \<Rightarrow> (heap \<times> go_error option) act" where
  "EvaluateJobScaling E jobName [] heap = ret (heap, None)"
| "EvaluateJobScaling E jobName (p # ps) heap =
     bnd (GetTaskGroupResources E jobName (heap p)) (\<lambda>(gsp, err).
     case err of
       Some e \<Rightarrow> ret (heap(p := gsp), Some e)
     | None \<Rightarrow>
         bnd (job_allocs E jobName) (\<lambda>resp.
         case resp of
           Inl e \<Rightarrow> ret (heap(p := gsp), Some e)
         | Inr allocs \<Rightarrow>
             bnd (GetJobAllocations E allocs gsp) (\<lambda>gsp'.
             EvaluateJobScaling E jobName ps (heap(p := set_direction (MostUtilizedGroupResource gsp'))))))"

section \<open>client/job\_scaling.go\<close>

text \<open>
  The loop over the task groups of the job: every group's count is compared with the limits
  of the policy, and only the policy's group is changed.  \<open>None\<close> is the early return.
\<close>

fun scale_counts :: "group_policy \<Rightarrow> task_group list \<Rightarrow> scaling_state \<Rightarrow> scaling_state \<times> task_group list option" where
  "scale_counts policy [] state = (state, Some [])"
| "scale_counts policy (taskGroup # taskGroups) state =
     (if gp_ScaleDirection policy = ScalingDirectionOut \<and> gp_Max policy \<le> tg_Count taskGroup \<or>
         gp_ScaleDirection policy = ScalingDirectionIn \<and> tg_Count taskGroup \<le> gp_Min policy
      then (state, None)
      else
        let (taskGroup', state') =
          (if tg_Name taskGroup = gp_GroupName policy \<and> gp_ScaleDirection policy = ScalingDirectionOut then
             (taskGroup\<lparr>tg_Count := i64 (tg_Count taskGroup + 1)\<rparr>, state\<lparr>st_ScaleOutRequests := i64 (st_ScaleOutRequests state + 1)\<rparr>)
           else if tg_Name taskGroup = gp_GroupName policy \<and> gp_ScaleDirection policy = ScalingDirectionIn then
             (taskGroup\<lparr>tg_Count := i64 (tg_Count taskGroup - 1)\<rparr>, state\<lparr>st_ScaleInRequests := i64 (st_ScaleInRequests state + 1)\<rparr>)
           else (taskGroup, state));
          (state'', rest) = scale_counts policy taskGroups state'
        in (state'', map_option ((#) taskGroup') rest))"

definition getDeploymentID :: "env \<Rightarrow> string \<Rightarrow> string result act" where
  "getDeploymentID E evalID =
     bnd (ticks E) (\<lambda>n.
     poll n
       (\<lambda>_. bnd (eval_info E evalID) (\<lambda>resp.
          ret (case resp of Inl e \<Rightarrow> Inr () | Inr depID \<Rightarrow> if depID = [] then Inr () else Inl (Inr depID))))
       (\<lambda>_. ret (Inl (Errorf ''timeout reached while trying to retrieve the deployment ID for evaluation'' None))) ())"

definition scaleConfirmation :: "env \<Rightarrow> string \<Rightarrow> bool act" where
  "scaleConfirmation E evalID =
     bnd (getDeploymentID E evalID) (\<lambda>dep.
     case dep of
       Inl e \<Rightarrow> ret False
     | Inr depID \<Rightarrow>
         bnd (ticks E) (\<lambda>n.
         poll n
           (\<lambda>waitIndex. bnd (deployment_info E depID waitIndex) (\<lambda>resp.
              ret (case resp of
                     Inl e \<Rightarrow> Inl False
                   | Inr (status, lastIndex) \<Rightarrow>
                       if lastIndex \<le> waitIndex then Inr waitIndex
                       else if status = DeploymentStatusSuccessful then Inl True
                       else if status = DeploymentStatusRunning then Inr lastIndex
                       else Inl False)))
           (\<lambda>_. ret False) 1))"

definition JobGroupScale :: "env \<Rightarrow> string \<Rightarrow> group_policy \<Rightarrow> scaling_state \<Rightarrow> scaling_state act" where
  "JobGroupScale E jobName policy state =
     bnd (job_info E jobName) (\<lambda>resp.
     case resp of
       Inl e \<Rightarrow> ret state
     | Inr jobResp \<Rightarrow>
         (let (state', counts) = scale_counts policy (jb_TaskGroups jobResp) state in
          case counts of
            None \<Rightarrow> ret state'
          | Some taskGroups \<Rightarrow>
              bnd (job_register E (jobResp\<lparr>jb_TaskGroups := taskGroups\<rparr>)) (\<lambda>resp.
              bnd (time_Now E) (\<lambda>t.
              let state'' = state'\<lparr>st_LastScalingEvent := t\<rparr> in
              case resp of
                Inl e \<Rightarrow> ret state''
              | Inr evalID \<Rightarrow>
                  bnd (scaleConfirmation E evalID) (\<lambda>success.
                  ret (if \<not> success then state''\<lparr>st_FailureCount := i64 (st_FailureCount state'' + 1)\<rparr> else state''))))))"

definition IsJobInDeployment :: "env \<Rightarrow> string \<Rightarrow> bool act" where
  "IsJobInDeployment E jobName =
     bnd (latest_deployment E jobName) (\<lambda>resp.
     ret (case resp of
            Inl e \<Rightarrow> False
          | Inr None \<Rightarrow> False
          | Inr (Some status) \<Rightarrow> status = DeploymentStatusRunning \<or> status = DeploymentStatusDescriptionPaused))"

section \<open>The interface and its contract\<close>

record nomad_jobs =
  nj_EvaluateJobScaling :: "string \<Rightarrow> ptr list \<Rightarrow> heap \<Rightarrow> (heap \<times> go_error option) act"
  nj_JobGroupScale :: "string \<Rightarrow> group_policy \<Rightarrow> scaling_state \<Rightarrow> scaling_state act"
  nj_IsJobInDeployment :: "string \<Rightarrow> bool act"

definition nomadJobs :: "env \<Rightarrow> nomad_jobs" where
  "nomadJobs E = \<lparr>nj_EvaluateJobScaling = EvaluateJobScaling E, nj_JobGroupScale = JobGroupScale E,
     nj_IsJobInDeployment = IsJobInDeployment E\<rparr>"

lemma nomadJobs_sel [simp]:
  "nj_EvaluateJobScaling (nomadJobs E) = EvaluateJobScaling E" "nj_JobGroupScale (nomadJobs E) = JobGroupScale E"
  "nj_IsJobInDeployment (nomadJobs E) = IsJobInDeployment E"
  by (simp_all add: nomadJobs_def)

section \<open>replicator/job\_scaling.go\<close>

definition group_state :: "config \<Rightarrow> string \<Rightarrow> group_policy \<Rightarrow> scaling_state" where
  "group_state config jobName policy =
     empty_state\<lparr>st_ResourceName := gp_GroupName policy, st_ResourceType := JobType,
       st_StatePath := cf_ConsulKeyRoot config @ ''/state/jobs/'' @ jobName @ ''/'' @ gp_GroupName policy\<rparr>"

definition group_message :: "string \<Rightarrow> group_policy \<Rightarrow> failure_message" where
  "group_message jobName policy =
     \<lparr>fm_AlertUID = gp_UID policy, fm_ClusterIdentifier = [], fm_Reason = [],
      fm_ResourceID = jobName @ ''/'' @ gp_GroupName policy, fm_ResourceType = JobType, fm_StatePath = []\<rparr>"

text \<open>One group of the loop of \<open>jobScaling\<close>, from the check of the state \<open>s0\<close> that was read on.\<close>

definition scale_group_state ::
  "env \<Rightarrow> consul_client \<Rightarrow> nomad_jobs \<Rightarrow> config \<Rightarrow> string \<Rightarrow> group_policy \<Rightarrow> scaling_state \<Rightarrow> unit act" where
  "scale_group_state E C J config jobName policy s0 =
     bnd (FailsafeCheck E C s0 config (gp_RetryThreshold policy) (group_message jobName policy)) (\<lambda>(passing, msg, s1).
     if \<not> passing then ret ()
     else
       let cd = duration_seconds (gp_Cooldown policy) in
       bnd (time_Now E) (\<lambda>now.
       if \<not> st_LastScalingEvent s1 < now + i64 (- cd) then ret ()
       else
         bnd (if gp_ScaleDirection policy = ScalingDirectionOut \<or> gp_ScaleDirection policy = ScalingDirectionIn
              then (if gp_Enabled policy then nj_JobGroupScale J jobName policy s1 else ret s1)
              else ret s1) (\<lambda>s2.
         bnd (ci_PersistState C s2) (\<lambda>_. ret ()))))"

definition scale_group ::
  "env \<Rightarrow> consul_client \<Rightarrow> nomad_jobs \<Rightarrow> config \<Rightarrow> string \<Rightarrow> group_policy \<Rightarrow> unit act" where
  "scale_group E C J config jobName policy =
     bnd (ci_ReadState C (group_state config jobName policy) True) (scale_group_state E C J config jobName policy)"

fun scale_groups ::
  "env \<Rightarrow> consul_client \<Rightarrow> nomad_jobs \<Rightarrow> config \<Rightarrow> string \<Rightarrow> group_policy list \<Rightarrow> unit act" where
  "scale_groups E C J config jobName [] = ret ()"
| "scale_groups E C J config jobName (g # gs) =
     bnd (scale_group E C J config jobName g) (\<lambda>_. scale_groups E C J config jobName gs)"

definition jobScaling ::
  "env \<Rightarrow> consul_client \<Rightarrow> nomad_jobs \<Rightarrow> config \<Rightarrow> job_policies \<Rightarrow> string \<Rightarrow> job_policies act" where
  "jobScaling E C J config jobScalingPolicies jobName =
     (let g = (case map_of (jp_Policies jobScalingPolicies) jobName of None \<Rightarrow> [] | Some ps \<Rightarrow> ps) in
      bnd (nj_EvaluateJobScaling J jobName g (jp_Heap jobScalingPolicies)) (\<lambda>(heap, err).
      let s = jobScalingPolicies\<lparr>jp_Heap := heap\<rparr> in
      case err of
        Some e \<Rightarrow> ret (if err_contains e ''404'' then RemoveJobScalingPolicy jobName s else s)
      | None \<Rightarrow> bnd (scale_groups E C J config jobName (map heap g)) (\<lambda>_. ret s)))"

section \<open>What the clients promise\<close>

text \<open>
  An evaluation only reads; it changes of the policies it is given the resources, the metric and
  the direction, and no other policy.  Scaling a group registers the job and makes no other
  change outside; of the state it changes the request and failure counts and the time of the
  last scaling event.
\<close>

definition policy_frame :: "group_policy \<Rightarrow> group_policy \<Rightarrow> bool" where
  "policy_frame p q \<longleftrightarrow>
     q\<lparr>gp_Tasks := no_resources, gp_ScalingMetric := [], gp_ScaleDirection := []\<rparr> =
     p\<lparr>gp_Tasks := no_resources, gp_ScalingMetric := [], gp_ScaleDirection := []\<rparr>"

definition job_state_frame :: "scaling_state \<Rightarrow> scaling_state \<Rightarrow> bool" where
  "job_state_frame s s' \<longleftrightarrow>
     s'\<lparr>st_FailureCount := 0, st_LastScalingEvent := 0, st_ScaleInRequests := 0, st_ScaleOutRequests := 0\<rparr> =
     s\<lparr>st_FailureCount := 0, st_LastScalingEvent := 0, st_ScaleInRequests := 0, st_ScaleOutRequests := 0\<rparr>"

fun job_event :: "event \<Rightarrow> bool" where
  "job_event (JobRegister j) = True"
| "job_event e = reading e"

lemma job_event_reading: "reading e \<Longrightarrow> job_event e"
  by (cases e) auto

lemma policy_frame_refl [simp]: "policy_frame p p" and job_state_frame_refl [simp]: "job_state_frame s s"
  by (simp_all add: policy_frame_def job_state_frame_def)

lemma policy_frame_trans: "policy_frame p q \<Longrightarrow> policy_frame q r \<Longrightarrow> policy_frame p r"
  by (simp add: policy_frame_def)

lemma job_state_frame_trans: "job_state_frame p q \<Longrightarrow> job_state_frame q r \<Longrightarrow> job_state_frame p r"
  by (simp add: job_state_frame_def)

text \<open>The direction a policy has once it was evaluated: in, if both resources are below their lower
  limits; else out, if the more utilised one is above its upper limit; else none.\<close>

definition decided :: "group_policy \<Rightarrow> bool" where
  "decided q \<longleftrightarrow>
     (let c = ar_CPUPercent (gp_Tasks q); m = ar_MemoryPercent (gp_Tasks q) in
      c \<noteq> NaN \<longrightarrow> m \<noteq> NaN \<longrightarrow>
      gp_ScaleDirection q =
        (if c < gp_ScaleInCPU q \<and> m < gp_ScaleInMem q then ScalingDirectionIn
         else if (if c < m then gp_ScaleOutMem q < m else gp_ScaleOutCPU q < c) then ScalingDirectionOut
         else ScalingDirectionNone))"

locale nomad_job_client =
  fixes J :: nomad_jobs
  assumes evaluate_job: "obeys reading (nj_EvaluateJobScaling J j ps heap)
      (\<lambda>(heap', err). (\<forall>p. policy_frame (heap p) (heap' p) \<and> (p \<notin> set ps \<longrightarrow> heap' p = heap p)) \<and>
         (err = None \<longrightarrow> (\<forall>p \<in> set ps. decided (heap' p))))"
    and scale_job: "obeys job_event (nj_JobGroupScale J j policy s) (job_state_frame s)"
    and deployment: "obeys reading (nj_IsJobInDeployment J j) (\<lambda>_. True)"
    and evaluate_returns: "returns (nj_EvaluateJobScaling J j ps heap)"
    and scale_returns: "returns (nj_JobGroupScale J j policy s)"
    and deployment_returns: "returns (nj_IsJobInDeployment J j)"

lemma most_utilized_decided: "decided (set_direction (MostUtilizedGroupResource g))"
  by (cases "ar_CPUPercent (gp_Tasks g)"; cases "ar_MemoryPercent (gp_Tasks g)")
    (auto simp: decided_def set_direction_def MostUtilizedGroupResource_def Let_def)

lemma direction_frame: "policy_frame g (set_direction (MostUtilizedGroupResource g))"
  by (auto simp: policy_frame_def set_direction_def MostUtilizedGroupResource_def Let_def split: option.split)

lemma resources_obeys:
  "obeys reading (GetTaskGroupResources E j g) (\<lambda>(g', err). policy_frame g g')"
  unfolding GetTaskGroupResources_def job_info_def
  by (intro obeys_bnd_any [OF obeys_call] obeys_intro) (auto simp: policy_frame_def)

lemma alloc_loop_obeys: "obeys reading (alloc_loop E g as acc) (\<lambda>_. True)"
proof (induction as arbitrary: acc)
  case (Cons a as)
  then show ?case
    by (cases acc) (auto intro!: obeys_intro obeys_bnd_any Cons.IH simp: GetAllocationStats_def api_defs split: sum.split option.split)
qed (simp add: obeys_ret)

lemma allocations_obeys: "obeys reading (GetJobAllocations E as g) (policy_frame g)"
  unfolding GetJobAllocations_def
  by (intro obeys_bnd_any [OF alloc_loop_obeys] obeys_intro) (auto simp: policy_frame_def)

lemma EvaluateJobScaling_obeys:
  "obeys reading (EvaluateJobScaling E j ps heap)
     (\<lambda>(heap', err). (\<forall>p. policy_frame (heap p) (heap' p) \<and> (p \<notin> set ps \<longrightarrow> heap' p = heap p)) \<and>
        (err = None \<longrightarrow> (\<forall>p \<in> set ps. decided (heap' p))))"
proof (induction ps arbitrary: heap)
  case (Cons p ps)
  let ?Q = "\<lambda>(heap', err). (\<forall>q. policy_frame (heap q) (heap' q) \<and> (q \<notin> set (p # ps) \<longrightarrow> heap' q = heap q)) \<and>
        (err = None \<longrightarrow> (\<forall>q \<in> set (p # ps). decided (heap' q)))"
  have step: "obeys reading (EvaluateJobScaling E j ps (heap(p := set_direction (MostUtilizedGroupResource g)))) ?Q"
    if "policy_frame (heap p) g" for g
  proof -
    have f: "policy_frame (heap p) (set_direction (MostUtilizedGroupResource g))"
      using that direction_frame policy_frame_trans by blast
    let ?h = "heap(p := set_direction (MostUtilizedGroupResource g))"
    show ?thesis
    proof (rule obeys_post [OF Cons.IH [of ?h]], clarify, intro conjI allI impI ballI)
      fix heap' err q
      assume A: "\<forall>q. policy_frame (?h q) (heap' q) \<and> (q \<notin> set ps \<longrightarrow> heap' q = ?h q)"
        and B: "err = None \<longrightarrow> (\<forall>q \<in> set ps. decided (heap' q))"
      have "policy_frame (heap q) (?h q)" using f by (cases "q = p") simp_all
      then show "policy_frame (heap q) (heap' q)" using A policy_frame_trans by blast
      show "heap' q = heap q" if "q \<notin> set (p # ps)" using A that by simp
      show "decided (heap' q)" if "err = None" and "q \<in> set (p # ps)"
        using A B that most_utilized_decided [of g] by (cases "q \<in> set ps") auto
    qed
  qed
  show ?case unfolding EvaluateJobScaling.simps job_allocs_def
    by (intro obeys_bnd [OF resources_obeys] obeys_bnd_any [OF obeys_call] obeys_bnd [OF allocations_obeys]
        obeys_prod obeys_option obeys_sum obeys_ret step)
      (simp_all, auto intro: policy_frame_trans)
qed (simp add: obeys_ret)

lemma job_state_frame_upd [simp]:
  "job_state_frame s (s'\<lparr>st_ScaleOutRequests := n\<rparr>) = job_state_frame s s'"
  "job_state_frame s (s'\<lparr>st_ScaleInRequests := n\<rparr>) = job_state_frame s s'"
  "job_state_frame s (s'\<lparr>st_FailureCount := n\<rparr>) = job_state_frame s s'"
  "job_state_frame s (s'\<lparr>st_LastScalingEvent := t\<rparr>) = job_state_frame s s'"
  by (simp_all add: job_state_frame_def)

lemma scale_counts_frame: "scale_counts policy tgs s = (s', r) \<Longrightarrow> job_state_frame s0 s \<Longrightarrow> job_state_frame s0 s'"
proof (induction tgs arbitrary: s s' r)
  case (Cons tg tgs)
  then show ?case by (auto simp: Let_def split: prod.splits if_splits)
qed simp

lemma confirmation_obeys: "obeys reading (scaleConfirmation E ev) (\<lambda>_. True)"
  unfolding scaleConfirmation_def getDeploymentID_def api_defs
  by (intro obeys_bnd_any obeys_intro obeys_poll [where I = "\<lambda>_. True"])
    (auto split: sum.splits)

lemma confirmation_returns: "returns (scaleConfirmation E ev)"
  unfolding scaleConfirmation_def getDeploymentID_def api_defs by (intro returns_intro returns_poll)

lemma JobGroupScale_obeys: "obeys job_event (JobGroupScale E j policy s) (job_state_frame s)"
  unfolding JobGroupScale_def api_defs Let_def
  by (intro obeys_bnd_any [OF obeys_call] obeys_sum obeys_ret obeys_prod obeys_option
      obeys_bnd_mono [OF confirmation_obeys])
    (auto simp: job_event_reading dest: scale_counts_frame [OF _ job_state_frame_refl])

lemma alloc_loop_returns: "returns (alloc_loop E g as acc)"
proof (induction as arbitrary: acc)
  case (Cons a as)
  then show ?case
    by (cases acc) (auto intro!: returns_intro Cons.IH simp: GetAllocationStats_def api_defs split: sum.split option.split)
qed (simp add: returns_ret)

lemma EvaluateJobScaling_returns: "returns (EvaluateJobScaling E j ps heap)"
proof (induction ps arbitrary: heap)
  case (Cons p ps)
  show ?case unfolding EvaluateJobScaling.simps GetTaskGroupResources_def GetJobAllocations_def api_defs
    by (intro returns_intro alloc_loop_returns Cons.IH)
qed (simp add: returns_ret)

interpretation jobs: nomad_job_client "nomadJobs E" for E
proof
  show "returns (nj_JobGroupScale (nomadJobs E) j policy s)" for j policy s
    unfolding nomadJobs_sel JobGroupScale_def api_defs
    by (intro returns_intro confirmation_returns)
  show "obeys reading (nj_IsJobInDeployment (nomadJobs E) j) (\<lambda>_. True)" for j
    by (auto simp: IsJobInDeployment_def api_defs intro!: obeys_bnd_any obeys_intro)
  show "returns (nj_IsJobInDeployment (nomadJobs E) j)" for j
    unfolding nomadJobs_sel IsJobInDeployment_def api_defs by (intro returns_intro)
qed (simp_all add: EvaluateJobScaling_obeys JobGroupScale_obeys EvaluateJobScaling_returns)

section \<open>What every implementation of the interfaces gives\<close>

locale job_scaler = state_store C + nomad_job_client J for C J

text \<open>The gates before a group is scaled, as conditions on the policy and on the state that was read.\<close>

definition group_gates :: "env \<Rightarrow> group_policy \<Rightarrow> scaling_state \<Rightarrow> bool" where
  "group_gates E policy s \<longleftrightarrow>
     \<not> st_FailsafeMode s \<and> st_FailureCount s < gp_RetryThreshold policy \<and> gp_Enabled policy \<and>
     gp_ScaleDirection policy \<in> {ScalingDirectionOut, ScalingDirectionIn} \<and>
     (\<exists>h. st_LastScalingEvent s < en_now E h + i64 (- duration_seconds (gp_Cooldown policy)))"

text \<open>The scaling of jobs leaves the infrastructure alone: it drains no node and touches no
  autoscaling group.\<close>

fun jobs_only :: "event \<Rightarrow> bool" where
  "jobs_only (JobRegister j) = True"
| "jobs_only e = (\<not> mutating e)"

lemma jobs_only_quiet: "quiet e \<Longrightarrow> jobs_only e" and jobs_only_event: "job_event e \<Longrightarrow> jobs_only e"
  by (cases e, auto)+

context job_scaler
begin

lemma scale_group_gated:
  assumes "\<not> group_gates E policy s"
  shows "obeys quiet (scale_group_state E C J cfg j policy s) (\<lambda>_. True)"
proof -
  have now: "obeys quiet (time_Now E) (\<lambda>t. \<exists>h. t = en_now E h)"
    unfolding time_Now_def by (intro obeys_call) auto
  show ?thesis
    unfolding scale_group_state_def Let_def
    by (intro obeys_bnd_mono [OF check_obeys] obeys_bnd [OF now] obeys_bnd_mono [OF persist_quiet] obeys_prod obeys_if
        obeys_ret obeys_bnd [where R = "\<lambda>_. True"])
      (use assms in \<open>auto dest: failsafe_event_quiet simp: group_gates_def failsafe_frame_sel\<close>)
qed

lemma scale_group_obeys: "obeys jobs_only (scale_group E C J cfg j policy) (\<lambda>_. True)"
  unfolding scale_group_def scale_group_state_def Let_def time_Now_def
  by (intro obeys_bnd_mono [OF read_quiet] obeys_bnd_mono [OF check_obeys] obeys_bnd_any [OF obeys_call]
      obeys_bnd_mono [OF persist_quiet] obeys_prod obeys_if obeys_ret obeys_bnd [where R = "\<lambda>_. True"]
      obeys_weaken [OF scale_job])
    (auto simp: jobs_only_quiet jobs_only_event dest: failsafe_event_quiet)

lemma scale_groups_obeys: "obeys jobs_only (scale_groups E C J cfg j gs) (\<lambda>_. True)"
  by (induction gs) (auto intro!: obeys_ret obeys_bnd [OF scale_group_obeys])

lemma scale_group_returns:
  assumes "cf_Notification cfg \<noteq> None"
  shows "returns (scale_group E C J cfg j policy)"
  unfolding scale_group_def scale_group_state_def Let_def time_Now_def
  by (intro returns_intro read_returns check_returns persist_returns scale_returns assms)

lemma scale_groups_returns: "cf_Notification cfg \<noteq> None \<Longrightarrow> returns (scale_groups E C J cfg j gs)"
  by (induction gs) (auto intro!: returns_intro scale_group_returns)

lemma job_scaling_obeys:
  assumes "policies_inv s"
  shows "obeys jobs_only (jobScaling E C J cfg s j) (\<lambda>s'. policies_inv s' \<and> jp_Next s' = jp_Next s \<and>
    (\<forall>p. policy_frame (jp_Heap s p) (jp_Heap s' p)))"
proof -
  have inv: "policies_inv (s\<lparr>jp_Heap := heap\<rparr>)" for heap using assms by (simp add: policies_inv_def)
  have del: "policies_inv (s\<lparr>jp_Heap := heap, jp_Policies := AList.delete j (jp_Policies s)\<rparr>)" for heap
    using policies_inv_delete [OF inv [of heap], of j] by simp
  show ?thesis
    unfolding jobScaling_def Let_def
    by (intro obeys_bnd_mono [OF evaluate_job] obeys_prod obeys_option obeys_ret obeys_bnd [OF scale_groups_obeys])
      (auto simp: inv del RemoveJobScalingPolicy_def jobs_only_event job_event_reading)
qed

lemma job_scaling_returns: "cf_Notification cfg \<noteq> None \<Longrightarrow> returns (jobScaling E C J cfg s j)"
  unfolding jobScaling_def by (intro returns_intro evaluate_returns scale_groups_returns)

end

interpretation jscale: job_scaler "consulClient E" "nomadJobs E" for E
  by (intro job_scaler.intro consul.state_store_axioms jobs.nomad_job_client_axioms)

abbreviation scale_job :: "env \<Rightarrow> config \<Rightarrow> job_policies \<Rightarrow> string \<Rightarrow> job_policies act" where
  "scale_job E \<equiv> jobScaling E (consulClient E) (nomadJobs E)"

section \<open>Properties\<close>

text \<open>
  C20: an evaluation of a job without error decides every one of its groups: scale in when both
  resources are below their lower limits, scale out when the more utilised one is above its
  upper limit, and do nothing otherwise; it changes no other policy and none of the
  configured limits.
\<close>

theorem job_evaluation_decides:
  assumes "EvaluateJobScaling E j ps heap h = (Ret (heap', None), h')" and "p \<in> set ps"
    and "c = ar_CPUPercent (gp_Tasks (heap' p))" and "m = ar_MemoryPercent (gp_Tasks (heap' p))" and "c \<noteq> NaN" and "m \<noteq> NaN"
  shows "gp_ScaleDirection (heap' p) =
      (if c < gp_ScaleInCPU (heap p) \<and> m < gp_ScaleInMem (heap p) then ScalingDirectionIn
       else if (if c < m then gp_ScaleOutMem (heap p) < m else gp_ScaleOutCPU (heap p) < c) then ScalingDirectionOut
       else ScalingDirectionNone) \<and>
    gp_Max (heap' p) = gp_Max (heap p) \<and> gp_Min (heap' p) = gp_Min (heap p) \<and>
    (\<forall>q. q \<notin> set ps \<longrightarrow> heap' q = heap q)"
proof -
  note O = obeys_run(3) [OF EvaluateJobScaling_obeys assms(1) refl]
  then have f: "policy_frame (heap p) (heap' p)" and d: "decided (heap' p)" using assms(2) by auto
  have "gp_ScaleInCPU (heap' p) = gp_ScaleInCPU (heap p)" "gp_ScaleInMem (heap' p) = gp_ScaleInMem (heap p)"
    "gp_ScaleOutCPU (heap' p) = gp_ScaleOutCPU (heap p)" "gp_ScaleOutMem (heap' p) = gp_ScaleOutMem (heap p)"
    "gp_Max (heap' p) = gp_Max (heap p)" "gp_Min (heap' p) = gp_Min (heap p)"
    using f by (cases "heap p"; cases "heap' p"; simp add: policy_frame_def)+
  with d O assms(3-) show ?thesis by (simp add: decided_def Let_def)
qed

text \<open>The specification of the change: the policy's group, one up or one down.\<close>

definition step_count :: "group_policy \<Rightarrow> task_group \<Rightarrow> task_group" where
  "step_count policy tg =
     (if tg_Name tg \<noteq> gp_GroupName policy then tg
      else if gp_ScaleDirection policy = ScalingDirectionOut then tg\<lparr>tg_Count := tg_Count tg + 1\<rparr>
      else if gp_ScaleDirection policy = ScalingDirectionIn then tg\<lparr>tg_Count := tg_Count tg - 1\<rparr>
      else tg)"

lemma scale_counts_Some:
  assumes "scale_counts policy tgs s = (s', Some tgs')" and "in64 (gp_Max policy)" and "in64 (gp_Min policy)"
    and "\<forall>tg \<in> set tgs. in64 (tg_Count tg)"
  shows "tgs' = map (step_count policy) tgs \<and>
    (\<forall>tg \<in> set tgs'. tg_Name tg = gp_GroupName policy \<longrightarrow>
       (gp_ScaleDirection policy = ScalingDirectionOut \<longrightarrow> tg_Count tg \<le> gp_Max policy) \<and>
       (gp_ScaleDirection policy = ScalingDirectionIn \<longrightarrow> gp_Min policy \<le> tg_Count tg))"
  using assms
proof (induction tgs arbitrary: s s' tgs')
  case (Cons tg tgs)
  have i: "i64 (tg_Count tg + 1) = tg_Count tg + 1" if "tg_Count tg < gp_Max policy"
    using that Cons.prems(2,4) by (intro i64_id) auto
  have j: "i64 (tg_Count tg - 1) = tg_Count tg - 1" if "gp_Min policy < tg_Count tg"
    using that Cons.prems(3,4) by (intro i64_id) auto
  from Cons.prems(1) show ?case
    using Cons.IH Cons.prems(2-) i j
    by (auto simp: step_count_def Let_def split: prod.splits if_splits; fastforce)
qed simp

lemma confirmation_quiet: "filter mutating (snd (scaleConfirmation E ev h)) = filter mutating h"
  by (rule obeys_filter [OF obeys_weaken [OF confirmation_obeys reading_quiet TrueI]])

lemma JobGroupScale_trace:
  "filter mutating (snd (JobGroupScale E j policy s h)) = filter mutating h @
     (case en_job_info E h j of
        Inl e \<Rightarrow> []
      | Inr job \<Rightarrow> (case snd (scale_counts policy (jb_TaskGroups job) s) of
          None \<Rightarrow> [] | Some tgs \<Rightarrow> [JobRegister (job\<lparr>jb_TaskGroups := tgs\<rparr>)]))"
proof (cases "en_job_info E h j")
  case (Inr job)
  obtain s' r where sc: "scale_counts policy (jb_TaskGroups job) s = (s', r)" by fastforce
  show ?thesis
  proof (cases r)
    case (Some tgs)
    let ?h = "h @ [JobInfo j, JobRegister (job\<lparr>jb_TaskGroups := tgs\<rparr>), Now]"
    have "filter mutating (snd (scaleConfirmation E ev ?h)) = filter mutating h @ [JobRegister (job\<lparr>jb_TaskGroups := tgs\<rparr>)]" for ev
      by (subst confirmation_quiet) simp
    then show ?thesis
      using Inr sc Some
      by (auto simp: JobGroupScale_def go_simps Let_def split: sum.split prod.split outcome.split) (metis snd_conv)+
  qed (simp add: JobGroupScale_def go_simps Inr sc)
qed (simp add: JobGroupScale_def go_simps)

text \<open>
  C4: scaling a group registers the job at most once, with the count of the policy's group
  changed by exactly one and within the policy's limits, and everything else of the job as
  Nomad reported it.
\<close>

theorem job_scale_bounds:
  assumes "in64 (gp_Max policy)" and "in64 (gp_Min policy)"
    and counts: "\<forall>job tg. en_job_info E h j = Inr job \<longrightarrow> tg \<in> set (jb_TaskGroups job) \<longrightarrow> in64 (tg_Count tg)"
  shows "filter mutating (calls (JobGroupScale E j policy s) h) = [] \<or>
    (\<exists>job job'. en_job_info E h j = Inr job \<and>
       filter mutating (calls (JobGroupScale E j policy s) h) = [JobRegister job'] \<and>
       job' = job\<lparr>jb_TaskGroups := map (step_count policy) (jb_TaskGroups job)\<rparr> \<and>
       (\<forall>tg \<in> set (jb_TaskGroups job'). tg_Name tg = gp_GroupName policy \<longrightarrow>
          (gp_ScaleDirection policy = ScalingDirectionOut \<longrightarrow> tg_Count tg \<le> gp_Max policy) \<and>
          (gp_ScaleDirection policy = ScalingDirectionIn \<longrightarrow> gp_Min policy \<le> tg_Count tg)))"
proof -
  have c: "filter mutating (snd (JobGroupScale E j policy s h)) = filter mutating h @ filter mutating (calls (JobGroupScale E j policy s) h)"
    by (subst obeys_history [OF JobGroupScale_obeys]) simp
  note t = c [unfolded JobGroupScale_trace, simplified, symmetric]
  show ?thesis
  proof (cases "en_job_info E h j")
    case (Inr job)
    obtain s' r where sc: "scale_counts policy (jb_TaskGroups job) s = (s', r)" by fastforce
    show ?thesis
    proof (cases r)
      case (Some tgs)
      have "tgs = map (step_count policy) (jb_TaskGroups job) \<and> (\<forall>tg \<in> set tgs. tg_Name tg = gp_GroupName policy \<longrightarrow>
          (gp_ScaleDirection policy = ScalingDirectionOut \<longrightarrow> tg_Count tg \<le> gp_Max policy) \<and>
          (gp_ScaleDirection policy = ScalingDirectionIn \<longrightarrow> gp_Min policy \<le> tg_Count tg))"
        by (rule scale_counts_Some [OF sc [unfolded Some] assms(1,2)]) (use counts Inr in blast)
      with t Inr sc Some show ?thesis by auto
    qed (use t Inr sc in simp)
  qed (use t in simp)
qed

definition demo_policy :: group_policy where
  "demo_policy = NewGroupScalingPolicy\<lparr>gp_GroupName := ''a'', gp_Enabled := True, gp_Min := 1, gp_Max := 4, gp_RetryThreshold := 2,
     gp_ScaleDirection := ScalingDirectionOut, gp_ScaleInCPU := Fin 10, gp_ScaleInMem := Fin 10, gp_ScaleOutCPU := Fin 80, gp_ScaleOutMem := Fin 80\<rparr>"

theorem job_scale_bounds_witness:
  "filter mutating (calls (JobGroupScale jobs_env ''job'' demo_policy empty_state) []) =
     [JobRegister (demo_job\<lparr>jb_TaskGroups := [demo_group\<lparr>tg_Count := 3\<rparr>]\<rparr>)]"
proof -
  have m: "filter mutating (calls (JobGroupScale jobs_env ''job'' demo_policy empty_state) []) \<noteq> []"
    using JobGroupScale_trace [of jobs_env "''job''" demo_policy empty_state "[]"]
    by (simp add: calls_def jobs_env_def demo_job_def demo_group_def demo_policy_def NewGroupScalingPolicy_def)
  from job_scale_bounds [of demo_policy jobs_env "[]" "''job''" empty_state] m show ?thesis
    by (auto simp: jobs_env_def demo_job_def demo_group_def demo_policy_def NewGroupScalingPolicy_def step_count_def)
qed

text \<open>
  C19: a group is scaled only if the state that was read allows it and the policy asks for it: the
  group is not in failsafe mode, it has failed less often than its retry threshold, its
  cooldown is over, and the policy is enabled and has a direction.
\<close>

theorem group_scaling_gated:
  assumes stored: "en_kv_get E h (cf_ConsulKeyRoot cfg @ ''/state/jobs/'' @ j @ ''/'' @ gp_GroupName policy) = Inr (Some kv)"
    and s: "s = fst (unmarshal_state (kp_Value kv) (group_state cfg j policy))"
    and acts: "e \<in> set (calls (scale_group E (consulClient E) (nomadJobs E) cfg j policy) h)" "mutating e"
  shows "(\<exists>job. e = JobRegister job) \<and> \<not> st_FailsafeMode s \<and> st_FailureCount s < gp_RetryThreshold policy \<and>
    gp_Enabled policy \<and> gp_ScaleDirection policy \<in> {ScalingDirectionOut, ScalingDirectionIn} \<and>
    (\<exists>h'. st_LastScalingEvent s < en_now E h' + i64 (- duration_seconds (gp_Cooldown policy)))"
proof -
  let ?m = "scale_group E (consulClient E) (nomadJobs E) cfg j policy"
  have "\<exists>job. e = JobRegister job"
    using obeys_calls [OF jscale.scale_group_obeys acts(1)] acts(2) by (cases e) auto
  moreover have "group_gates E policy s"
  proof (rule ccontr)
    assume closed: "\<not> group_gates E policy s"
    let ?h = "h @ [KVGet (st_StatePath (group_state cfg j policy))]"
    have r: "?m h = scale_group_state E (consulClient E) (nomadJobs E) cfg j policy s ?h"
      using stored s by (simp add: scale_group_def ReadState_def go_simps group_state_def)
    have "filter mutating (snd (?m h)) = filter mutating h"
      unfolding r by (subst obeys_filter [OF jscale.scale_group_gated [OF closed]]) simp
    moreover have "snd (?m h) = h @ calls ?m h" by (rule obeys_history [OF jscale.scale_group_obeys])
    ultimately have "filter mutating (calls ?m h) = []" by simp
    with acts show False by (simp add: filter_empty_conv)
  qed
  ultimately show ?thesis by (simp add: group_gates_def)
qed

definition group_env :: env where
  "group_env = jobs_env\<lparr>en_kv_get := (\<lambda>_ _. Inr (Some \<lparr>kp_Value = JObj [(''failure_count'', JInt 1)], kp_Session = []\<rparr>)),
     en_job_register := (\<lambda>_ _. Inl (ApiErr ''denied''))\<rparr>"

theorem group_scaling_gated_witness:
  "\<exists>e. e \<in> set (calls (scale_group group_env (consulClient group_env) (nomadJobs group_env) demo_config ''job'' demo_policy) []) \<and>
     mutating e \<and> (\<exists>job. e = JobRegister job) \<and> gp_Enabled demo_policy"
proof -
  let ?e = "JobRegister (demo_job\<lparr>jb_TaskGroups := [demo_group\<lparr>tg_Count := 3\<rparr>]\<rparr>)"
  have e: "?e \<in> set (calls (scale_group group_env (consulClient group_env) (nomadJobs group_env) demo_config ''job'' demo_policy) [])"
    by (simp add: calls_def scale_group_def scale_group_state_def ReadState_def FailsafeCheck_def JobGroupScale_def PersistState_def
        go_simps group_env_def jobs_env_def ref_env_def demo_job_def demo_group_def demo_policy_def NewGroupScalingPolicy_def
        group_state_def empty_state_def dec_member_def ToLower_def lower_char_def duration_seconds_def Second_def
        marshal_state_def time_ok_def day_def Let_def i64_id)
  from group_scaling_gated [OF _ refl e, of "\<lparr>kp_Value = JObj [(''failure_count'', JInt 1)], kp_Session = []\<rparr>"] e
  show ?thesis by (auto simp: group_env_def)
qed

text \<open>
  The scaling of a job always returns, with the map of policies well formed, no policy
  changed but in its resources, metric and direction, and no change outside but the
  registration of jobs.
\<close>

theorem job_scaling_safe:
  assumes "cf_Notification cfg \<noteq> None" and "policies_inv s"
  shows "\<exists>s' h'. scale_job E cfg s j h = (Ret s', h') \<and> policies_inv s' \<and>
    (\<forall>p. policy_frame (jp_Heap s p) (jp_Heap s' p)) \<and>
    (\<forall>e \<in> set (calls (scale_job E cfg s j) h). mutating e \<longrightarrow> (\<exists>job. e = JobRegister job))"
proof -
  obtain s' h' where r: "scale_job E cfg s j h = (Ret s', h')"
    using jscale.job_scaling_returns [OF assms(1)] by (rule returnsE)
  note O = obeys_run [OF jscale.job_scaling_obeys [OF assms(2)] r]
  have "\<exists>job. e = JobRegister job" if "e \<in> set (calls (scale_job E cfg s j) h)" "mutating e" for e
    using O(2) [OF that(1)] that(2) by (cases e) auto
  with r O(3) show ?thesis by blast
qed

theorem job_scaling_safe_witness:
  "\<exists>s' h'. scale_job jobs_env demo_config demo_policies ''job'' [] = (Ret s', h') \<and> policies_inv s'"
proof -
  have "cf_Notification demo_config \<noteq> None" "policies_inv demo_policies"
    by (simp_all add: demo_config_def policies_inv_def demo_policies_def wf_map_def)
  from job_scaling_safe [OF this] show ?thesis by blast
qed

text \<open>
  The limits of a group's policy are tested against the count of every group of the job: a job
  with any group at or above the policy's maximum is never scaled out, even if the policy's own
  group is far below it.
\<close>

theorem other_group_blocks_scaling:
  assumes "en_job_info E h j = Inr job" and "gp_ScaleDirection policy = ScalingDirectionOut"
    and "tg \<in> set (jb_TaskGroups job)" and "gp_Max policy \<le> tg_Count tg"
  shows "filter mutating (calls (JobGroupScale E j policy s) h) = []"
proof -
  have "snd (scale_counts policy tgs t) = None" if "tg \<in> set tgs" for tgs t
    using that assms(2,4) by (induction tgs arbitrary: t) (auto simp: Let_def split: prod.splits, (metis snd_conv)+)
  then have "filter mutating (snd (JobGroupScale E j policy s h)) = filter mutating h"
    using assms(1,3) by (simp add: JobGroupScale_trace)
  then show ?thesis by (subst (asm) obeys_history [OF JobGroupScale_obeys]) simp
qed

theorem other_group_blocks_scaling_witness:
  "filter mutating (calls (JobGroupScale (jobs_env\<lparr>en_job_info := \<lambda>_ _. Inr (demo_job\<lparr>jb_TaskGroups := [demo_group, demo_group\<lparr>tg_Name := ''b'', tg_Count := 9\<rparr>]\<rparr>)\<rparr>)
     ''job'' demo_policy empty_state) []) = []"
  by (rule other_group_blocks_scaling [where tg = "demo_group\<lparr>tg_Name := ''b'', tg_Count := 9\<rparr>" and
        job = "demo_job\<lparr>jb_TaskGroups := [demo_group, demo_group\<lparr>tg_Name := ''b'', tg_Count := 9\<rparr>]\<rparr>"])
    (simp_all add: demo_policy_def)

theorem job_evaluation_decides_witness:
  "\<exists>heap' h'. EvaluateJobScaling jobs_env ''job'' [0] (\<lambda>_. demo_policy) [] = (Ret (heap', None), h') \<and>
     gp_ScaleDirection (heap' 0) = ScalingDirectionIn"
proof -
  let ?p = "set_direction (MostUtilizedGroupResource (demo_policy\<lparr>gp_Tasks := no_resources\<lparr>ar_CPUMHz := 100, ar_MemoryMB := 100\<rparr>\<rparr>))"
  let ?heap = "(\<lambda>_. demo_policy)(0 :: ptr := ?p)"
  have r: "EvaluateJobScaling jobs_env ''job'' [0] (\<lambda>_. demo_policy) [] = (Ret (?heap, None), [JobInfo ''job'', JobAllocations ''job''])"
    by (simp add: GetTaskGroupResources_def GetJobAllocations_def go_simps jobs_env_def ref_env_def demo_job_def demo_group_def
        demo_policy_def NewGroupScalingPolicy_def no_resources_def)
  have p: "Fin 0 = ar_CPUPercent (gp_Tasks (?heap 0))" "Fin 0 = ar_MemoryPercent (gp_Tasks (?heap 0))"
    by (simp_all add: set_direction_def MostUtilizedGroupResource_def no_resources_def Let_def)
  have "gp_ScaleDirection (?heap 0) =
      (if Fin 0 < gp_ScaleInCPU demo_policy \<and> Fin 0 < gp_ScaleInMem demo_policy then ScalingDirectionIn
       else if (if Fin 0 < Fin 0 then gp_ScaleOutMem demo_policy < Fin 0 else gp_ScaleOutCPU demo_policy < Fin 0)
       then ScalingDirectionOut else ScalingDirectionNone)"
    by (rule job_evaluation_decides [OF r _ p, THEN conjunct1]) simp_all
  also have "\<dots> = ScalingDirectionIn" by (simp add: demo_policy_def NewGroupScalingPolicy_def)
  finally have "gp_ScaleDirection (?heap 0) = ScalingDirectionIn" .
  then show ?thesis by (intro exI conjI) (rule r)
qed

end
