(* ===== verification/Leader.thy ===== *)
theory Leader
  imports World
begin

text \<open>
  Leadership: \<open>replicator/leader.go\<close>, the session and lock operations of \<open>client/consul.go\<close>
  and the status endpoint of \<open>replicator/status_endpoint.go\<close>.  A candidate takes part in the
  election at every tick; the goroutine that keeps its session alive is \<open>renewSession\<close>, run
  along a schedule of the cases its \<open>select\<close> takes.
\<close>

section \<open>client/consul.go\<close>

definition CreateSession :: "env \<Rightarrow> int \<Rightarrow> string result act" where
  "CreateSession E ttl =
     bnd (session_create E ttl) (\<lambda>resp.
     case resp of Inl e \<Rightarrow> ret (Inl e) | Inr i \<Rightarrow> ret (Inr i))"

text \<open>The key is read first, and what it held is used after the session was looked up.\<close>

definition AcquireLeadership :: "env \<Rightarrow> string \<Rightarrow> string \<Rightarrow> (bool \<times> string) act" where
  "AcquireLeadership E key session =
     bnd (kv_get E key) (\<lambda>k.
     case k of
       Inl e \<Rightarrow> ret (False, session)
     | Inr pair \<Rightarrow>
         bnd (session_info E session) (\<lambda>s.
         case s of
           Inl e \<Rightarrow> ret (False, session)
         | Inr None \<Rightarrow> ret (False, [])
         | Inr (Some _) \<Rightarrow>
             (if (case pair of None \<Rightarrow> False | Some p \<Rightarrow> kp_Session p = session) then ret (True, session)
              else
                bnd (kv_acquire E key session) (\<lambda>resp.
                case resp of
                  Inl e \<Rightarrow> ret (False, session)
                | Inr ok \<Rightarrow> ret (ok, session)))))"

definition ResignLeadership :: "env \<Rightarrow> string \<Rightarrow> string \<Rightarrow> unit act" where
  "ResignLeadership E key session = bnd (kv_release E key session) (\<lambda>_. ret ())"

text \<open>The information on the leader is its node and its session.  Neither the key nor the session
  is tested for being absent.\<close>

definition GetLeaderInfo :: "env \<Rightarrow> string \<Rightarrow> string \<Rightarrow> (string \<times> string) result act" where
  "GetLeaderInfo E key session =
     bnd (if session = [] then
            bnd (kv_get E key) (\<lambda>k.
            case k of
              Inl e \<Rightarrow> ret (Inl e)
            | Inr None \<Rightarrow> panic
            | Inr (Some p) \<Rightarrow> ret (Inr (kp_Session p)))
          else ret (Inr session)) (\<lambda>r.
     case r of
       Inl e \<Rightarrow> ret (Inl e)
     | Inr sess \<Rightarrow>
         bnd (session_info E sess) (\<lambda>s.
         case s of
           Inl e \<Rightarrow> ret (Inl e)
         | Inr None \<Rightarrow> panic
         | Inr (Some i) \<Rightarrow> ret (Inr (ss_Node i, ss_ID i))))"

text \<open>
  The loop of \<open>renewSession\<close>: half the time to live has passed, or the channel was closed.  The
  result tells whether the goroutine has ended.
\<close>

datatype renew_case = HalfTTL | Stopped

abbreviation "maxSessionDestroyAttempts \<equiv> (5 :: nat)"

fun renewSession :: "env \<Rightarrow> string \<Rightarrow> nat \<Rightarrow> renew_case list \<Rightarrow> bool act" where
  "renewSession E session attempts [] = ret False"
| "renewSession E session attempts (HalfTTL # cases) =
     bnd (session_renew E session) (\<lambda>entry.
     case entry of
       Inl e \<Rightarrow> ret True
     | Inr None \<Rightarrow> ret True
     | Inr (Some ttl) \<Rightarrow> renewSession E session attempts cases)"
| "renewSession E session attempts (Stopped # cases) =
     bnd (session_destroy E session) (\<lambda>err.
     if err = None then ret True
     else if maxSessionDestroyAttempts \<le> attempts then ret True
     else renewSession E session (attempts + 1) cases)"

section \<open>replicator/leader.go\<close>

datatype channel = Open | Closed

record leader_candidate =
  lc_leader :: bool
  lc_key :: string
  lc_session :: string
  lc_ttl :: int
  lc_renewChan :: "channel option"

abbreviation "leaderElectionInterval \<equiv> (10 :: int)"
abbreviation "leaderLockTimeout \<equiv> (12 :: int)"

definition newLeaderCandidate :: "string \<Rightarrow> int \<Rightarrow> leader_candidate" where
  "newLeaderCandidate key ttl =
     \<lparr>lc_leader = False, lc_key = key, lc_session = [], lc_ttl = ttl, lc_renewChan = None\<rparr>"

definition isLeader :: "leader_candidate \<Rightarrow> bool" where
  "isLeader l = lc_leader l"

definition leaderElection :: "env \<Rightarrow> leader_candidate \<Rightarrow> (leader_candidate \<times> bool) act" where
  "leaderElection E l =
     bnd (if lc_session l = [] then
            bnd (CreateSession E (lc_ttl l)) (\<lambda>resp.
            case resp of
              Inl e \<Rightarrow> ret (l\<lparr>lc_renewChan := Some Open\<rparr>, False)
            | Inr i \<Rightarrow> ret (l\<lparr>lc_renewChan := Some Open, lc_session := i\<rparr>, True))
          else ret (l, True)) (\<lambda>(l1, go_on).
     if \<not> go_on then ret (l1, False)
     else
       bnd (AcquireLeadership E (lc_key l1) (lc_session l1)) (\<lambda>(won, session).
       let l2 = l1\<lparr>lc_session := session\<rparr> in
       ret (if won then (l2\<lparr>lc_leader := True\<rparr>, True) else (l2, False))))"

text \<open>Closing a channel that is closed panics.\<close>

definition releaseSession :: "leader_candidate \<Rightarrow> leader_candidate act" where
  "releaseSession l =
     (case lc_renewChan l of
        None \<Rightarrow> ret l
      | Some Open \<Rightarrow> ret (l\<lparr>lc_renewChan := Some Closed\<rparr>)
      | Some Closed \<Rightarrow> panic)"

definition endCampaign :: "env \<Rightarrow> leader_candidate \<Rightarrow> leader_candidate act" where
  "endCampaign E l =
     bnd (releaseSession l) (\<lambda>l'.
     if lc_leader l' then bnd (ResignLeadership E (lc_key l') (lc_session l')) (\<lambda>_. ret l')
     else ret l')"

section \<open>replicator/status\_endpoint.go\<close>

definition Status_Leader :: "env \<Rightarrow> leader_candidate \<Rightarrow> (string \<times> string) result act" where
  "Status_Leader E candidate =
     GetLeaderInfo E (lc_key candidate) (if lc_leader candidate then lc_session candidate else [])"

section \<open>The replicas of a cluster\<close>

text \<open>
  Replicas share Consul, and so one history.  At any time a replica takes part in an election,
  leaves (and is started again), or anything is read by anyone.
\<close>

inductive campaigning :: "env \<Rightarrow> string \<Rightarrow> (nat \<Rightarrow> leader_candidate) \<Rightarrow> log \<Rightarrow> bool" for E key where
  start: "campaigning E key (\<lambda>_. newLeaderCandidate key leaderLockTimeout) []"
| elect: "campaigning E key (cs(i := fst r)) h'"
    if "campaigning E key cs h" and "leaderElection E (cs i) h = (Ret r, h')"
| restart: "campaigning E key (cs(i := newLeaderCandidate key leaderLockTimeout)) h'"
    if "campaigning E key cs h" and "endCampaign E (cs i) h = (Ret l, h')"
| other: "campaigning E key cs (h @ [e])" if "campaigning E key cs h" and "reading e"

inductive_cases campaigningE: "campaigning E key cs h"

text \<open>
  What Consul promises: the sessions it creates are new, and the lock on a key has one holder,
  who is the session that the key shows or that last acquired it.
\<close>

definition session_law :: "env \<Rightarrow> (log \<Rightarrow> string set) \<Rightarrow> bool" where
  "session_law E sessions \<longleftrightarrow> (\<forall>h e. sessions h \<subseteq> sessions (h @ [e])) \<and>
     (\<forall>h ttl i. en_session_create E h ttl = Inr i \<longrightarrow>
        i \<noteq> [] \<and> i \<notin> sessions h \<and> i \<in> sessions (h @ [SessionCreate ttl]))"

definition lock_law :: "env \<Rightarrow> string \<Rightarrow> (log \<Rightarrow> string option) \<Rightarrow> bool" where
  "lock_law E key holder \<longleftrightarrow>
     (\<forall>h p. en_kv_get E h key = Inr (Some p) \<longrightarrow> kp_Session p \<noteq> [] \<longrightarrow> holder h = Some (kp_Session p)) \<and>
     (\<forall>h s. en_kv_acquire E h key s = Inr True \<longrightarrow> holder (h @ [KVAcquire key s]) = Some s)"

text \<open>The election, branch by branch.\<close>

lemma acquire_cases:
  assumes "AcquireLeadership E key session h = (Ret (won, session'), h')"
  shows "session' = session \<or> session' = [] \<and> \<not> won"
    and "won \<Longrightarrow> (\<exists>p. en_kv_get E h key = Inr (Some p) \<and> kp_Session p = session) \<or>
      h' = h @ [KVGet key, SessionInfo session, KVAcquire key session] \<and>
      en_kv_acquire E (h @ [KVGet key, SessionInfo session]) key session = Inr True"
    and "\<exists>new. h' = h @ new \<and> (\<forall>e \<in> set new. e \<in> {KVGet key, SessionInfo session, KVAcquire key session})"
  using assms
  by (auto simp: AcquireLeadership_def go_simps split: sum.splits option.splits if_splits)

lemma acquire_returns: "returns (AcquireLeadership E key session)"
  unfolding AcquireLeadership_def api_defs by (intro returns_intro)

lemma vote_run:
  assumes "bnd (AcquireLeadership E (lc_key l1) (lc_session l1)) (\<lambda>(won, session).
      ret (if won then (l1\<lparr>lc_session := session, lc_leader := True\<rparr>, True) else (l1\<lparr>lc_session := session\<rparr>, False))) h1 =
      (Ret (l', won), h')"
  shows "\<exists>session'. AcquireLeadership E (lc_key l1) (lc_session l1) h1 = (Ret (won, session'), h') \<and>
    l' = l1\<lparr>lc_session := session', lc_leader := lc_leader l1 \<or> won\<rparr>"
  using assms by (auto simp: ret_app elim!: bnd_RetE split: if_splits)

lemma election_run:
  assumes "leaderElection E l h = (Ret (l', won), h')"
  obtains (no_session) e where "lc_session l = []" "en_session_create E h (lc_ttl l) = Inl e" "\<not> won"
      "l' = l\<lparr>lc_renewChan := Some Open\<rparr>" "h' = h @ [SessionCreate (lc_ttl l)]"
  | (session) l1 h1 session' where
      "lc_session l = [] \<and> (\<exists>i. en_session_create E h (lc_ttl l) = Inr i \<and>
         l1 = l\<lparr>lc_renewChan := Some Open, lc_session := i\<rparr>) \<and> h1 = h @ [SessionCreate (lc_ttl l)] \<or>
       lc_session l \<noteq> [] \<and> l1 = l \<and> h1 = h"
      "AcquireLeadership E (lc_key l1) (lc_session l1) h1 = (Ret (won, session'), h')"
      "l' = l1\<lparr>lc_session := session', lc_leader := lc_leader l \<or> won\<rparr>"
proof (cases "lc_session l = []")
  case True
  show thesis
  proof (cases "en_session_create E h (lc_ttl l)")
    case (Inl e)
    with True assms show thesis by (intro no_session) (auto simp: leaderElection_def CreateSession_def go_simps)
  next
    case (Inr i)
    let ?l = "l\<lparr>lc_renewChan := Some Open, lc_session := i\<rparr>" and ?h = "h @ [SessionCreate (lc_ttl l)]"
    have "\<exists>session'. AcquireLeadership E (lc_key ?l) (lc_session ?l) ?h = (Ret (won, session'), h') \<and>
        l' = ?l\<lparr>lc_session := session', lc_leader := lc_leader ?l \<or> won\<rparr>"
      by (rule vote_run) (use True Inr assms in \<open>simp add: leaderElection_def CreateSession_def bnd_call bnd_assoc Let_def session_create_def cong: if_cong\<close>)
    with True Inr show thesis by (auto intro: session [of ?l ?h])
  qed
next
  case False
  have "\<exists>session'. AcquireLeadership E (lc_key l) (lc_session l) h = (Ret (won, session'), h') \<and>
      l' = l\<lparr>lc_session := session', lc_leader := lc_leader l \<or> won\<rparr>"
    by (rule vote_run) (use False assms in \<open>simp add: leaderElection_def Let_def\<close>)
  with False show thesis by (auto intro: session [of l h])
qed

section \<open>Who leads\<close>

lemma election_key: "leaderElection E l h = (Ret (l', won), h') \<Longrightarrow> lc_key l' = lc_key l"
  by (erule election_run) auto

definition campaign_inv :: "(log \<Rightarrow> string set) \<Rightarrow> string \<Rightarrow> (nat \<Rightarrow> leader_candidate) \<Rightarrow> log \<Rightarrow> bool" where
  "campaign_inv sessions key cs h \<longleftrightarrow>
     (\<forall>i. lc_key (cs i) = key \<and> (lc_session (cs i) \<noteq> [] \<longrightarrow> lc_session (cs i) \<in> sessions h)) \<and>
     (\<forall>i j. i \<noteq> j \<longrightarrow> lc_session (cs i) \<noteq> [] \<longrightarrow> lc_session (cs i) \<noteq> lc_session (cs j))"

lemma sessions_grow: "session_law E sessions \<Longrightarrow> sessions h \<subseteq> sessions (h @ es)"
proof (induction es rule: rev_induct)
  case (snoc e es)
  then show ?case unfolding session_law_def by (metis append.assoc order.trans)
qed simp

text \<open>The session a replica has after an election is the one it had, or a new one, or none.\<close>

lemma election_session:
  assumes law: "session_law E sessions" and run: "leaderElection E l h = (Ret (l', won), h')"
  shows "\<exists>es. h' = h @ es"
    and "lc_session l' = [] \<or> lc_session l' = lc_session l \<or> lc_session l' \<notin> sessions h \<and> lc_session l' \<in> sessions h'"
proof -
  have "(\<exists>es. h' = h @ es) \<and>
    (lc_session l' = [] \<or> lc_session l' = lc_session l \<or> lc_session l' \<notin> sessions h \<and> lc_session l' \<in> sessions h')"
    using run
  proof (cases rule: election_run)
    case (session l1 h1 session')
    obtain new where n: "h' = h1 @ new" using acquire_cases(3) [OF session(2)] by blast
    have s: "session' = lc_session l1 \<or> session' = []" using acquire_cases(1) [OF session(2)] by blast
    from session(1) show ?thesis
    proof
      assume a: "lc_session l = [] \<and> (\<exists>i. en_session_create E h (lc_ttl l) = Inr i \<and>
         l1 = l\<lparr>lc_renewChan := Some Open, lc_session := i\<rparr>) \<and> h1 = h @ [SessionCreate (lc_ttl l)]"
      then have "lc_session l1 \<notin> sessions h" "lc_session l1 \<in> sessions h1"
        using law by (auto simp: session_law_def)
      moreover have "sessions h1 \<subseteq> sessions h'" using sessions_grow [OF law] n by blast
      ultimately show ?thesis using s session(3) a n by auto
    qed (use s session(3) n in auto)
  qed auto
  then show "\<exists>es. h' = h @ es"
    and "lc_session l' = [] \<or> lc_session l' = lc_session l \<or> lc_session l' \<notin> sessions h \<and> lc_session l' \<in> sessions h'"
    by auto
qed

lemma end_campaign_log: "endCampaign E l h = (Ret l', h') \<Longrightarrow> \<exists>es. h' = h @ es"
  by (auto simp: endCampaign_def releaseSession_def ResignLeadership_def go_simps
      split: option.splits channel.splits if_splits)

lemma campaign_safe:
  assumes law: "session_law E sessions" and run: "campaigning E key cs h"
  shows "campaign_inv sessions key cs h"
  using run
proof (induction rule: campaigning.induct)
  case start
  show ?case by (simp add: campaign_inv_def newLeaderCandidate_def)
next
  case (elect cs h i r h')
  obtain l won where r: "r = (l, won)" by (cases r)
  note run = elect.hyps(2) [unfolded r]
  obtain es where h': "h' = h @ es" using election_session(1) [OF law run] by blast
  have g: "sessions h \<subseteq> sessions h'" unfolding h' by (rule sessions_grow [OF law])
  show ?case
    using elect.IH election_session(2) [OF law run] election_key [OF run] g
    unfolding campaign_inv_def r fst_conv fun_upd_apply by (auto; metis subsetD)
next
  case (restart cs h i l h')
  obtain es where "h' = h @ es" using end_campaign_log [OF restart.hyps(2)] by blast
  then have "sessions h \<subseteq> sessions h'" using sessions_grow [OF law] by simp
  with restart.IH show ?case by (auto simp: campaign_inv_def newLeaderCandidate_def)
next
  case (other cs h e)
  have "sessions h \<subseteq> sessions (h @ [e])" by (rule sessions_grow [OF law])
  with other.IH show ?case by (auto simp: campaign_inv_def)
qed

section \<open>Properties\<close>

text \<open>
  C5: whoever wins an election held the lock at a moment of that election, and no other replica
  held it then: with Consul keeping its promises, the elections of any number of replicas, run
  in any order, are exclusive.
\<close>

theorem election_exclusive:
  assumes sessions: "session_law E sessions" and lock: "lock_law E key holder"
    and run: "campaigning E key cs h" and won: "leaderElection E (cs i) h = (Ret (l, True), h')"
  shows "\<exists>es fs. h' = h @ es @ fs \<and> holder (h @ es) = Some (lc_session l) \<and>
    (\<forall>j. j \<noteq> i \<longrightarrow> holder (h @ es) \<noteq> Some (lc_session (cs j)))"
proof -
  have inv: "campaign_inv sessions key cs h" by (rule campaign_safe [OF sessions run])
  have inv': "campaign_inv sessions key (cs(i := l)) h'"
    using campaign_safe [OF sessions campaigning.elect [OF run won]] by simp
  have held: "\<exists>es fs. h' = h @ es @ fs \<and> holder (h @ es) = Some (lc_session l) \<and> lc_session l \<noteq> []"
    using won
  proof (cases rule: election_run)
    case (session l1 h1 session')
    have s: "session' = lc_session l1" using acquire_cases(1) [OF session(2)] by simp
    have ne: "lc_session l1 \<noteq> []" using session(1) sessions by (auto simp: session_law_def)
    have k: "lc_key l1 = key" using session(1) inv by (auto simp: campaign_inv_def)
    obtain es where h1: "h1 = h @ es" using session(1) by auto
    obtain new where n: "h' = h1 @ new" using acquire_cases(3) [OF session(2)] by blast
    from acquire_cases(2) [OF session(2) TrueI] show ?thesis
    proof
      assume "\<exists>p. en_kv_get E h1 (lc_key l1) = Inr (Some p) \<and> kp_Session p = lc_session l1"
      then have "holder h1 = Some (lc_session l1)" using lock ne k by (auto simp: lock_law_def)
      with s ne session(3) h1 n show ?thesis by auto
    next
      assume a: "h' = h1 @ [KVGet (lc_key l1), SessionInfo (lc_session l1), KVAcquire (lc_key l1) (lc_session l1)] \<and>
        en_kv_acquire E (h1 @ [KVGet (lc_key l1), SessionInfo (lc_session l1)]) (lc_key l1) (lc_session l1) = Inr True"
      then have "holder ((h1 @ [KVGet key, SessionInfo (lc_session l1)]) @ [KVAcquire key (lc_session l1)]) = Some (lc_session l1)"
        using lock k unfolding lock_law_def by blast
      with a s ne session(3) h1 k show ?thesis
        by (intro exI [of _ "es @ [KVGet key, SessionInfo (lc_session l1), KVAcquire key (lc_session l1)]"] exI [of _ "[]"]) simp
    qed
  qed simp
  have other: "lc_session (cs j) \<noteq> lc_session l" if "j \<noteq> i" "lc_session l \<noteq> []" for j
  proof -
    have "lc_session ((cs(i := l)) i) \<noteq> lc_session ((cs(i := l)) j)"
      using inv' that unfolding campaign_inv_def by (metis fun_upd_same)
    with that show ?thesis by simp
  qed
  from held obtain es fs where "h' = h @ es @ fs" "holder (h @ es) = Some (lc_session l)" "lc_session l \<noteq> []" by blast
  moreover from this have "\<forall>j. j \<noteq> i \<longrightarrow> holder (h @ es) \<noteq> Some (lc_session (cs j))" using other by (metis option.inject)
  ultimately show ?thesis by blast
qed

text \<open>
  A Consul that keeps its promises: sessions are numbered, the lock goes to the first session that
  asks while it is free, and the first session expires after six calls, which frees the lock.
\<close>

definition sname :: "nat \<Rightarrow> string" where "sname n = replicate (Suc n) CHR ''s''"

fun is_create :: "event \<Rightarrow> bool" where
  "is_create (SessionCreate _) = True"
| "is_create _ = False"

definition creates :: "log \<Rightarrow> nat" where "creates h = length (filter is_create h)"

definition alive :: "string \<Rightarrow> nat \<Rightarrow> bool" where "alive s n \<longleftrightarrow> s \<noteq> sname 0 \<or> n < 6"

definition lock_step :: "string option \<times> nat \<Rightarrow> event \<Rightarrow> string option \<times> nat" where
  "lock_step = (\<lambda>(hd, n) e.
     let hd' = (case e of KVAcquire k s \<Rightarrow> if hd = None \<and> alive s (Suc n) then Some s else hd | _ \<Rightarrow> hd)
     in (if hd' = Some (sname 0) \<and> 6 \<le> Suc n then None else hd', Suc n))"

definition held :: "log \<Rightarrow> string option" where "held h = fst (foldl lock_step (None, 0) h)"

definition lock_env :: env where
  "lock_env = ref_env\<lparr>en_session_create := (\<lambda>h _. Inr (sname (creates h))),
     en_session_info := (\<lambda>h s. Inr (if alive s (Suc (length h)) then Some \<lparr>ss_ID = s, ss_Node = ''n''\<rparr> else None)),
     en_kv_get := (\<lambda>h k. Inr (Some \<lparr>kp_Value = JNull, kp_Session = (case held h of None \<Rightarrow> [] | Some s \<Rightarrow> s)\<rparr>)),
     en_kv_acquire := (\<lambda>h k s. Inr (alive s (Suc (length h)) \<and> (held h = None \<or> held h = Some s)))\<rparr>"

lemma lock_step_count: "snd (foldl lock_step (None, 0) h) = length h"
  by (induction h rule: rev_induct) (simp_all add: lock_step_def split_def Let_def)

lemma held_snoc:
  "held (h @ [e]) = fst (lock_step (held h, length h) e)"
  by (simp add: held_def lock_step_count [symmetric])

lemma lock_env_laws:
  "session_law lock_env (\<lambda>h. sname ` {..<creates h})" "lock_law lock_env key held"
proof -
  have "sname n \<noteq> sname m" if "n \<noteq> m" for n m using that by (simp add: sname_def)
  then show "session_law lock_env (\<lambda>h. sname ` {..<creates h})"
    by (auto simp: session_law_def lock_env_def creates_def sname_def)
  show "lock_law lock_env key held"
    by (auto simp: lock_law_def lock_env_def held_snoc lock_step_def alive_def split: option.splits)
qed

abbreviation "fresh \<equiv> newLeaderCandidate ''leader'' leaderLockTimeout"

lemmas demo_election =
  leaderElection_def CreateSession_def AcquireLeadership_def go_simps lock_env_def newLeaderCandidate_def
  creates_def held_def lock_step_def alive_def sname_def Let_def

lemma first_election:
  "leaderElection lock_env fresh [] =
     (Ret (fresh\<lparr>lc_leader := True, lc_session := sname 0, lc_renewChan := Some Open\<rparr>, True),
      [SessionCreate 12, KVGet ''leader'', SessionInfo (sname 0), KVAcquire ''leader'' (sname 0)])"
  by (simp add: demo_election)

theorem election_exclusive_witness:
  "\<exists>l h' es. leaderElection lock_env fresh [] = (Ret (l, True), h') \<and> held es = Some (lc_session l)"
proof -
  from election_exclusive [OF lock_env_laws campaigning.start first_election]
  show ?thesis using first_election by auto
qed

text \<open>
  C39: the flag that the tickers test is never taken back: with a Consul that keeps its promises, a
  replica whose session has expired goes on as leader beside the one that was elected after it.
\<close>

theorem two_leaders:
  "session_law lock_env (\<lambda>h. sname ` {..<creates h}) \<and> lock_law lock_env ''leader'' held \<and>
     (\<exists>cs h. campaigning lock_env ''leader'' cs h \<and> isLeader (cs 0) \<and> isLeader (cs 1) \<and>
        (\<exists>r h'. leaderElection lock_env (cs 0) h = (Ret r, h') \<and> \<not> snd r \<and> isLeader (fst r)))"
proof -
  let ?l0 = "fresh\<lparr>lc_leader := True, lc_session := sname 0, lc_renewChan := Some Open\<rparr>"
  let ?l1 = "fresh\<lparr>lc_leader := True, lc_session := sname 1, lc_renewChan := Some Open\<rparr>"
  let ?h4 = "[SessionCreate 12, KVGet ''leader'', SessionInfo (sname 0), KVAcquire ''leader'' (sname 0)]"
  let ?h6 = "?h4 @ [Now, Now]"
  let ?h = "?h6 @ [SessionCreate 12, KVGet ''leader'', SessionInfo (sname 1), KVAcquire ''leader'' (sname 1)]"
  let ?cs = "(\<lambda>_ :: nat. fresh)(0 := ?l0, 1 := ?l1)"
  have "campaigning lock_env ''leader'' ((\<lambda>_ :: nat. fresh)(0 := ?l0)) ?h4"
    using campaigning.elect [OF campaigning.start first_election, where i = 0] by simp
  from campaigning.other [OF campaigning.other [OF this, of Now], of Now]
  have c: "campaigning lock_env ''leader'' ((\<lambda>_ :: nat. fresh)(0 := ?l0)) ?h6" by simp
  have "leaderElection lock_env (((\<lambda>_ :: nat. fresh)(0 := ?l0)) 1) ?h6 = (Ret (?l1, True), ?h)"
    by (simp add: demo_election)
  from campaigning.elect [OF c this] have "campaigning lock_env ''leader'' ?cs ?h" by (simp only: fst_conv)
  moreover have "\<exists>r h'. leaderElection lock_env (?cs 0) ?h = (Ret r, h') \<and> \<not> snd r \<and> isLeader (fst r)"
    by (simp add: demo_election isLeader_def)
  ultimately show ?thesis using lock_env_laws by (auto simp: isLeader_def intro!: exI [of _ ?cs] exI [of _ ?h])
qed

text \<open>How the goroutine of a session ends.\<close>

fun is_destroy :: "event \<Rightarrow> bool" where
  "is_destroy (SessionDestroy _) = True"
| "is_destroy _ = False"

lemma renew_at_most: "n \<le> 5 \<Longrightarrow> at_most (6 - n) is_destroy (renewSession E s n cases)"
proof (induction E s n cases rule: renewSession.induct)
  case (2 E s n cases)
  have "at_most (6 - n) is_destroy (case entry of Inl e \<Rightarrow> ret True | Inr None \<Rightarrow> ret True
      | Inr (Some ttl) \<Rightarrow> renewSession E s n cases)" for entry
    using 2 by (auto split: sum.split option.split)
  moreover have "at_most 0 is_destroy (session_renew E s)"
    by (rule at_most_0 [where Q = "\<lambda>_. True"]) (simp add: session_renew_def obeys_call)
  ultimately show ?case unfolding renewSession.simps by (intro at_most_bnd [where a = 0 and b = "6 - n"]) simp_all
next
  case (3 E s n cases)
  have "at_most (5 - n) is_destroy (if err = None then ret True else if 5 \<le> n then ret True
      else renewSession E s (n + 1) cases)" for err :: "go_error option"
    using 3 by auto
  moreover have "at_most 1 is_destroy (session_destroy E s)"
    by (simp add: session_destroy_def at_most_call [where k = 0, simplified])
  ultimately show ?case using 3(2) unfolding renewSession.simps by (intro at_most_bnd [where a = 1 and b = "5 - n"]) simp_all
qed simp

lemma renew_ends:
  "n \<le> 5 \<Longrightarrow> 6 - n \<le> length (filter (\<lambda>c. c = Stopped) cases) \<Longrightarrow> fst (renewSession E s n cases h) = Ret True"
proof (induction E s n cases arbitrary: h rule: renewSession.induct)
  case (2 E s n cases)
  then show ?case by (simp add: go_simps split: sum.split option.split)
next
  case (3 E s n cases)
  then show ?case by (auto simp: go_simps)
qed simp

text \<open>
  C35: once its channel is closed, the goroutine that renews a session tries to destroy it at most
  six times, however Consul answers, and then ends.
\<close>

theorem renewal_bounded:
  "length (filter is_destroy (calls (renewSession E s 0 cases) h)) \<le> 6 \<and>
    (6 \<le> length (filter (\<lambda>c. c = Stopped) cases) \<longrightarrow> fst (renewSession E s 0 cases h) = Ret True)"
  using at_most_calls [OF renew_at_most [of 0]] renew_ends [of 0 cases] by simp

theorem renewal_bounded_witness:
  "fst (renewSession (ref_env\<lparr>en_session_destroy := \<lambda>_ _. Some (ApiErr ''e'')\<rparr>) ''s'' 0 (HalfTTL # replicate 6 Stopped) []) = Ret True"
  using renewal_bounded [of _ "''s''" "HalfTTL # replicate 6 Stopped" "[]"] by simp

text \<open>
  Asking for the leader before one was ever elected, or after its session has gone, is a nil
  pointer in the status endpoint.
\<close>

theorem status_without_leader_panics:
  assumes "\<not> isLeader l" and "en_kv_get E h (lc_key l) = Inr None"
  shows "fst (Status_Leader E l h) = Panic"
  using assms by (simp add: Status_Leader_def GetLeaderInfo_def isLeader_def go_simps)

theorem status_without_leader_panics_witness: "fst (Status_Leader ref_env fresh []) = Panic"
  by (rule status_without_leader_panics) (simp_all add: isLeader_def newLeaderCandidate_def ref_env_def)

end
