(* ===== verification/Server.thy ===== *)
theory Server
  imports Cluster_Scaling Job_Scaling Leader
begin

text \<open>
  The server: the pools of workers of \<open>asyncClusterScaling\<close> and \<open>asyncJobScaling\<close>, the tickers
  and the life of a server (\<open>replicator/server.go\<close>).  The workers of one tick take names from
  a buffered channel; they are a step relation, whose runs show that every name is evaluated
  once.  On this ground a tick is modelled as the evaluations one after the other, in an order
  that the runtime chooses.
\<close>

section \<open>Workers\<close>

text \<open>
  \<open>wk_pending\<close> are the names the main goroutine has still to send, \<open>wk_queue\<close> is the channel,
  \<open>wk_busy\<close> are the names being evaluated, \<open>wk_idle\<close> is the number of workers that wait for a
  name, \<open>wk_wg\<close> the counter of the wait group.
\<close>

record work =
  wk_pending :: "string list"
  wk_queue :: "string list"
  wk_busy :: "string list"
  wk_done :: "string list"
  wk_cap :: nat
  wk_idle :: nat
  wk_wg :: int

definition maxConcurrency :: "config \<Rightarrow> nat \<Rightarrow> int" where
  "maxConcurrency config poolCount = (if int poolCount < cf_ScalingConcurrency config then int poolCount else cf_ScalingConcurrency config)"

definition start_work :: "config \<Rightarrow> string list \<Rightarrow> work" where
  "start_work config names =
     \<lparr>wk_pending = names, wk_queue = [], wk_busy = [], wk_done = [], wk_cap = length names,
      wk_idle = nat (maxConcurrency config (length names)), wk_wg = int (length names)\<rparr>"

text \<open>
  The steps: the main goroutine sends a name, or passes over one (a job in deployment), or a
  worker takes a name, or finishes with it.
\<close>

inductive work_step :: "(string \<Rightarrow> bool) \<Rightarrow> work \<Rightarrow> work \<Rightarrow> bool" for skips where
  send: "work_step skips w (w\<lparr>wk_pending := ns, wk_queue := wk_queue w @ [n]\<rparr>)"
    if "wk_pending w = n # ns" and "\<not> skips n" and "length (wk_queue w) < wk_cap w"
| pass: "work_step skips w (w\<lparr>wk_pending := ns\<rparr>)" if "wk_pending w = n # ns" and "skips n"
| take_name: "work_step skips w (w\<lparr>wk_queue := q, wk_busy := n # wk_busy w, wk_idle := wk_idle w - 1\<rparr>)"
    if "wk_queue w = n # q" and "0 < wk_idle w"
| finish: "work_step skips w (w\<lparr>wk_busy := bs @ cs, wk_done := wk_done w @ [n], wk_idle := wk_idle w + 1, wk_wg := wk_wg w - 1\<rparr>)"
    if "wk_busy w = bs @ n # cs"

inductive_cases work_stepE: "work_step skips w w'"

inductive working :: "(string \<Rightarrow> bool) \<Rightarrow> work \<Rightarrow> work \<Rightarrow> bool" for skips w0 where
  init: "working skips w0 w0"
| step: "working skips w0 w''" if "working skips w0 w'" and "work_step skips w' w''"

text \<open>The main goroutine of \<open>asyncClusterScaling\<close> returns once all names are sent and the wait
  group is down to zero.\<close>

definition main_returns :: "work \<Rightarrow> bool" where
  "main_returns w \<longleftrightarrow> wk_pending w = [] \<and> wk_wg w = 0"

section \<open>The evaluations of a tick\<close>

fun run_pools ::
  "env \<Rightarrow> config \<Rightarrow> job_policies \<Rightarrow> string list \<Rightarrow> node_registry \<Rightarrow> node_registry act" where
  "run_pools E config jobs [] r = ret r"
| "run_pools E config jobs (n # ns) r = bnd (scale_pool E config r jobs n) (run_pools E config jobs ns)"

definition asyncClusterScaling :: "env \<Rightarrow> config \<Rightarrow> job_policies \<Rightarrow> node_registry \<Rightarrow> node_registry act" where
  "asyncClusterScaling E config jobs nodeRegistry =
     bnd (range_keys E (nr_WorkerPools nodeRegistry)) (\<lambda>names.
     if names \<noteq> [] \<and> nat (maxConcurrency config (length names)) = 0 then block
     else run_pools E config jobs names nodeRegistry)"

fun run_jobs :: "env \<Rightarrow> config \<Rightarrow> nat \<Rightarrow> string list \<Rightarrow> job_policies \<Rightarrow> job_policies act" where
  "run_jobs E config workers [] s = ret s"
| "run_jobs E config workers (n # ns) s =
     bnd (IsJobInDeployment E n) (\<lambda>deploying.
     if deploying \<or> workers = 0 then run_jobs E config workers ns s
     else bnd (scale_job E config s n) (run_jobs E config workers ns))"

text \<open>Nobody waits for the scaling of jobs: without workers the names stay in the channel.\<close>

definition asyncJobScaling :: "env \<Rightarrow> config \<Rightarrow> job_policies \<Rightarrow> job_policies act" where
  "asyncJobScaling E config jobScalingPolicies =
     bnd (range_keys E (jp_Policies jobScalingPolicies)) (\<lambda>names.
     run_jobs E config (nat (maxConcurrency config (length names))) names jobScalingPolicies)"

section \<open>replicator/server.go\<close>

definition clusterScalingTick ::
  "env \<Rightarrow> config \<Rightarrow> leader_candidate \<Rightarrow> job_policies \<Rightarrow> node_registry \<Rightarrow> node_registry act" where
  "clusterScalingTick E config candidate jobPol nodeReg =
     (if isLeader candidate \<and> 0 < length (nr_WorkerPools nodeReg) then
        bnd (nodeProtectionCheck E (nomadCluster E) nodeReg) (\<lambda>(nodeReg', err).
        asyncClusterScaling E config jobPol nodeReg')
      else ret nodeReg)"

definition jobScalingTick :: "env \<Rightarrow> config \<Rightarrow> leader_candidate \<Rightarrow> job_policies \<Rightarrow> job_policies act" where
  "jobScalingTick E config candidate jobPol =
     (if isLeader candidate \<and> 0 < length (jp_Policies jobPol) then asyncJobScaling E config jobPol
      else ret jobPol)"

datatype goroutine = leaderTicker | JobWatcher | NodeWatcher | clusterScalingTicker | jobScalingTicker | listen

text \<open>Every ticker goroutine begins with a ticker, which panics on a period that is not positive.\<close>

definition NewTicker :: "int \<Rightarrow> unit act" where
  "NewTicker d = (if d \<le> 0 then panic else ret ())"

fun start_goroutine :: "config \<Rightarrow> goroutine \<Rightarrow> unit act" where
  "start_goroutine config leaderTicker = NewTicker (duration_seconds leaderElectionInterval)"
| "start_goroutine config clusterScalingTicker = NewTicker (duration_seconds (cf_ClusterScalingInterval config))"
| "start_goroutine config jobScalingTicker = NewTicker (duration_seconds (cf_JobScalingInterval config))"
| "start_goroutine config _ = ret ()"

record server =
  sv_candidate :: leader_candidate
  sv_config :: config
  sv_running :: "goroutine list"
  sv_listening :: bool
  sv_shutdown :: bool
  sv_shutdownChan :: channel

definition Shutdown :: "env \<Rightarrow> server \<Rightarrow> server act" where
  "Shutdown E s =
     bnd (endCampaign E (sv_candidate s)) (\<lambda>candidate.
     case sv_shutdownChan s of
       Closed \<Rightarrow> panic
     | Open \<Rightarrow> ret (s\<lparr>sv_candidate := candidate, sv_listening := False, sv_shutdownChan := Closed\<rparr>))"

text \<open>
  \<open>setupRPC\<close> opens the listening socket: \<open>list\<close> is what the system answers, the address it is bound
  to, with whether that address is unspecified.  \<open>listener\<close> is its outcome.
\<close>

datatype net_addr = TCPAddr bool | OtherAddr

definition setupRPC :: "net_addr result \<Rightarrow> go_error option" where
  "setupRPC list =
     (case list of
        Inl e \<Rightarrow> Some e
      | Inr OtherAddr \<Rightarrow> Some (Errorf ''RPC advertise address is not a TCP Address'' None)
      | Inr (TCPAddr unspecified) \<Rightarrow>
          (if unspecified then Some (Errorf ''RPC advertise address is not advertisable'' None) else None))"

definition NewServer :: "env \<Rightarrow> config \<Rightarrow> go_error option \<Rightarrow> server result act" where
  "NewServer E config listener =
     (let s = \<lparr>sv_candidate = newLeaderCandidate (cf_ConsulKeyRoot config @ ''/'' @ ''leader'') leaderLockTimeout,
               sv_config = config,
               sv_running = [leaderTicker] @
                 (if \<not> cf_ClusterScalingDisable config \<or> \<not> cf_JobScalingDisable config then [JobWatcher] else []) @
                 (if \<not> cf_ClusterScalingDisable config then [NodeWatcher, clusterScalingTicker] else []) @
                 (if \<not> cf_JobScalingDisable config then [jobScalingTicker] else []),
               sv_listening = False, sv_shutdown = False, sv_shutdownChan = Open\<rparr>
      in case listener of
           Some e \<Rightarrow> bnd (Shutdown E s) (\<lambda>_. ret (Inl (Errorf ''failed to start RPC layer'' (Some e))))
         | None \<Rightarrow> ret (Inr (s\<lparr>sv_listening := True, sv_running := sv_running s @ [listen]\<rparr>)))"

section \<open>Every name is evaluated once\<close>

definition work_inv :: "(string \<Rightarrow> bool) \<Rightarrow> nat \<Rightarrow> string list \<Rightarrow> work \<Rightarrow> bool" where
  "work_inv skips workers names w \<longleftrightarrow>
     (\<exists>passed. mset passed + mset (wk_pending w) + mset (wk_queue w) + mset (wk_busy w) + mset (wk_done w) = mset names \<and>
        (\<forall>n \<in> set passed. skips n)) \<and>
     (\<forall>n \<in> set (wk_queue w) \<union> set (wk_busy w) \<union> set (wk_done w). \<not> skips n) \<and>
     wk_idle w + length (wk_busy w) = workers \<and> wk_cap w = length names \<and>
     wk_wg w = int (length names) - int (length (wk_done w))"

lemma work_inv_start: "work_inv skips (wk_idle (start_work config names)) names (start_work config names)"
  unfolding work_inv_def start_work_def by (auto intro: exI [of _ "[]"])

lemma work_inv_step:
  assumes "work_step skips w w'" and "work_inv skips k names w"
  shows "work_inv skips k names w'"
  using assms
proof (cases rule: work_step.cases)
  case (pass n ns)
  from assms(2) obtain passed where "mset passed + mset (wk_pending w) + mset (wk_queue w) + mset (wk_busy w) + mset (wk_done w) = mset names"
    "\<forall>n \<in> set passed. skips n" by (auto simp: work_inv_def)
  with pass assms(2) show ?thesis
    unfolding work_inv_def by (auto intro!: exI [of _ "n # passed"])
qed (auto simp: work_inv_def)

lemma working_inv: "working skips (start_work config names) w \<Longrightarrow> work_inv skips (wk_idle (start_work config names)) names w"
  by (induction rule: working.induct) (auto intro: work_inv_start work_inv_step)

text \<open>A measure that every step lowers: no run is infinite.\<close>

definition work_left :: "work \<Rightarrow> nat" where
  "work_left w = 3 * length (wk_pending w) + 2 * length (wk_queue w) + length (wk_busy w)"

lemma work_step_decreases: "work_step skips w w' \<Longrightarrow> work_left w' < work_left w"
  by (erule work_stepE) (auto simp: work_left_def)

lemma work_progress:
  assumes inv: "work_inv skips k names w" and k: "0 < k" and left: "0 < work_left w"
  shows "\<exists>w'. work_step skips w w'"
proof (cases "wk_busy w")
  case (Cons n bs)
  then show ?thesis using work_step.finish [of w "[]" n bs skips] by auto
next
  case Nil
  then have idle: "0 < wk_idle w" using inv k by (simp add: work_inv_def)
  show ?thesis
  proof (cases "wk_queue w")
    case (Cons n q)
    then show ?thesis using work_step.take_name [of w n q skips] idle by blast
  next
    case queue: Nil
    then obtain n ns where p: "wk_pending w = n # ns"
      using left \<open>wk_busy w = []\<close> by (cases "wk_pending w") (auto simp: work_left_def)
    obtain passed where "mset passed + mset (wk_pending w) + mset (wk_queue w) + mset (wk_busy w) + mset (wk_done w) = mset names"
      using inv by (auto simp: work_inv_def)
    from arg_cong [OF this, of size] have "length (wk_pending w) \<le> length names" by simp
    then have "0 < length names" using p by (metis length_greater_0_conv less_le_trans list.distinct(1))
    then have "length (wk_queue w) < wk_cap w" using queue inv by (simp add: work_inv_def)
    then show ?thesis using work_step.send [of w n ns skips] work_step.pass [of w n ns skips] p by blast
  qed
qed

section \<open>Properties\<close>

lemma tick_progress:
  assumes "0 < cf_ScalingConcurrency config" and "working (\<lambda>_. False) (start_work config names) w"
  shows "(\<exists>w'. work_step (\<lambda>_. False) w w') \<or> main_returns w" and "main_returns w \<Longrightarrow> mset (wk_done w) = mset names"
proof -
  let ?k = "wk_idle (start_work config names)"
  have inv: "work_inv (\<lambda>_. False) ?k names w" by (rule working_inv [OF assms(2)])
  then have m: "mset (wk_pending w) + mset (wk_queue w) + mset (wk_busy w) + mset (wk_done w) = mset names"
    and wg: "wk_wg w = int (length names) - int (length (wk_done w))" by (auto simp: work_inv_def)
  have len: "length (wk_pending w) + length (wk_queue w) + length (wk_busy w) + length (wk_done w) = length names"
    using arg_cong [OF m, of size] by simp
  show "(\<exists>w'. work_step (\<lambda>_. False) w w') \<or> main_returns w"
  proof (cases "work_left w = 0")
    case True
    with len wg show ?thesis by (simp add: work_left_def main_returns_def)
  next
    case False
    then have "names \<noteq> []" using len by (auto simp: work_left_def)
    then have "0 < ?k" using assms(1) by (simp add: start_work_def maxConcurrency_def)
    then show ?thesis using work_progress [OF inv] False by blast
  qed
  show "mset (wk_done w) = mset names" if "main_returns w"
    using that len wg m by (auto simp: main_returns_def)
qed



text \<open>
  Without scaling threads the first tick of a leader with worker pools never ends: the wait group
  is never down to zero.
\<close>

theorem no_threads_no_return:
  assumes "cf_ScalingConcurrency config \<le> 0" and "names \<noteq> []" and "working skips (start_work config names) w"
  shows "\<not> main_returns w \<and> wk_done w = []"
proof -
  have k: "wk_idle (start_work config names) = 0"
    using assms(1) by (simp add: start_work_def maxConcurrency_def)
  have "wk_busy w = [] \<and> wk_done w = []"
    using assms(3)
  proof (induction rule: working.induct)
    case init
    then show ?case by (simp add: start_work_def)
  next
    case (step w' w'')
    have "wk_idle w' = 0" using working_inv [OF step.hyps(1)] k by (simp add: work_inv_def)
    with step.hyps(2) step.IH show ?case by (auto elim!: work_stepE)
  qed
  moreover have "wk_wg w = int (length names) - int (length (wk_done w))"
    using working_inv [OF assms(3)] by (simp add: work_inv_def)
  ultimately show ?thesis using assms(2) by (simp add: main_returns_def)
qed

theorem no_threads_no_return_witness:
  "\<not> main_returns (start_work (demo_config\<lparr>cf_ScalingConcurrency := 0\<rparr>) [''a''])"
  using no_threads_no_return [OF _ _ working.init, of "demo_config\<lparr>cf_ScalingConcurrency := 0\<rparr>" "[''a'']"] by simp

section \<open>What a tick leaves behind\<close>

lemma run_pools_inv: "registry_inv r \<Longrightarrow> run_pools E cfg jobs ns r h = (Ret r', h') \<Longrightarrow> registry_inv r'"
proof (induction ns arbitrary: r h)
  case (Cons n ns)
  from Cons.prems(2) obtain r1 h1 where
    1: "scale_pool E cfg r jobs n h = (Ret r1, h1)" and 2: "run_pools E cfg jobs ns r1 h1 = (Ret r', h')"
    by (auto elim!: bnd_RetE)
  obtain p q where "map_of (nr_WorkerPools r) n = Some p" "pool_frame p q"
    "r1 = r\<lparr>nr_WorkerPools := AList.update n q (nr_WorkerPools r)\<rparr>"
    by (rule scale_pool_result [OF 1])
  then have "registry_inv r1" using Cons.prems(1) registry_inv_frame by blast
  from Cons.IH [OF this 2] show ?case .
qed (simp add: ret_app)

lemma protection_inv:
  assumes "registry_inv r" and "nodeProtectionCheck E N r h = (Ret (r', err), h')"
  shows "registry_inv r'"
proof -
  have l: "registry_inv (lock_writer r)" using assms(1) by (simp add: registry_inv_def lock_writer_def)
  have u: "registry_inv (r\<lparr>nr_WorkerPools := AList.update n (p\<lparr>wp_ProtectedNode := host\<rparr>) (nr_WorkerPools r)\<rparr>)"
    if "map_of (nr_WorkerPools r) n = Some p" for n p host
    using assms(1) that unfolding registry_inv_def pool_inv_def by (auto split: if_splits; fastforce)
  show ?thesis
    using assms l u
    by (auto simp: nodeProtectionCheck_def under_lock_def go_simps Let_def
        split: if_splits prod.splits outcome.splits sum.splits option.splits)
qed

text \<open>The calls of a cluster scaling tick: everything but the registration of a job.\<close>

fun infrastructure_only :: "event \<Rightarrow> bool" where
  "infrastructure_only (JobRegister _) = False"
| "infrastructure_only _ = True"

lemma infrastructure_spares: "spares n e \<Longrightarrow> infrastructure_only e" and infrastructure_reading: "reading e \<Longrightarrow> infrastructure_only e"
  by (cases e, auto)+

lemma scale_pool_obeys: "obeys infrastructure_only (scale_pool E cfg r jobs n) (\<lambda>_. True)"
  unfolding workerPoolScaling_def
  by (intro obeys_if obeys_intro obeys_option obeys_bnd_mono [OF scaler.evaluate_pool_obeys])
    (auto intro: infrastructure_spares)

lemma run_pools_obeys: "obeys infrastructure_only (run_pools E cfg jobs ns r) (\<lambda>_. True)"
  by (induction ns arbitrary: r) (auto intro!: obeys_ret obeys_bnd [OF scale_pool_obeys])

lemma protection_obeys: "obeys reading (nodeProtectionCheck E (nomadCluster E) r) (\<lambda>_. True)"
  unfolding nodeProtectionCheck_def under_lock_def Let_def
  by (intro obeys_if obeys_ret obeys_bnd_any [OF nomad.lookup] obeys_sum obeys_option obeys_intro) simp_all

lemma cluster_tick_obeys: "obeys infrastructure_only (clusterScalingTick E cfg c jobs r) (\<lambda>_. True)"
  unfolding clusterScalingTick_def asyncClusterScaling_def range_keys_def
  by (intro obeys_if obeys_ret obeys_bnd_mono [OF protection_obeys] obeys_prod obeys_bnd_any obeys_intro run_pools_obeys)
    (auto intro: infrastructure_reading)

lemma deployment_obeys: "obeys reading (IsJobInDeployment E j) (\<lambda>_. True)"
  and deployment_returns: "returns (IsJobInDeployment E j)"
  unfolding IsJobInDeployment_def latest_deployment_def by (auto intro!: obeys_bnd_any obeys_intro returns_intro)

lemma run_jobs_obeys: "policies_inv s \<Longrightarrow> obeys jobs_only (run_jobs E cfg k ns s) policies_inv"
proof (induction ns arbitrary: s)
  case (Cons n ns)
  show ?case
    unfolding run_jobs.simps
    by (intro obeys_bnd_mono [OF deployment_obeys] obeys_if Cons.IH Cons.prems
        obeys_bnd [OF jscale.job_scaling_obeys [OF Cons.prems]])
      (auto simp: jobs_only_quiet dest: reading_quiet)
qed (simp add: obeys_ret)

lemma run_jobs_returns: "cf_Notification cfg \<noteq> None \<Longrightarrow> returns (run_jobs E cfg k ns s)"
  by (induction ns arbitrary: s) (auto intro!: returns_intro deployment_returns jscale.job_scaling_returns)

lemma job_tick_returns: "cf_Notification cfg \<noteq> None \<Longrightarrow> returns (jobScalingTick E cfg c s)"
  unfolding jobScalingTick_def asyncJobScaling_def by (intro returns_intro range_keys_returns run_jobs_returns)

lemma job_tick_obeys: "policies_inv s \<Longrightarrow> obeys jobs_only (jobScalingTick E cfg c s) policies_inv"
  unfolding jobScalingTick_def asyncJobScaling_def range_keys_def
  by (intro obeys_if obeys_ret obeys_bnd_any obeys_intro run_jobs_obeys) simp_all

text \<open>
  C23: a tick of cluster scaling is silent on a replica that is not the leader; on the leader it keeps
  the invariant of the node registry, and neither it nor any of its evaluations registers a job.
\<close>

theorem cluster_tick_safe:
  assumes "registry_inv r"
  shows "(\<not> isLeader c \<longrightarrow> clusterScalingTick E cfg c jobs r h = (Ret r, h)) \<and>
    (\<forall>r' h'. clusterScalingTick E cfg c jobs r h = (Ret r', h') \<longrightarrow> registry_inv r') \<and>
    (\<forall>j. JobRegister j \<notin> set (calls (clusterScalingTick E cfg c jobs r) h))"
proof (intro conjI allI impI notI)
  assume "\<not> isLeader c"
  then show "clusterScalingTick E cfg c jobs r h = (Ret r, h)" by (simp add: clusterScalingTick_def ret_app)
next
  fix j
  assume "JobRegister j \<in> set (calls (clusterScalingTick E cfg c jobs r) h)"
  then show False using obeys_calls [OF cluster_tick_obeys] by fastforce
next
  fix r' h'
  assume run: "clusterScalingTick E cfg c jobs r h = (Ret r', h')"
  show "registry_inv r'"
  proof (cases "isLeader c \<and> 0 < length (nr_WorkerPools r)")
    case True
    with run obtain r1 e h1 h2 ns where "nodeProtectionCheck E (nomadCluster E) r h = (Ret (r1, e), h1)"
      and "run_pools E cfg jobs ns r1 h2 = (Ret r', h')"
      by (auto simp: clusterScalingTick_def asyncClusterScaling_def block_app elim!: bnd_RetE split: if_splits)
    then show ?thesis using protection_inv [OF assms] run_pools_inv by blast
  qed (use run assms in \<open>auto simp: clusterScalingTick_def ret_app\<close>)
qed

theorem cluster_tick_safe_witness:
  "isLeader (fresh\<lparr>lc_leader := True\<rparr>) \<and>
   (\<forall>j. JobRegister j \<notin> set (calls (clusterScalingTick scale_env demo_config (fresh\<lparr>lc_leader := True\<rparr>) no_jobs demo_registry) []))"
  using cluster_tick_safe [OF demo_registry_inv(1)] by (simp add: isLeader_def)



end
