(* ===== verification/Http_Api.thy ===== *)
theory Http_Api
  imports Server "HOL-Library.Char_ord" "HOL-Library.List_Lexorder"
begin

text \<open>
  The ways into the server: the in-memory RPC and the RPC listener, the handlers of
  \<open>command/agent/http.go\<close> and the client of \<open>api\<close>.  The transfer of a request is a parameter of the client.
  A compressed body is the constructor \<open>Gzipped\<close>.  The encoding of the answer in JSON is a
  parameter of both sides, since two libraries implement it.
\<close>

type_synonym leader_response = "string \<times> string"

section \<open>replicator/server.go: the in-memory RPC\<close>

text \<open>The error of a call comes back with its text.\<close>

definition RPC :: "env \<Rightarrow> server \<Rightarrow> string \<Rightarrow> leader_response result act" where
  "RPC E s rpc_method =
     (if rpc_method = ''Status.Leader'' then Status_Leader E (sv_candidate s)
      else ret (Inl (Errorf (''rpc: can't find method '' @ rpc_method) None)))"

section \<open>replicator/rpc.go\<close>

text \<open>
  The accept loop, over what each \<open>Accept\<close> returns and the server as it is at that moment; without
  a further result the loop waits.  The connections it hands over are its result.
\<close>

fun listen_loop :: "(server \<times> 'c result) list \<Rightarrow> 'c list \<Rightarrow> 'c list act" where
  "listen_loop [] handled = block"
| "listen_loop ((s, Inl err) # rest) handled = (if sv_shutdown s then ret handled else listen_loop rest handled)"
| "listen_loop ((s, Inr conn) # rest) handled = listen_loop rest (handled @ [conn])"

text \<open>A connection serves requests until the server shuts down or one cannot be read; the number
  of requests it has served is its result.\<close>

fun handleConn :: "(channel \<times> go_error option) list \<Rightarrow> nat \<Rightarrow> nat act" where
  "handleConn [] served = block"
| "handleConn ((shutdownChan, err) # rest) served =
     (case shutdownChan of
        Closed \<Rightarrow> ret served
      | Open \<Rightarrow> (case err of Some e \<Rightarrow> ret served | None \<Rightarrow> handleConn rest (Suc served)))"

section \<open>command/agent/http.go\<close>

datatype handler_error = CodedError int string | PlainError go_error

fun error_code :: "handler_error \<Rightarrow> int" where
  "error_code (CodedError c s) = c"
| "error_code (PlainError e) = 500"

datatype http_body = ErrorText handler_error | NotFound | Encoded string | Gzipped http_body

record http_response =
  hp_Code :: int
  hp_ContentType :: "string option"
  hp_Encoding :: "string option"
  hp_Body :: http_body

definition error_response :: "handler_error \<Rightarrow> http_response" where
  "error_response e = \<lparr>hp_Code = error_code e, hp_ContentType = None, hp_Encoding = None, hp_Body = ErrorText e\<rparr>"

definition StatusLeaderRequest :: "env \<Rightarrow> server \<Rightarrow> string \<Rightarrow> (handler_error + leader_response) act" where
  "StatusLeaderRequest E s verb =
     (if verb \<noteq> ''GET'' then ret (Inl (CodedError 405 ''Invalid method''))
      else
        bnd (RPC E s ''Status.Leader'') (\<lambda>r.
        ret (case r of Inl e \<Rightarrow> Inl (PlainError e) | Inr leader \<Rightarrow> Inr leader)))"

definition wrap ::
  "('b \<Rightarrow> string result) \<Rightarrow> (string \<Rightarrow> (handler_error + 'b) act) \<Rightarrow> string \<Rightarrow> http_response act" where
  "wrap encode handler verb =
     bnd (handler verb) (\<lambda>r.
     ret (case r of
            Inl e \<Rightarrow> error_response e
          | Inr obj \<Rightarrow>
              (case encode obj of
                 Inl e \<Rightarrow> error_response (PlainError e)
               | Inr buf \<Rightarrow> \<lparr>hp_Code = 200, hp_ContentType = Some ''application/json'', hp_Encoding = None, hp_Body = Encoded buf\<rparr>)))"

definition registerHandlers ::
  "env \<Rightarrow> server \<Rightarrow> (leader_response \<Rightarrow> string result) \<Rightarrow> string \<Rightarrow> string \<Rightarrow> http_response act" where
  "registerHandlers E s encode verb path =
     (if path = ''/v1/status/leader'' then wrap encode (StatusLeaderRequest E s) verb
      else ret \<lparr>hp_Code = 404, hp_ContentType = None, hp_Encoding = None, hp_Body = NotFound\<rparr>)"

definition Listener :: "(string \<Rightarrow> int \<Rightarrow> go_error option) \<Rightarrow> string \<Rightarrow> int \<Rightarrow> go_error option" where
  "Listener listen_on addr port =
     (if 0 > port \<or> port > 65535 then Some (Errorf ''listen: invalid port'' None) else listen_on addr port)"

text \<open>
  The handler that compresses for clients which accept it, with a minimal size of zero; and the
  start of the server, which returns the address it listens at.  \<open>resolve\<close> and \<open>listen_on\<close> are
  the system's resolver and sockets.
\<close>

definition gzip_handler :: "bool \<Rightarrow> http_response \<Rightarrow> http_response" where
  "gzip_handler accepts r = (if accepts then r\<lparr>hp_Encoding := Some ''gzip'', hp_Body := Gzipped (hp_Body r)\<rparr> else r)"

definition NewHTTPServer ::
  "(string \<Rightarrow> (string \<times> int) result) \<Rightarrow> (string \<Rightarrow> int \<Rightarrow> go_error option) \<Rightarrow> config \<Rightarrow> (string \<times> int) result" where
  "NewHTTPServer resolve listen_on config =
     (case resolve (cf_BindAddress config @ '':'' @ cf_HTTPPort config) of
        Inl e \<Rightarrow> Inl e
      | Inr (addr, port) \<Rightarrow>
          (case Listener listen_on addr port of
             Some e \<Rightarrow> Inl (Errorf ''failed to start HTTP listener'' (Some e))
           | None \<Rightarrow> Inr (addr, port)))"

section \<open>api/api.go\<close>

text \<open>An address is given by its parts, \<open>None\<close> where it does not parse; the client then
  dereferences \<open>nil\<close>.\<close>

record url =
  ul_Scheme :: string
  ul_Host :: string
  ul_Path :: string
  ul_Query :: "(string, string list) gomap"

text \<open>No caller gives a request a body; the query is its parameters, encoded in the order of their keys.\<close>

record request =
  rq_Method :: string
  rq_URL :: url
  rq_Params :: "(string, string list) gomap"

record http_request =
  ht_Method :: string
  ht_URL :: url

definition toHTTP :: "request \<Rightarrow> http_request" where
  "toHTTP r = \<lparr>ht_Method = rq_Method r, ht_URL = (rq_URL r)\<lparr>ul_Query := sort_key fst (rq_Params r)\<rparr>\<rparr>"

definition newRequest :: "url option \<Rightarrow> string \<Rightarrow> url result \<Rightarrow> request result act" where
  "newRequest address verb endpoint =
     (case endpoint of
        Inl e \<Rightarrow> ret (Inl e)
      | Inr u \<Rightarrow>
          (case address of
             None \<Rightarrow> panic
           | Some base \<Rightarrow>
               ret (Inr \<lparr>rq_Method = verb,
                         rq_URL = \<lparr>ul_Scheme = ul_Scheme base, ul_Host = ul_Host base, ul_Path = ul_Path u, ul_Query = []\<rparr>,
                         rq_Params = ul_Query u\<rparr>)))"

definition gunzip :: "http_body \<Rightarrow> http_body result" where
  "gunzip b = (case b of Gzipped b' \<Rightarrow> Inr b' | _ \<Rightarrow> Inl (Errorf ''gzip: invalid header'' None))"

definition doRequest :: "(http_request \<Rightarrow> http_response result act) \<Rightarrow> request \<Rightarrow> http_response result act" where
  "doRequest transport r =
     bnd (transport (toHTTP r)) (\<lambda>resp.
     ret (case resp of
            Inl e \<Rightarrow> Inl e
          | Inr p \<Rightarrow>
              (if hp_Encoding p = Some ''gzip'' then
                 (case gunzip (hp_Body p) of Inl e \<Rightarrow> Inl e | Inr b \<Rightarrow> Inr (p\<lparr>hp_Body := b\<rparr>))
               else Inr p)))"

definition requireOK :: "http_response result \<Rightarrow> http_response result" where
  "requireOK resp =
     (case resp of
        Inl e \<Rightarrow> Inl e
      | Inr r \<Rightarrow> (if hp_Code r \<noteq> 200 then Inl (Errorf ''Unexpected response code'' None) else Inr r))"

definition decodeBody :: "(string \<Rightarrow> 'b result) \<Rightarrow> http_response \<Rightarrow> 'b result" where
  "decodeBody decode r =
     (case hp_Body r of Encoded buf \<Rightarrow> decode buf | _ \<Rightarrow> Inl (Errorf ''invalid character'' None))"

definition query ::
  "(http_request \<Rightarrow> http_response result act) \<Rightarrow> (string \<Rightarrow> 'b result) \<Rightarrow> url option \<Rightarrow> url result \<Rightarrow> 'b result act" where
  "query transport decode address endpoint =
     bnd (newRequest address ''GET'' endpoint) (\<lambda>r.
     case r of
       Inl e \<Rightarrow> ret (Inl e)
     | Inr req \<Rightarrow>
         bnd (doRequest transport req) (\<lambda>resp.
         ret (case requireOK resp of Inl e \<Rightarrow> Inl e | Inr ok \<Rightarrow> decodeBody decode ok)))"

definition leader_endpoint :: url where
  "leader_endpoint = \<lparr>ul_Scheme = [], ul_Host = [], ul_Path = ''/v1/status/leader'', ul_Query = []\<rparr>"

definition api_Leader ::
  "(http_request \<Rightarrow> http_response result act) \<Rightarrow> (string \<Rightarrow> leader_response result) \<Rightarrow> url option \<Rightarrow> leader_response result act" where
  "api_Leader transport decode address = query transport decode address (Inr leader_endpoint)"

section \<open>Properties\<close>

text \<open>A transport that reaches the agent: every request is answered by its handlers, compressed or not.\<close>

definition reaches :: "env \<Rightarrow> server \<Rightarrow> (leader_response \<Rightarrow> string result) \<Rightarrow> bool \<Rightarrow> http_request \<Rightarrow> http_response result act" where
  "reaches E s encode accepts req =
     bnd (registerHandlers E s encode (ht_Method req) (ul_Path (ht_URL req))) (\<lambda>r. ret (Inr (gzip_handler accepts r)))"

lemma handlers_plain: "registerHandlers E s encode verb path h = (Ret p, h') \<Longrightarrow> hp_Encoding p = None"
  by (auto simp: registerHandlers_def wrap_def error_response_def ret_app split: if_splits sum.splits elim!: bnd_RetE)

abbreviation marked :: "bool \<Rightarrow> http_response \<Rightarrow> http_response" where
  "marked accepts p \<equiv> p\<lparr>hp_Encoding := if accepts then Some ''gzip'' else None\<rparr>"

lemma doRequest_reaches:
  "doRequest (reaches E s encode accepts) r =
     bnd (registerHandlers E s encode (rq_Method r) (ul_Path (rq_URL r))) (\<lambda>p. ret (Inr (marked accepts p)))"
proof (rule ext)
  fix h
  obtain o1 h' where o1: "registerHandlers E s encode (rq_Method r) (ul_Path (rq_URL r)) h = (o1, h')" by (meson surj_pair)
  show "doRequest (reaches E s encode accepts) r h =
     bnd (registerHandlers E s encode (rq_Method r) (ul_Path (rq_URL r))) (\<lambda>p. ret (Inr (marked accepts p))) h"
  proof (cases o1)
    case (Ret p)
    with o1 have "hp_Encoding p = None" using handlers_plain by blast
    then show ?thesis using o1 Ret
      by (cases p) (simp add: doRequest_def reaches_def toHTTP_def gzip_handler_def gunzip_def bnd_app ret_app)
  qed (use o1 in \<open>simp_all add: doRequest_def reaches_def toHTTP_def bnd_app\<close>)
qed


text \<open>
  Every answer of the interface carries the code that fits it: 405 for another verb, 404 for another
  path, 500 for an error of the endpoint, and 200 exactly with an encoded leader.
\<close>

theorem response_codes:
  assumes "registerHandlers E s encode verb path h = (Ret resp, h')"
  shows "(path \<noteq> ''/v1/status/leader'' \<longrightarrow> hp_Code resp = 404) \<and>
    (path = ''/v1/status/leader'' \<and> verb \<noteq> ''GET'' \<longrightarrow> hp_Code resp = 405 \<and> h' = h) \<and>
    (path = ''/v1/status/leader'' \<and> verb = ''GET'' \<longrightarrow>
       (hp_Code resp = 200 \<and> (\<exists>x buf h0. Status_Leader E (sv_candidate s) h = (Ret (Inr x), h0) \<and> encode x = Inr buf \<and> hp_Body resp = Encoded buf)
        \<or> hp_Code resp = 500))"
  using assms
  by (auto simp: registerHandlers_def wrap_def StatusLeaderRequest_def RPC_def error_response_def ret_app
      split: if_splits sum.splits elim!: bnd_RetE)

definition demo_encode :: "leader_response \<Rightarrow> string result" where
  "demo_encode x = Inr (replicate (length (fst x)) CHR ''a'' @ ''b'' @ fst x @ snd x)"

definition demo_decode_response :: "string \<Rightarrow> leader_response result" where
  "demo_decode_response buf =
     (let n = length (takeWhile (\<lambda>c. c = CHR ''a'') buf); rest = drop (n + 1) buf in Inr (take n rest, drop n rest))"

lemma demo_codec: "\<exists>buf. demo_encode x = Inr buf \<and> demo_decode_response buf = Inr x"
proof -
  have "takeWhile (\<lambda>c. c = CHR ''a'') (replicate n CHR ''a'' @ ''b'' @ ys) = replicate n CHR ''a''" for n ys
    by (induction n) simp_all
  then show ?thesis by (simp add: demo_encode_def demo_decode_response_def Let_def)
qed

definition leading_server :: server where
  "leading_server =
     \<lparr>sv_candidate = fresh\<lparr>lc_leader := True, lc_session := ''s1''\<rparr>, sv_config = demo_config, sv_running = [],
      sv_listening = True, sv_shutdown = False, sv_shutdownChan = Open\<rparr>"


section \<open>The accept loop\<close>

text \<open>The servers that a start and any number of shutdowns lead to.\<close>

inductive server_life :: "env \<Rightarrow> server \<Rightarrow> bool" for E where
  started: "server_life E s" if "NewServer E conf rpc h = (Ret (Inr s), h')"
| stopped: "server_life E s'" if "server_life E s" and "Shutdown E (s\<lparr>sv_candidate := candidate\<rparr>) h = (Ret s', h')"

lemma server_life_flag: "server_life E s \<Longrightarrow> \<not> sv_shutdown s"
proof (induction rule: server_life.induct)
  case (started conf rpc h s h')
  then show ?case by (auto simp: NewServer_def Let_def ret_app split: option.splits elim!: bnd_RetE)
next
  case (stopped s candidate h s' h')
  then show ?case by (auto simp: Shutdown_def ret_app panic_app split: channel.splits elim!: bnd_RetE)
qed

text \<open>
  The accept loop never ends: nothing ever sets the flag it tests, so that after a shutdown it goes
  on with the errors of the closed listener.
\<close>

theorem listener_never_returns:
  assumes "\<forall>(s, r) \<in> set accepts. server_life E s"
  shows "listen_loop accepts handled h = (Block, h)"
  using assms
proof (induction accepts handled rule: listen_loop.induct)
  case (2 s err rest handled)
  then show ?case using server_life_flag [of E s] by simp
qed (simp_all add: block_app)

end
