(* ===== verification/Agent.thy ===== *)
theory Agent
  imports Config Http_Api
begin

text \<open>
  The agent (\<open>command/agent/agent.go\<close>): what it sets up from its configuration, and its life from
  the command line through the signals it receives.  The libraries it calls, the sockets and what
  the running server has become by the time of a signal are the parameters of \<open>agent_env\<close>.  A call
  of \<open>logging.Fatal\<close> ends the process with the exit code 1, like the returns beside it.
\<close>

section \<open>notifier\<close>

definition NewPagerDutyProvider :: "(string, string) gomap \<Rightarrow> notifier result" where
  "NewPagerDutyProvider c = Inr \<lparr>no_Name = ''pagerduty'', no_Config = c\<rparr>"

definition NewOpsGenieProvider :: "(string, string) gomap \<Rightarrow> notifier result" where
  "NewOpsGenieProvider c = Inr \<lparr>no_Name = ''opsgenie'', no_Config = c\<rparr>"

definition NewProvider :: "string \<Rightarrow> (string, string) gomap \<Rightarrow> notifier result" where
  "NewProvider t c =
     (if t = ''pagerduty'' then NewPagerDutyProvider c
      else if t = ''opsgenie'' then NewOpsGenieProvider c
      else Inl (Errorf (''the notifications provider '' @ t @ '' is not supported'') None))"

section \<open>The clients\<close>

record consul_settings =
  cs_Scheme :: "string option"
  cs_Address :: string
  cs_Token :: string

record nomad_settings =
  nm_Address :: string
  nm_SecretID :: string
  nm_TLSServerName :: string

record 'v agent_env =
  ae_files :: "log \<Rightarrow> files"
  ae_hcl :: "'v hcl_lib"
  ae_statsd :: "log \<Rightarrow> string \<Rightarrow> go_error option"
  ae_nomad :: "log \<Rightarrow> nomad_settings \<Rightarrow> go_error option"
  ae_consul :: "log \<Rightarrow> consul_settings \<Rightarrow> go_error option"
  ae_rpc :: "log \<Rightarrow> config \<Rightarrow> net_addr result"
  ae_resolve :: "log \<Rightarrow> string \<Rightarrow> (string \<times> int) result"
  ae_listen :: "log \<Rightarrow> string \<Rightarrow> int \<Rightarrow> go_error option"
  ae_candidate :: "log \<Rightarrow> leader_candidate"

definition NewConsulClient :: "'v agent_env \<Rightarrow> string \<Rightarrow> string \<Rightarrow> go_error option act" where
  "NewConsulClient A addr token =
     (let config = (case Split ''://'' addr of
          scheme # address # _ \<Rightarrow> \<lparr>cs_Scheme = Some scheme, cs_Address = address, cs_Token = token\<rparr>
        | [address] \<Rightarrow> \<lparr>cs_Scheme = None, cs_Address = address, cs_Token = token\<rparr>
        | [] \<Rightarrow> \<lparr>cs_Scheme = None, cs_Address = [], cs_Token = token\<rparr>)
      in ask (\<lambda>h. ae_consul A h config))"

definition NewNomadClient :: "'v agent_env \<Rightarrow> string \<Rightarrow> string \<Rightarrow> string \<Rightarrow> go_error option act" where
  "NewNomadClient A addr token tls_server_name =
     ask (\<lambda>h. ae_nomad A h \<lparr>nm_Address = addr, nm_SecretID = token, nm_TLSServerName = tls_server_name\<rparr>)"

definition InitializeClients :: "'v agent_env \<Rightarrow> config \<Rightarrow> go_error option act" where
  "InitializeClients A config =
     bnd (NewNomadClient A (cf_Nomad config) (cf_NomadToken config) (cf_NomadTLSServerName config)) (\<lambda>err.
     case err of
       Some e \<Rightarrow> ret (Some e)
     | None \<Rightarrow> NewConsulClient A (cf_Consul config) (cf_ConsulToken config))"

section \<open>command/agent/agent.go\<close>

text \<open>The sinks of the metrics; without a statsd server they stay in memory.\<close>

datatype metrics_sink = InmemSink | StatsdSink string

definition setupTelemetry :: "'v agent_env \<Rightarrow> telemetry option \<Rightarrow> metrics_sink list result act" where
  "setupTelemetry A config =
     (let telemetry = (case config of None \<Rightarrow> empty_telemetry | Some t \<Rightarrow> t) in
      if tl_StatsdAddress telemetry \<noteq> [] then
        bnd (ask (\<lambda>h. ae_statsd A h (tl_StatsdAddress telemetry))) (\<lambda>err.
        case err of
          Some e \<Rightarrow> ret (Inl e)
        | None \<Rightarrow> ret (Inr [StatsdSink (tl_StatsdAddress telemetry), InmemSink]))
      else ret (Inr [InmemSink]))"

definition add_notifier :: "string \<Rightarrow> (string, string) gomap \<Rightarrow> notification \<Rightarrow> notification result" where
  "add_notifier t c config =
     (case NewProvider t c of
        Inl e \<Rightarrow> Inl e
      | Inr n \<Rightarrow> Inr (config\<lparr>nt_Notifiers := nt_Notifiers config @ [n]\<rparr>))"

definition setupNotifier :: "notification \<Rightarrow> notification result" where
  "setupNotifier config =
     (let pd = (if nt_PagerDutyServiceKey config \<noteq> []
                then add_notifier ''pagerduty'' [(''PagerDutyServiceKey'', nt_PagerDutyServiceKey config)] config
                else Inr config)
      in case pd of
           Inl e \<Rightarrow> Inl e
         | Inr config' \<Rightarrow>
             (if nt_OpsGenieAPIKey config' \<noteq> []
              then add_notifier ''opsgenie'' [(''OpsGenieAPIKey'', nt_OpsGenieAPIKey config')] config'
              else Inr config'))"

definition log_levels :: "string list" where
  "log_levels = [''panic'', ''fatal'', ''error'', ''warn'', ''warning'', ''info'', ''debug'']"

definition listen_address :: "config \<Rightarrow> config" where
  "listen_address config =
     (if cf_BindAddress config \<noteq> DefaultBindAddr \<or> cf_RPCPort config \<noteq> DefaultRPCPort
      then config\<lparr>cf_RPCAddr := Some (cf_BindAddress config, cf_RPCPort config)\<rparr> else config)"

text \<open>
  \<open>initialzeAgent\<close> completes the configuration in place.  The address of the RPC listener is kept
  as the text of the bind address.  A \<open>nil\<close> configuration or notification block panics.
\<close>

definition initialzeAgent :: "'v agent_env \<Rightarrow> config option \<Rightarrow> config result act" where
  "initialzeAgent A conf =
     (case conf of
        None \<Rightarrow> panic
      | Some config0 \<Rightarrow>
          (let config = listen_address config0 in
              bnd (setupTelemetry A (cf_Telemetry config)) (\<lambda>sinks.
              case sinks of
                Inl e \<Rightarrow> ret (Inl e)
              | Inr _ \<Rightarrow>
                  (case cf_Notification config of
                     None \<Rightarrow> panic
                   | Some n \<Rightarrow>
                       (case setupNotifier n of
                          Inl e \<Rightarrow> ret (Inl e)
                        | Inr n' \<Rightarrow>
                            (if ToLower (cf_LogLevel config) \<notin> set log_levels
                             then ret (Inl (Errorf ''not a valid level'' None))
                             else
                               bnd (InitializeClients A config) (\<lambda>err.
                               ret (case err of
                                      Some e \<Rightarrow> Inl e
                                    | None \<Rightarrow> Inr (config\<lparr>cf_Notification := Some n'\<rparr>)))))))))"

text \<open>
  The variable \<open>server\<close> of the signal loop is the first server throughout: the one a reload
  starts is only stored in the command.  \<open>None\<close> is the return with exit code 1.
\<close>

definition start_server :: "env \<Rightarrow> 'v agent_env \<Rightarrow> config \<Rightarrow> server option act" where
  "start_server E A conf =
     bnd (ask (\<lambda>h. ae_rpc A h conf)) (\<lambda>rpc.
     bnd (NewServer E conf (setupRPC rpc)) (\<lambda>r.
     case r of
       Inl e \<Rightarrow> ret None
     | Inr server \<Rightarrow>
         bnd (ask (\<lambda>h. NewHTTPServer (ae_resolve A h) (ae_listen A h) conf)) (\<lambda>http.
         case http of Inl e \<Rightarrow> ret None | Inr addr \<Rightarrow> ret (Some server))))"

definition stop_server :: "env \<Rightarrow> 'v agent_env \<Rightarrow> server \<Rightarrow> server act" where
  "stop_server E A server =
     bnd (ask (ae_candidate A)) (\<lambda>candidate. Shutdown E (server\<lparr>sv_candidate := candidate\<rparr>))"

definition load_conf :: "'v agent_env \<Rightarrow> string list \<Rightarrow> config option act" where
  "load_conf A args = bnd (ask (ae_files A)) (\<lambda>F. parseFlags F (ae_hcl A) args)"

definition reload :: "env \<Rightarrow> 'v agent_env \<Rightarrow> string list \<Rightarrow> config \<Rightarrow> server \<Rightarrow> (server \<times> server) option act" where
  "reload E A args conf server =
     bnd (stop_server E A server) (\<lambda>stopped.
     bnd (load_conf A args) (\<lambda>config.
     bnd (initialzeAgent A config) (\<lambda>r.
     case r of
       Inl e \<Rightarrow> ret None
     | Inr _ \<Rightarrow>
         bnd (start_server E A conf) (\<lambda>started. ret (map_option (\<lambda>new. (stopped, new)) started)))))"

datatype os_signal = SIGHUP | SIGINT | SIGTERM | SIGQUIT

text \<open>Without a further signal the agent waits for ever.\<close>

fun signal_loop :: "env \<Rightarrow> 'v agent_env \<Rightarrow> string list \<Rightarrow> config \<Rightarrow> server \<Rightarrow> os_signal list \<Rightarrow> int act" where
  "signal_loop E A args conf server [] = block"
| "signal_loop E A args conf server (s # sigs) =
     (case s of
        SIGHUP \<Rightarrow>
          bnd (reload E A args conf server) (\<lambda>r.
          case r of None \<Rightarrow> ret 1 | Some (server', new) \<Rightarrow> signal_loop E A args conf server' sigs)
      | _ \<Rightarrow> bnd (stop_server E A server) (\<lambda>_. ret 1))"

definition agent_Run :: "env \<Rightarrow> 'v agent_env \<Rightarrow> string list \<Rightarrow> os_signal list \<Rightarrow> int act" where
  "agent_Run E A args sigs =
     bnd (load_conf A args) (\<lambda>conf.
     case conf of
       None \<Rightarrow> ret 1
     | Some c \<Rightarrow>
         bnd (initialzeAgent A (Some c)) (\<lambda>r.
         case r of
           Inl e \<Rightarrow> ret 1
         | Inr conf' \<Rightarrow>
             bnd (start_server E A conf') (\<lambda>started.
             case started of None \<Rightarrow> ret 1 | Some server \<Rightarrow> signal_loop E A args conf' server sigs)))"

section \<open>Notification backends\<close>

definition backends :: "notification \<Rightarrow> notifier list" where
  "backends n =
     (if nt_PagerDutyServiceKey n \<noteq> []
      then [\<lparr>no_Name = ''pagerduty'', no_Config = [(''PagerDutyServiceKey'', nt_PagerDutyServiceKey n)]\<rparr>] else []) @
     (if nt_OpsGenieAPIKey n \<noteq> []
      then [\<lparr>no_Name = ''opsgenie'', no_Config = [(''OpsGenieAPIKey'', nt_OpsGenieAPIKey n)]\<rparr>] else [])"

lemma setupNotifier_backends: "setupNotifier n = Inr (n\<lparr>nt_Notifiers := nt_Notifiers n @ backends n\<rparr>)"
  by (simp add: setupNotifier_def add_notifier_def NewProvider_def NewPagerDutyProvider_def NewOpsGenieProvider_def backends_def Let_def)

lemma listen_address_fields: "cf_Notification (listen_address c) = cf_Notification c" "cf_Telemetry (listen_address c) = cf_Telemetry c"
  by (simp_all add: listen_address_def)

lemma initialzeAgent_result:
  assumes "initialzeAgent A (Some c) h = (Ret (Inr c'), h')"
  obtains n where "cf_Notification c = Some n"
    and "c' = (listen_address c)\<lparr>cf_Notification := Some (n\<lparr>nt_Notifiers := nt_Notifiers n @ backends n\<rparr>)\<rparr>"
proof (cases "cf_Notification c")
  case None
  with assms show thesis
    by (simp add: initialzeAgent_def listen_address_fields Let_def bnd_def panic_app ret_app split: prod.splits outcome.splits sum.splits)
next
  case (Some n)
  have "c' = (listen_address c)\<lparr>cf_Notification := Some (n\<lparr>nt_Notifiers := nt_Notifiers n @ backends n\<rparr>)\<rparr>"
    using assms
    by (simp add: initialzeAgent_def Some listen_address_fields Let_def setupNotifier_backends bnd_def panic_app ret_app
        split: prod.splits outcome.splits sum.splits if_splits option.splits)
  with Some show thesis by (rule that)
qed

section \<open>Properties\<close>

lemma load_conf_result:
  assumes "load_conf A args h = (Ret (Some c), h')"
  shows "usable c" and "no_backends c" and "h' = h"
proof -
  have run: "parseFlags (ae_files A h) (ae_hcl A) args h = (Ret (Some c), h')"
    using assms by (simp add: load_conf_def go_simps)
  show "usable c" "no_backends c"
    using obeys_run(3) [OF parseFlags_usable run] obeys_run(3) [OF parseFlags_no_backends run] by simp_all
  show "h' = h"
    using obeys_run(1,2) [OF parseFlags_obeys [of "\<lambda>_. True" "\<lambda>_. False"] run]
    by (metis append_Nil2 list.set_intros(1) neq_Nil_conv)
qed

lemma configured_backends:
  assumes "load_conf A args h = (Ret (Some c), h1)" and "initialzeAgent A (Some c) h1 = (Ret (Inr c'), h2)"
  shows "\<exists>n n'. cf_Notification c = Some n \<and> cf_Notification c' = Some n' \<and> nt_Notifiers n' = backends n"
  using load_conf_result(2) [OF assms(1)] initialzeAgent_result [OF assms(2)] by (fastforce simp: no_backends_def)

text \<open>
  The backends that the agent notifies are exactly those it has a key for, each once, with that
  key, whatever the sources of the configuration were.
\<close>

theorem agent_backends:
  assumes "load_conf A args h = (Ret (Some c), h1)" and "initialzeAgent A (Some c) h1 = (Ret (Inr c'), h2)"
  shows "\<exists>n n'. cf_Notification c = Some n \<and> cf_Notification c' = Some n' \<and> nt_Notifiers n' = backends n"
  by (rule configured_backends [OF assms])

definition demo_agent :: "string agent_env" where
  "demo_agent =
     \<lparr>ae_files = (\<lambda>_. demo_files), ae_hcl = demo_hcl, ae_statsd = (\<lambda>_ _. None), ae_nomad = (\<lambda>_ _. None),
      ae_consul = (\<lambda>_ _. None), ae_rpc = (\<lambda>_ _. Inr (TCPAddr False)), ae_resolve = (\<lambda>_ _. Inr (''127.0.0.1'', 1313)), ae_listen = (\<lambda>_ _ _. None), ae_candidate = (\<lambda>_. fresh)\<rparr>"

abbreviation "demo_args \<equiv> [''-pagerduty-service-key'', ''k'']"

definition demo_conf :: config where
  "demo_conf = DefaultConfig\<lparr>cf_Notification := Some (empty_notification\<lparr>nt_PagerDutyServiceKey := ''k''\<rparr>)\<rparr>"

definition demo_conf_ready :: config where
  "demo_conf_ready = DefaultConfig\<lparr>cf_Notification := Some (empty_notification\<lparr>nt_PagerDutyServiceKey := ''k'',
     nt_Notifiers := [\<lparr>no_Name = ''pagerduty'', no_Config = [(''PagerDutyServiceKey'', ''k'')]\<rparr>]\<rparr>)\<rparr>"

lemma demo_load_conf: "load_conf demo_agent demo_args h = (Ret (Some demo_conf), h)"
  by (simp add: load_conf_def demo_agent_def demo_config_defs go_simps Merge_def set_str_def set_pos_def set_ptr_def
      empty_config_def DefaultConfig_def Telemetry_Merge_def Notification_Merge_def empty_telemetry_def
      empty_notification_def demo_conf_def)

lemma demo_level: "ToLower ''INFO'' \<in> set log_levels"
  by code_simp

lemma demo_initialze: "initialzeAgent demo_agent (Some demo_conf) h = (Ret (Inr demo_conf_ready), h)"
  by (simp add: initialzeAgent_def listen_address_def demo_conf_def demo_conf_ready_def setupNotifier_backends backends_def
      setupTelemetry_def InitializeClients_def NewNomadClient_def NewConsulClient_def demo_agent_def go_simps
      DefaultConfig_def empty_config_def empty_telemetry_def empty_notification_def Let_def demo_level)

theorem agent_backends_witness:
  "\<exists>n'. cf_Notification demo_conf_ready = Some n' \<and> map no_Name (nt_Notifiers n') = [''pagerduty'']"
  using agent_backends [OF demo_load_conf demo_initialze] by (auto simp: demo_conf_def empty_notification_def backends_def)

text \<open>What a start gives, and what a second shutdown does.\<close>

lemma NewServer_result:
  assumes "NewServer E conf rpc h = (Ret (Inr s), h')"
  shows "sv_config s = conf" and "h' = h" and "sv_shutdownChan s = Open"
    and "set (sv_running s) \<subseteq> {leaderTicker, JobWatcher, NodeWatcher, clusterScalingTicker, jobScalingTicker, listen}"
  using assms by (auto simp: NewServer_def Let_def ret_app split: option.splits if_splits elim!: bnd_RetE)

lemma endCampaign_outcome: "\<exists>h'. endCampaign E c h = (Panic, h') \<or> (\<exists>c'. endCampaign E c h = (Ret c', h'))"
  by (simp add: endCampaign_def releaseSession_def ResignLeadership_def go_simps split: option.split channel.split)

lemma stop_twice: "sv_shutdownChan s = Closed \<Longrightarrow> \<exists>h'. stop_server E A s h = (Panic, h')"
  using endCampaign_outcome [of E "ae_candidate A h" h]
  by (auto simp: stop_server_def Shutdown_def go_simps)

text \<open>
  C38: a reload does not take: after a SIGHUP that the agent survived the new server runs on the old
  configuration, and the next signal, be it a second SIGHUP or a request to stop, crashes the
  agent, since it shuts the first server down again.
\<close>

theorem reload_breaks_agent:
  assumes "reload E A args conf server h = (Ret (Some (old, new)), h')"
  shows "sv_config new = conf \<and> (\<exists>h''. signal_loop E A args conf old (sig # sigs) h' = (Panic, h''))"
proof -
  have "sv_shutdownChan old = Closed" and new: "\<exists>rpc h1 h2. NewServer E conf rpc h1 = (Ret (Inr new), h2)"
    using assms unfolding reload_def stop_server_def Shutdown_def start_server_def
    by (auto simp: go_simps split: sum.splits option.splits channel.splits prod.splits outcome.splits)
  then obtain h'' where stop: "stop_server E A old h' = (Panic, h'')" using stop_twice by blast
  then have "signal_loop E A args conf old (sig # sigs) h' = (Panic, h'')"
    by (cases sig) (simp_all add: reload_def bnd_app)
  moreover have "sv_config new = conf"
    using new NewServer_result(1) by blast
  ultimately show ?thesis by blast
qed

definition demo_server :: server where
  "demo_server =
     \<lparr>sv_candidate = fresh, sv_config = demo_conf_ready, sv_running = [], sv_listening = True, sv_shutdown = False, sv_shutdownChan = Open\<rparr>"

lemma demo_stop:
  "stop_server ref_env demo_agent demo_server h = (Ret (demo_server\<lparr>sv_listening := False, sv_shutdownChan := Closed\<rparr>), h)"
  by (simp add: stop_server_def Shutdown_def endCampaign_def releaseSession_def go_simps demo_agent_def demo_server_def
      newLeaderCandidate_def)

lemma demo_start: "\<exists>s. start_server ref_env demo_agent demo_conf_ready h = (Ret (Some s), h)"
  by (simp add: start_server_def NewServer_def setupRPC_def NewHTTPServer_def Listener_def go_simps demo_agent_def Let_def)

theorem reload_breaks_agent_witness:
  "\<exists>old new h' h''. reload ref_env demo_agent demo_args demo_conf_ready demo_server [] = (Ret (Some (old, new)), h') \<and>
     signal_loop ref_env demo_agent demo_args demo_conf_ready old [SIGTERM] h' = (Panic, h'')"
proof -
  obtain old new h' where r: "reload ref_env demo_agent demo_args demo_conf_ready demo_server [] = (Ret (Some (old, new)), h')"
    using demo_start [of "[]"] by (auto simp: reload_def bnd_app demo_stop demo_load_conf demo_initialze ret_app)
  from reload_breaks_agent [OF r] r show ?thesis by blast
qed

text \<open>
  A reload with a configuration that does not parse crashes the agent too: the missing
  configuration is not noticed, since the error that is tested is an older one.
\<close>

theorem reload_bad_config_panics:
  assumes "stop_server E A server h = (Ret stopped, h1)" and "load_conf A args h1 = (Ret None, h2)"
  shows "signal_loop E A args conf server (SIGHUP # sigs) h = (Panic, h2)"
  using assms by (simp add: reload_def initialzeAgent_def bnd_app panic_app)

theorem reload_bad_config_panics_witness:
  "signal_loop ref_env demo_agent [''-no-such-flag''] demo_conf_ready demo_server [SIGHUP] [] = (Panic, [])"
proof -
  have "load_conf demo_agent [''-no-such-flag''] [] = (Ret None, [])"
    by (simp add: load_conf_def parseFlags_def go_simps Let_def argument_of_def named_flag_def agentFlags_def)
  from reload_bad_config_panics [OF demo_stop this] show ?thesis .
qed

section \<open>From the configuration to the running server\<close>

lemma usable_initialze:
  assumes "usable c" and "initialzeAgent A (Some c) h = (Ret (Inr c'), h')"
  shows "usable c'" and "cf_ClusterScalingInterval c' = cf_ClusterScalingInterval c"
    and "cf_JobScalingInterval c' = cf_JobScalingInterval c"
proof -
  obtain n where "cf_Notification c = Some n"
    and c': "c' = (listen_address c)\<lparr>cf_Notification := Some (n\<lparr>nt_Notifiers := nt_Notifiers n @ backends n\<rparr>)\<rparr>"
    by (rule initialzeAgent_result [OF assms(2)])
  show "usable c'" using assms(1) by (simp add: c' usable_def listen_address_def)
  show "cf_ClusterScalingInterval c' = cf_ClusterScalingInterval c" "cf_JobScalingInterval c' = cf_JobScalingInterval c"
    by (simp_all add: c' listen_address_def)
qed

lemma ticker_starts: "0 < n \<Longrightarrow> n \<le> 9223372036 \<Longrightarrow> NewTicker (duration_seconds n) = ret ()"
  by (simp add: NewTicker_def duration_seconds_def Second_def i64_id)



end
