(* ===== verification/Notifier.thy ===== *)
theory Notifier
  imports Agent
begin

text \<open>
  The notification backends (\<open>notifier/pagerduty.go\<close>, \<open>notifier/opsgenie.go\<close>): the request each of
  them builds from a failure message.  The event \<open>Notify\<close> of the environment is the call of a backend;
  whether its service accepts the request has no effect on the program.
\<close>

section \<open>The requests\<close>

text \<open>A key that is missing from a Go map reads as the empty string.\<close>

definition map_get :: "(string, string) gomap \<Rightarrow> string \<Rightarrow> string" where
  "map_get m k = (case map_of m k of None \<Rightarrow> [] | Some v \<Rightarrow> v)"

definition description :: "failure_message \<Rightarrow> string" where
  "description message =
     fm_AlertUID message @ '' '' @ fm_ClusterIdentifier message @ ''_'' @ fm_Reason message @ ''_'' @ fm_ResourceID message"

record pagerduty_event =
  pe_ServiceKey :: string
  pe_Type :: string
  pe_Description :: string
  pe_Details :: failure_message

record opsgenie_alert =
  oa_APIKey :: string
  oa_Message :: string
  oa_Alias :: string
  oa_Description :: string
  oa_Details :: "(string, string) gomap"
  oa_Entity :: string
  oa_Source :: string

definition PagerDuty_SendNotification :: "(string, string) gomap \<Rightarrow> failure_message \<Rightarrow> pagerduty_event" where
  "PagerDuty_SendNotification config message =
     \<lparr>pe_ServiceKey = map_get config ''PagerDutyServiceKey'', pe_Type = ''trigger'', pe_Description = description message,
      pe_Details = message\<rparr>"

definition OpsGenie_SendNotification :: "(string, string) gomap \<Rightarrow> failure_message \<Rightarrow> opsgenie_alert" where
  "OpsGenie_SendNotification config message =
     \<lparr>oa_APIKey = map_get config ''OpsGenieAPIKey'', oa_Message = ''replicator notification'', oa_Alias = fm_AlertUID message,
      oa_Description = description message,
      oa_Details = [(''alert_uid'', fm_AlertUID message), (''cluster_identifier'', fm_ClusterIdentifier message),
        (''reason'', fm_Reason message), (''resource_id'', fm_ResourceID message)],
      oa_Entity = fm_ResourceID message, oa_Source = ''replicator''\<rparr>"

datatype alert = PagerDuty pagerduty_event | OpsGenie opsgenie_alert

text \<open>The method of the interface: the two providers are told apart by their names.\<close>

definition SendNotification :: "notifier \<Rightarrow> failure_message \<Rightarrow> alert option" where
  "SendNotification n message =
     (if no_Name n = ''pagerduty'' then Some (PagerDuty (PagerDuty_SendNotification (no_Config n) message))
      else if no_Name n = ''opsgenie'' then Some (OpsGenie (OpsGenie_SendNotification (no_Config n) message))
      else None)"

section \<open>The alerts of a run\<close>

fun alert_of :: "event \<Rightarrow> alert option" where
  "alert_of (Notify n m) = SendNotification n m"
| "alert_of _ = None"

definition alerts :: "log \<Rightarrow> alert list" where
  "alerts h = List.map_filter alert_of h"

lemma alerts_simps [simp]:
  "alerts [] = []" "alerts (e # h) = (case alert_of e of None \<Rightarrow> alerts h | Some a \<Rightarrow> a # alerts h)"
  "alerts (g @ h) = alerts g @ alerts h"
  by (simp_all add: alerts_def map_filter_def split: option.split)

lemma alerts_filter: "alerts (filter is_notify h) = alerts h"
proof (induction h)
  case (Cons e h)
  then show ?case by (cases e) (simp_all split: option.split)
qed simp

section \<open>Properties\<close>

text \<open>The alerts that a notification block asks for, for one failure message.\<close>

definition due_alerts :: "notification \<Rightarrow> failure_message \<Rightarrow> alert list" where
  "due_alerts n m =
     (if nt_PagerDutyServiceKey n \<noteq> []
      then [PagerDuty \<lparr>pe_ServiceKey = nt_PagerDutyServiceKey n, pe_Type = ''trigger'', pe_Description = description m, pe_Details = m\<rparr>]
      else []) @
     (if nt_OpsGenieAPIKey n \<noteq> []
      then [OpsGenie ((OpsGenie_SendNotification [] m)\<lparr>oa_APIKey := nt_OpsGenieAPIKey n\<rparr>)]
      else [])"

lemma backends_alerts: "alerts (map (\<lambda>k. Notify k m) (backends n)) = due_alerts n m"
  by (simp add: backends_def due_alerts_def SendNotification_def PagerDuty_SendNotification_def OpsGenie_SendNotification_def
      map_get_def)

lemma trip_notifies:
  assumes "cf_Notification cfg = Some n" and "\<not> st_FailsafeMode s"
  shows "alerts (snd (SetFailsafeMode E (consulClient E) s cfg True m h)) = alerts h @
    alerts (map (\<lambda>k. Notify k (m\<lparr>fm_Reason := failsafe_reason m, fm_StatePath := st_StatePath s\<rparr>)) (nt_Notifiers n))"
proof -
  let ?ns = "map (\<lambda>k. Notify k (m\<lparr>fm_Reason := failsafe_reason m, fm_StatePath := st_StatePath s\<rparr>)) (nt_Notifiers n)"
  have "filter is_notify (snd (SetFailsafeMode E (consulClient E) s cfg True m h)) = filter is_notify h @ ?ns"
    using set_failsafe_notifies [OF assms(1)] assms(2) by simp
  from arg_cong [OF this, of alerts] show ?thesis by (simp add: alerts_filter)
qed

text \<open>
  C28: when the breaker of a worker pool trips, every backend the operator has configured a key for
  raises one alert with that key, naming the pool, its alert id and the reason, and no other
  alert is raised; this holds from the command line and the configuration files through to the
  request.  The configured cluster identifier is in none of them.
\<close>

theorem pool_failure_alerts:
  assumes "load_conf A args h = (Ret (Some c), h1)" and "initialzeAgent A (Some c) h1 = (Ret (Inr c'), h2)"
    and "\<not> st_FailsafeMode s" and "cf_Notification c = Some n"
  shows "\<exists>m. alerts (snd (SetFailsafeMode E (consulClient E) s c' True (pool_message p) h3)) = alerts h3 @ due_alerts n m \<and>
    description m = wp_NotificationUID p @ '' _cluster_failsafe_mode_'' @ wp_Name p \<and> fm_ClusterIdentifier m = []"
proof -
  let ?m = "(pool_message p)\<lparr>fm_Reason := failsafe_reason (pool_message p), fm_StatePath := st_StatePath s\<rparr>"
  obtain n' where n': "cf_Notification c' = Some n'" "nt_Notifiers n' = backends n"
    using configured_backends [OF assms(1,2)] assms(4) by auto
  have "alerts (snd (SetFailsafeMode E (consulClient E) s c' True (pool_message p) h3)) = alerts h3 @ due_alerts n ?m"
    using trip_notifies [OF n'(1) assms(3)] by (simp add: n'(2) backends_alerts)
  moreover have "description ?m = wp_NotificationUID p @ '' _cluster_failsafe_mode_'' @ wp_Name p" "fm_ClusterIdentifier ?m = []"
    by (simp_all add: description_def pool_message_def failsafe_reason_def)
  ultimately show ?thesis by blast
qed

theorem pool_failure_alerts_witness:
  "\<exists>m. alerts (snd (SetFailsafeMode ref_env (consulClient ref_env) empty_state demo_conf_ready True (pool_message demo_pool) [])) =
     [PagerDuty \<lparr>pe_ServiceKey = ''k'', pe_Type = ''trigger'', pe_Description = description m, pe_Details = m\<rparr>]"
proof -
  have "\<not> st_FailsafeMode empty_state" by (simp add: empty_state_def)
  moreover have "cf_Notification demo_conf = Some (empty_notification\<lparr>nt_PagerDutyServiceKey := ''k''\<rparr>)"
    by (simp add: demo_conf_def)
  ultimately obtain m where
    "alerts (snd (SetFailsafeMode ref_env (consulClient ref_env) empty_state demo_conf_ready True (pool_message demo_pool) [])) =
      alerts [] @ due_alerts (empty_notification\<lparr>nt_PagerDutyServiceKey := ''k''\<rparr>) m"
    using pool_failure_alerts [OF demo_load_conf [of "[]"] demo_initialze] by blast
  then show ?thesis by (simp only: due_alerts_def alerts_simps) (simp add: empty_notification_def)
qed

end
