(* ===== verification/Failsafe_Command.thy ===== *)
theory Failsafe_Command
  imports Agent
begin

text \<open>
  The failsafe command from its command line to the stored state (\<open>command/failsafe.go\<close>), composed of
  the parser of its flags, the clients and \<open>failsafe_Run\<close>, and what an operator achieves with it.
\<close>

definition failsafe_command :: "env \<Rightarrow> 'v agent_env \<Rightarrow> string list \<Rightarrow> string result \<Rightarrow> int act" where
  "failsafe_command E A args answer =
     (if args = [] then ret 1
      else
        bnd (ask (ae_files A)) (\<lambda>F.
        bnd (failsafe_parseFlags F (ae_hcl A) args) (\<lambda>r.
        case r of
          None \<Rightarrow> ret 1
        | Some (statePath, conf) \<Rightarrow>
            bnd (InitializeClients A (fs_Config conf)) (\<lambda>clients.
            failsafe_Run E (consulClient E) (length args) (Some conf) clients statePath answer))))"

section \<open>What is stored\<close>

definition stored :: "env \<Rightarrow> string \<Rightarrow> scaling_state \<Rightarrow> log \<Rightarrow> bool" where
  "stored E path s h \<longleftrightarrow>
     ReadState E (empty_state\<lparr>st_StatePath := path\<rparr>) False h = (Ret s, h @ [KVGet path]) \<and>
     storable s \<and> in64_state s \<and> st_StatePath s = path \<and> \<not> IsZero (st_LastUpdated s)"

text \<open>The clock is past the zero time.\<close>

definition clock_set :: "env \<Rightarrow> bool" where
  "clock_set E \<longleftrightarrow> (\<forall>h. \<not> IsZero (en_now E h))"

lemma persist_stored:
  assumes E: "store_works E" "clock_set E" and s: "storable s" "in64_state s" "st_StatePath s = path"
  shows "\<exists>h'. PersistState E s h = (Ret (s\<lparr>st_LastUpdated := en_now E h\<rparr>, None), h') \<and>
    stored E path (s\<lparr>st_LastUpdated := en_now E h, st_ScalingDirection := []\<rparr>) h'"
proof (intro exI conjI)
  note w = persist_works [OF E(1) s(1), of h]
  show "PersistState E s h = (Ret (s\<lparr>st_LastUpdated := en_now E h\<rparr>, None),
      h @ [Now, KVPut path (json_of_state (s\<lparr>st_LastUpdated := en_now E h\<rparr>))])" using w s(3) by simp
  have kv: "kv_law E" using E(1) by (simp add: store_works_def)
  have "\<not> IsZero (en_now E h)" using E(2) by (simp add: clock_set_def)
  then show "stored E path (s\<lparr>st_LastUpdated := en_now E h, st_ScalingDirection := []\<rparr>)
      (h @ [Now, KVPut path (json_of_state (s\<lparr>st_LastUpdated := en_now E h\<rparr>))])"
    using persist_then_read [OF kv w, of "empty_state\<lparr>st_StatePath := path\<rparr>" False] s
    by (simp add: stored_def storable_def in64_state_def empty_state_def)
qed

section \<open>One run of the command\<close>

lemma silent_failsafe:
  assumes "cf_Notification cfg = Some n" and "nt_Notifiers n = []" and "st_FailsafeMode s \<noteq> on"
  shows "\<exists>m'. SetFailsafeMode E (consulClient E) s cfg on m =
    bnd (PersistState E ((if on then s else s\<lparr>st_FailureCount := 0\<rparr>)\<lparr>st_FailsafeMode := on\<rparr>)) (\<lambda>(s', err).
    ret (m', s', map_option (\<lambda>e. Errorf ''core/failsafe: an attempt to update the persistent state tracking information failed'' (Some e)) err))"
  using assms by (cases on) (auto simp: SetFailsafeMode_def sendFailsafeNotification_def Let_def)

definition toggled :: "bool \<Rightarrow> scaling_state \<Rightarrow> scaling_state \<Rightarrow> bool" where
  "toggled on s s' \<longleftrightarrow> st_FailsafeMode s' = on \<and> st_FailsafeAdmin s' \<and>
     st_FailureCount s' = (if on then st_FailureCount s else 0) \<and> st_LastScalingEvent s' = st_LastScalingEvent s \<and>
     st_ScaleInRequests s' = st_ScaleInRequests s \<and> st_ScaleOutRequests s' = st_ScaleOutRequests s"

lemma run_toggles:
  assumes E: "store_works E" "clock_set E" and s: "stored E path s h" "st_FailsafeMode s \<noteq> on"
    and conf: "fs_Enable conf = on" "fs_Disable conf = (\<not> on)" "fs_Force conf" and n: "0 < n"
    and cfg: "cf_Notification (fs_Config conf) = Some k" "nt_Notifiers k = []"
  shows "\<exists>s' h'. failsafe_Run E (consulClient E) n (Some conf) None path ans h = (Ret 0, h') \<and> stored E path s' h' \<and> toggled on s s'"
proof -
  note S = s(1) [unfolded stored_def]
  let ?s1 = "s\<lparr>st_FailsafeAdmin := True\<rparr>"
  let ?s2 = "(if on then ?s1 else ?s1\<lparr>st_FailureCount := 0\<rparr>)\<lparr>st_FailsafeMode := on\<rparr>"
  let ?s3 = "?s2\<lparr>st_LastUpdated := en_now E (h @ [KVGet path])\<rparr>"
  have ok: "storable ?s2" "in64_state ?s2" "st_StatePath ?s2 = path" "storable ?s3" "in64_state ?s3" "st_StatePath ?s3 = path"
    using S by (auto simp: storable_def in64_state_def)
  obtain h2 where p2: "PersistState E ?s2 (h @ [KVGet path]) = (Ret (?s3, None), h2)"
    using persist_stored [OF E ok(1-3), of "h @ [KVGet path]"] by blast
  obtain h3 where p3: "PersistState E ?s3 h2 = (Ret (?s3\<lparr>st_LastUpdated := en_now E h2\<rparr>, None), h3)"
    and st: "stored E path (?s3\<lparr>st_LastUpdated := en_now E h2, st_ScalingDirection := []\<rparr>) h3"
    using persist_stored [OF E ok(4-6), of h2] by blast
  have m: "st_FailsafeMode ?s1 \<noteq> on" using s(2) by simp
  let ?msg = "\<lparr>fm_AlertUID = ''replicator-failsafe-admin-cli'', fm_ClusterIdentifier = [], fm_Reason = [],
    fm_ResourceID = st_ResourceName ?s1, fm_ResourceType = st_ResourceType ?s1, fm_StatePath = []\<rparr>"
  obtain msg where f: "SetFailsafeMode E (consulClient E) ?s1 (fs_Config conf) on ?msg (h @ [KVGet path]) = (Ret (msg, ?s3, None), h2)"
    using silent_failsafe [OF cfg m, of E ?msg] p2 by (auto simp: bnd_app ret_app)
  have "failsafe_Run E (consulClient E) n (Some conf) None path ans h = (Ret 0, h3)"
    using S s(2) conf n f p3 by (simp add: failsafe_Run_def Let_def bnd_app ret_app)
  moreover have "toggled on s (?s3\<lparr>st_LastUpdated := en_now E h2, st_ScalingDirection := []\<rparr>)"
    by (simp add: toggled_def)
  ultimately show ?thesis using st by blast
qed

text \<open>The command lines of an operator who toggles the mode without being asked.\<close>

abbreviation toggle_args :: "bool \<Rightarrow> string \<Rightarrow> string list" where
  "toggle_args on path \<equiv> [if on then ''-enable'' else ''-disable'', ''-force'', ''-state-path'', path]"

lemma toggle_flags:
  "failsafe_parseFlags F H (toggle_args on path) =
     ret (Some (path, \<lparr>fs_Config = DefaultConfig, fs_Disable = \<not> on, fs_Enable = on, fs_Force = True\<rparr>))"
  by (simp add: failsafe_parseFlags_def failsafeFlags_def argument_of_def named_flag_def set_flag_def take_value_def
      merged_config_def Merge_def set_str_def set_pos_def set_ptr_def DefaultConfig_def empty_config_def Let_def)

lemma command_toggles:
  assumes E: "store_works E" "clock_set E" and A: "\<And>h x. ae_nomad A h x = None" "\<And>h x. ae_consul A h x = None"
    and s: "stored E path s h" "st_FailsafeMode s \<noteq> on"
  shows "\<exists>s' h'. failsafe_command E A (toggle_args on path) ans h = (Ret 0, h') \<and> stored E path s' h' \<and> toggled on s s'"
proof -
  let ?conf = "\<lparr>fs_Config = DefaultConfig, fs_Disable = \<not> on, fs_Enable = on, fs_Force = True\<rparr>"
  have "failsafe_command E A (toggle_args on path) ans h = failsafe_Run E (consulClient E) 4 (Some ?conf) None path ans h"
    unfolding failsafe_command_def toggle_flags
    by (simp add: A numeral_eq_Suc InitializeClients_def NewNomadClient_def NewConsulClient_def bnd_app ask_app ret_app Let_def)
  moreover have "\<exists>s' h'. failsafe_Run E (consulClient E) 4 (Some ?conf) None path ans h = (Ret 0, h') \<and> stored E path s' h' \<and> toggled on s s'"
    by (rule run_toggles [OF E s, where k = empty_notification]) (simp_all add: DefaultConfig_def empty_notification_def)
  ultimately show ?thesis by simp
qed

text \<open>
  C9: an operator can take a resource out of scaling and put it back: against a store that works, the
  command with \<open>-enable\<close> exits with 0 and leaves the stored state in failsafe mode, so that every
  replica that then reads it declines to act; the command with \<open>-disable\<close> exits with 0 and leaves
  it out of the mode with a failure count of zero, and both leave the rest of the scaling history as
  it was.
\<close>

theorem operator_roundtrip:
  assumes E: "store_works E" "clock_set E" and A: "\<And>h x. ae_nomad A h x = None" "\<And>h x. ae_consul A h x = None"
    and s: "stored E path s h" "\<not> st_FailsafeMode s"
  shows "\<exists>s1 h1 s2 h2. failsafe_command E A (toggle_args True path) ans h = (Ret 0, h1) \<and> stored E path s1 h1 \<and>
    (\<forall>cfg t m h'. FailsafeCheck E (consulClient E) s1 cfg t m h' = (Ret (False, m, s1), h')) \<and>
    failsafe_command E A (toggle_args False path) ans' h1 = (Ret 0, h2) \<and> stored E path s2 h2 \<and>
    \<not> st_FailsafeMode s2 \<and> st_FailureCount s2 = 0 \<and> st_LastScalingEvent s2 = st_LastScalingEvent s \<and>
    st_ScaleInRequests s2 = st_ScaleInRequests s \<and> st_ScaleOutRequests s2 = st_ScaleOutRequests s"
proof -
  have on: "st_FailsafeMode s \<noteq> True" using s(2) by simp
  obtain s1 h1 where 1: "failsafe_command E A (toggle_args True path) ans h = (Ret 0, h1)" "stored E path s1 h1" "toggled True s s1"
    using command_toggles [OF E A s(1) on] by blast
  have off: "st_FailsafeMode s1 \<noteq> False" using 1(3) by (simp add: toggled_def)
  obtain s2 h2 where 2: "failsafe_command E A (toggle_args False path) ans' h1 = (Ret 0, h2)" "stored E path s2 h2" "toggled False s1 s2"
    using command_toggles [OF E A 1(2) off] by blast
  have "FailsafeCheck E (consulClient E) s1 cfg t m h' = (Ret (False, m, s1), h')" for cfg t m h'
    using off by (simp add: FailsafeCheck_def ret_app)
  with 1 2 show ?thesis unfolding toggled_def by (intro exI [of _ s1] exI [of _ h1] exI [of _ s2] exI [of _ h2]) simp
qed

theorem operator_roundtrip_witness:
  "\<exists>h1. failsafe_command ref_env demo_agent (toggle_args True ''p'') (Inr ''n'') demo_log = (Ret 0, h1)"
proof -
  have "store_works ref_env" "clock_set ref_env"
    by (simp_all add: store_works_def kv_law_ref_env clock_set_def) (simp_all add: ref_env_def time_ok_def day_def Second_def)
  moreover have "ae_nomad demo_agent h x = None" "ae_consul demo_agent h y = None" for h x y by (simp_all add: demo_agent_def)
  moreover have "stored ref_env ''p'' (empty_state\<lparr>st_StatePath := ''p'', st_LastUpdated := 5\<rparr>) demo_log"
    using demo_read by (simp add: stored_def storable_def in64_state_def empty_state_def time_ok_def day_def Second_def)
  moreover have "\<not> st_FailsafeMode (empty_state\<lparr>st_StatePath := ''p'', st_LastUpdated := 5\<rparr>)" by (simp add: empty_state_def)
  ultimately show ?thesis using operator_roundtrip [of ref_env demo_agent "''p''"] by blast
qed

end
