(* ===== verification/Init_Command.thy ===== *)
theory Init_Command
  imports Flags Node_Registry Job_Policies
begin

text \<open>
  The command that writes example scaling documents (\<open>command/init.go\<close>).  A document is one \<open>meta\<close> stanza, given by its keys and values.
  The disk is the files it holds and the errors that looking a file up or writing it may give.
\<close>

type_synonym document = "(string, string) gomap"

record disk =
  dk_Files :: "(string, document) gomap"
  dk_StatErr :: "string \<Rightarrow> go_error option"
  dk_WriteErr :: "string \<Rightarrow> go_error option"

definition defaultJobScalingDocument :: document where
  "defaultJobScalingDocument =
     [(''replicator_cooldown'', ''50''), (''replicator_enabled'', ''true''), (''replicator_max'', ''10''),
      (''replicator_min'', ''1''), (''replicator_notification_uid'', ''REP1''), (''replicator_scalein_mem'', ''30''),
      (''replicator_scalein_cpu'', ''30''), (''replicator_scaleout_mem'', ''80''), (''replicator_scaleout_cpu'', ''80'')]"

definition defaultClusterScalingDocument :: document where
  "defaultClusterScalingDocument =
     [(''replicator_cool_down'', ''400''), (''replicator_enabled'', ''true''), (''replicator_node_fault_tolerance'', ''1''),
      (''replicator_notification_uid'', ''REP2''), (''replicator_provider'', ''aws''), (''replicator_region'', ''us-east-1''),
      (''replicator_retry_threshold'', ''3''), (''replicator_scaling_threshold'', ''3''),
      (''replicator_worker_pool'', ''container-node-public-prod'')]"

definition writeFile :: "disk \<Rightarrow> string \<Rightarrow> document \<Rightarrow> disk \<times> go_error option" where
  "writeFile d file content =
     (case dk_StatErr d file of
        Some e \<Rightarrow> (d, Some e)
      | None \<Rightarrow>
          (if has_key (dk_Files d) file then (d, Some (Errorf ''scaling document already exists'' None))
           else case dk_WriteErr d file of
             Some e \<Rightarrow> (d, Some e)
           | None \<Rightarrow> (d\<lparr>dk_Files := AList.update file content (dk_Files d)\<rparr>, None)))"

record init_flags =
  if_jobScaling :: bool
  if_clusterScaling :: bool

definition initFlags :: "init_flags flag_set" where
  "initFlags =
     [(''job-scaling'', BoolVar (\<lambda>v c. c\<lparr>if_jobScaling := v\<rparr>)),
      (''cluster-scaling'', BoolVar (\<lambda>v c. c\<lparr>if_clusterScaling := v\<rparr>))]"

definition write_if :: "bool \<Rightarrow> disk \<Rightarrow> string \<Rightarrow> document \<Rightarrow> disk \<times> go_error option" where
  "write_if wanted d file content = (if wanted then writeFile d file content else (d, None))"

definition init_Run :: "disk \<Rightarrow> string list \<Rightarrow> disk \<times> int" where
  "init_Run d args =
     (case Parse initFlags args \<lparr>if_jobScaling = False, if_clusterScaling = False\<rparr> of
        None \<Rightarrow> (d, 1)
      | Some (fl, rest) \<Rightarrow>
          (case write_if (if_jobScaling fl \<or> args = []) d ''job_scaling.hcl'' defaultJobScalingDocument of
             (d1, Some e) \<Rightarrow> (d1, 1)
           | (d1, None) \<Rightarrow>
               (case write_if (if_clusterScaling fl \<or> args = []) d1 ''cluster_scaling.hcl'' defaultClusterScalingDocument of
                  (d2, Some e) \<Rightarrow> (d2, 1)
                | (d2, None) \<Rightarrow> (d2, 0))))"

section \<open>Properties\<close>

definition examples :: "(string \<times> document) set" where
  "examples = {(''job_scaling.hcl'', defaultJobScalingDocument), (''cluster_scaling.hcl'', defaultClusterScalingDocument)}"

definition extends :: "disk \<Rightarrow> disk \<Rightarrow> bool" where
  "extends d d' \<longleftrightarrow>
     (\<forall>k c. map_of (dk_Files d) k = Some c \<longrightarrow> map_of (dk_Files d') k = Some c) \<and>
     (\<forall>k c. map_of (dk_Files d') k = Some c \<longrightarrow> map_of (dk_Files d) k = Some c \<or> (k, c) \<in> examples)"

lemma extends_refl [simp]: "extends d d"
  by (simp add: extends_def)

lemma extends_trans: "extends d d' \<Longrightarrow> extends d' d'' \<Longrightarrow> extends d d''"
  unfolding extends_def by blast

lemma write_if_extends: "(file, content) \<in> examples \<Longrightarrow> write_if wanted d file content = (d', err) \<Longrightarrow> extends d d'"
  by (auto simp: write_if_def writeFile_def extends_def split: if_splits option.splits)

lemma init_Run_extends: "extends d (fst (init_Run d args))"
proof (cases "Parse initFlags args \<lparr>if_jobScaling = False, if_clusterScaling = False\<rparr>")
  case (Some r)
  obtain fl rest where r: "r = (fl, rest)" by (cases r)
  obtain d1 e1 where 1: "write_if (if_jobScaling fl \<or> args = []) d ''job_scaling.hcl'' defaultJobScalingDocument = (d1, e1)"
    by (meson surj_pair)
  obtain d2 e2 where 2: "write_if (if_clusterScaling fl \<or> args = []) d1 ''cluster_scaling.hcl'' defaultClusterScalingDocument = (d2, e2)"
    by (meson surj_pair)
  have "extends d d1" "extends d1 d2" using write_if_extends [OF _ 1] write_if_extends [OF _ 2] by (simp_all add: examples_def)
  with extends_trans show ?thesis
    by (cases e1; cases e2) (auto simp: init_Run_def Some r 1 2)
qed (simp add: init_Run_def)

text \<open>
  The command never overwrites a file, whatever its arguments: what was on the disk is still
  there with its contents, and the only files it adds are the two examples.
\<close>

theorem init_never_overwrites:
  "(\<forall>k c. map_of (dk_Files d) k = Some c \<longrightarrow> map_of (dk_Files (fst (init_Run d args))) k = Some c) \<and>
   (\<forall>k c. map_of (dk_Files (fst (init_Run d args))) k = Some c \<longrightarrow> map_of (dk_Files d) k = Some c \<or>
      k = ''job_scaling.hcl'' \<and> c = defaultJobScalingDocument \<or> k = ''cluster_scaling.hcl'' \<and> c = defaultClusterScalingDocument)"
  using init_Run_extends [of d args] unfolding extends_def examples_def by auto

theorem init_never_overwrites_witness:
  "map_of (dk_Files (fst (init_Run \<lparr>dk_Files = [(''job_scaling.hcl'', [])], dk_StatErr = \<lambda>_. None, dk_WriteErr = \<lambda>_. None\<rparr> [])))
     ''job_scaling.hcl'' = Some []"
  using init_never_overwrites [of "\<lparr>dk_Files = [(''job_scaling.hcl'', [])], dk_StatErr = \<lambda>_. None, dk_WriteErr = \<lambda>_. None\<rparr>" "[]"]
  by simp

text \<open>
  The example documents have every key that node discovery and job discovery require; but the
  cooldown of the cluster example is under a key that no field of a worker pool is decoded from.
\<close>

theorem example_documents_complete:
  "ParseMetaConfig defaultJobScalingDocument jobRequiredKeys = [] \<and> ParseMetaConfig defaultClusterScalingDocument requiredKeys = [] \<and>
   \<not> has_key defaultClusterScalingDocument ''replicator_cooldown''"
  by (simp add: ParseMetaConfig_filter jobRequiredKeys_def requiredKeys_def defaultJobScalingDocument_def defaultClusterScalingDocument_def)

end
