(* ===== verification/Main_Program.thy ===== *)
theory Main_Program
  imports Failsafe_Command Init_Command
begin

text \<open>
  The entry point (\<open>main.go\<close>, \<open>commands.go\<close>) with the version command (\<open>command/version.go\<close>,
  \<open>version/version.go\<close>), and the dispatch of the command line by the vendored package
  \<open>mitchellh/cli\<close>.  A run of the program is given the disk, what the operator answers at the prompt
  and the signals that arrive; its result is the disk, the lines it prints to standard output and
  the exit code.  None of the commands has a name with a space in it, so the part of the package
  that looks for nested commands is not modelled, and neither are the texts of the help.
\<close>

section \<open>version/version.go and command/version.go\<close>

abbreviation "Version \<equiv> ''1.1.0''"
abbreviation "VersionPrerelease \<equiv> ''beta1''"

definition version_Get :: string where
  "version_Get = (if VersionPrerelease \<noteq> [] then Version @ ''-'' @ VersionPrerelease else Version)"

text \<open>The line that the version command prints.\<close>

definition version_Run :: "string \<Rightarrow> string \<Rightarrow> string \<Rightarrow> string" where
  "version_Run version prerelease revision =
     ''Replicator v'' @ version @
     (if prerelease \<noteq> [] then ''-'' @ prerelease @ (if revision \<noteq> [] then '' ('' @ revision @ '')'' else []) else [])"

section \<open>commands.go\<close>

datatype cli_command = AgentCommand | InitCommand | FailsafeCommand | VersionCommand string string

definition Commands :: "(string, cli_command result) gomap" where
  "Commands =
     [(''agent'', Inr AgentCommand), (''init'', Inr InitCommand), (''failsafe'', Inr FailsafeCommand),
      (''version'', Inr (let ver = Version; rel = VersionPrerelease
                        in VersionCommand ver (if rel = [] \<and> VersionPrerelease \<noteq> [] then ''dev'' else rel)))]"

type_synonym exit_result = "disk \<times> string list \<times> int"

text \<open>The \<open>Run\<close> methods of the commands.\<close>

fun command_Run :: "env \<Rightarrow> 'v agent_env \<Rightarrow> string result \<Rightarrow> os_signal list \<Rightarrow> disk \<Rightarrow> cli_command \<Rightarrow> string list \<Rightarrow> exit_result act" where
  "command_Run E A answer sigs d AgentCommand args = bnd (agent_Run E A args sigs) (\<lambda>code. ret (d, [], code))"
| "command_Run E A answer sigs d InitCommand args = (case init_Run d args of (d', code) \<Rightarrow> ret (d', [], code))"
| "command_Run E A answer sigs d FailsafeCommand args = bnd (failsafe_command E A args answer) (\<lambda>code. ret (d, [], code))"
| "command_Run E A answer sigs d (VersionCommand ver rel) args = ret (d, [version_Run ver rel []], 0)"

section \<open>The command line (mitchellh/cli)\<close>

record cli =
  cl_isHelp :: bool
  cl_isVersion :: bool
  cl_subcommand :: string
  cl_subcommandArgs :: "string list"
  cl_topFlags :: "string list"

abbreviation help_flag :: "string \<Rightarrow> bool" where
  "help_flag arg \<equiv> arg = ''-h'' \<or> arg = ''-help'' \<or> arg = ''--help''"

abbreviation version_flag :: "string \<Rightarrow> bool" where
  "version_flag arg \<equiv> arg = ''-v'' \<or> arg = ''-version'' \<or> arg = ''--version''"

definition new_cli :: cli where
  "new_cli = \<lparr>cl_isHelp = False, cl_isVersion = False, cl_subcommand = [], cl_subcommandArgs = [], cl_topFlags = []\<rparr>"

fun args_loop :: "string list \<Rightarrow> cli \<Rightarrow> cli" where
  "args_loop [] c = c"
| "args_loop (arg # args) c =
     (if arg = ''--'' then c
      else if help_flag arg then args_loop args (c\<lparr>cl_isHelp := True\<rparr>)
      else if cl_subcommand c = [] \<and> version_flag arg then args_loop args (c\<lparr>cl_isVersion := True\<rparr>)
      else
        let c1 = (if cl_subcommand c = [] \<and> arg \<noteq> [] \<and> hd arg = CHR ''-'' then c\<lparr>cl_topFlags := cl_topFlags c @ [arg]\<rparr> else c);
            c2 = (if cl_subcommand c1 = [] \<and> arg \<noteq> [] \<and> hd arg \<noteq> CHR ''-''
                  then c1\<lparr>cl_subcommand := arg, cl_subcommandArgs := args\<rparr> else c1)
        in args_loop args c2)"

text \<open>Without a subcommand the flags are those of the default command, if there is one.\<close>

definition processArgs :: "(string, 'c) gomap \<Rightarrow> string list \<Rightarrow> cli" where
  "processArgs commands args =
     (let c = args_loop args new_cli in
      if cl_subcommand c = [] \<and> has_key commands []
      then c\<lparr>cl_topFlags := [], cl_subcommandArgs := cl_topFlags c @ cl_subcommandArgs c\<rparr> else c)"

definition RunResultHelp :: int where
  "RunResultHelp = - 18511"

text \<open>\<open>run\<close> is the \<open>Run\<close> method of a command; the program leaves the field \<open>Version\<close> empty.\<close>

definition cli_Run ::
  "(cli_command \<Rightarrow> string list \<Rightarrow> exit_result act) \<Rightarrow> string \<Rightarrow> (string, cli_command result) gomap \<Rightarrow> string list \<Rightarrow> disk \<Rightarrow>
     (disk \<times> string list \<times> int result) act" where
  "cli_Run run ver commands args d =
     (let c = processArgs commands args in
      if cl_isVersion c \<and> ver \<noteq> [] then ret (d, [], Inr 1)
      else case map_of commands (cl_subcommand c) of
        None \<Rightarrow> ret (d, [], Inr 1)
      | Some (Inl e) \<Rightarrow> ret (d, [], Inl e)
      | Some (Inr command) \<Rightarrow>
          (if cl_isHelp c then ret (d, [], Inr 1)
           else if cl_topFlags c \<noteq> [] then ret (d, [], Inr 1)
           else bnd (run command (cl_subcommandArgs c)) (\<lambda>(d', out, code).
                ret (d', out, Inr (if code = RunResultHelp then 1 else code)))))"

section \<open>main.go\<close>

text \<open>The entry point turns a version flag anywhere on the command line into the version command.\<close>

fun has_version_flag :: "string list \<Rightarrow> bool" where
  "has_version_flag [] = False"
| "has_version_flag (arg # args) = (version_flag arg \<or> has_version_flag args)"

definition RunCustom ::
  "env \<Rightarrow> 'v agent_env \<Rightarrow> string result \<Rightarrow> os_signal list \<Rightarrow> disk \<Rightarrow> string list \<Rightarrow> (string, cli_command result) gomap \<Rightarrow>
     exit_result act" where
  "RunCustom E A answer sigs d args0 commands =
     (let args = (if has_version_flag args0 then ''version'' # args0 else args0) in
      bnd (cli_Run (command_Run E A answer sigs d) [] commands args d) (\<lambda>(d', out, r).
      ret (d', out, case r of Inl e \<Rightarrow> 1 | Inr exitCode \<Rightarrow> exitCode)))"

definition Run :: "env \<Rightarrow> 'v agent_env \<Rightarrow> string result \<Rightarrow> os_signal list \<Rightarrow> disk \<Rightarrow> string list \<Rightarrow> exit_result act" where
  "Run E A answer sigs d args = RunCustom E A answer sigs d args Commands"

section \<open>What the command line selects\<close>

text \<open>
  The reference for the dispatch: a version flag anywhere selects the version, otherwise the first
  argument that is not empty has to be the name of a command, and a request for help before a
  double dash turns every command into one that does nothing.
\<close>

definition asks_help :: "string list \<Rightarrow> bool" where
  "asks_help args = list_ex help_flag (takeWhile (\<lambda>arg. arg \<noteq> ''--'') args)"

definition selected :: "string list \<Rightarrow> (cli_command \<times> string list) option" where
  "selected args =
     (if list_ex version_flag args
      then (if asks_help args then None else Some (VersionCommand Version VersionPrerelease, args))
      else case dropWhile (\<lambda>arg. arg = []) args of
        [] \<Rightarrow> None
      | name # rest \<Rightarrow>
          (if asks_help rest then None
           else if name = ''agent'' then Some (AgentCommand, rest)
           else if name = ''init'' then Some (InitCommand, rest)
           else if name = ''failsafe'' then Some (FailsafeCommand, rest)
           else if name = ''version'' then Some (VersionCommand Version VersionPrerelease, rest)
           else None))"

lemma has_version_flag_ex: "has_version_flag args = list_ex version_flag args"
  by (induction args) auto

lemma asks_help_Cons: "asks_help (arg # args) = (arg \<noteq> ''--'' \<and> (help_flag arg \<or> asks_help args))"
  by (simp add: asks_help_def)

lemma args_loop_command:
  "cl_subcommand c \<noteq> [] \<Longrightarrow> args_loop args c = c\<lparr>cl_isHelp := cl_isHelp c \<or> asks_help args\<rparr>"
  by (induction args arbitrary: c) (auto simp: asks_help_Cons asks_help_def Let_def)

lemma args_loop_name:
  assumes "name \<noteq> []" and "hd name \<noteq> CHR ''-''"
  shows "args_loop (name # rest) new_cli = new_cli\<lparr>cl_isHelp := asks_help rest, cl_subcommand := name, cl_subcommandArgs := rest\<rparr>"
proof -
  have n: "name \<noteq> ''--''" "\<not> help_flag name" "\<not> version_flag name" using assms(2) by auto
  show ?thesis using assms n by (simp add: args_loop_command new_cli_def)
qed

lemma args_loop_skip: "args_loop args c = args_loop (dropWhile (\<lambda>arg. arg = []) args) c"
proof (induction args)
  case (Cons arg args)
  then show ?case by (cases "arg = []") (simp_all del: args_loop.simps add: args_loop.simps(2) [of "[]"])
qed simp

definition refused :: "cli \<Rightarrow> bool" where
  "refused c \<longleftrightarrow> cl_isHelp c \<or> cl_topFlags c \<noteq> []"

lemma args_loop_refused: "refused c \<Longrightarrow> refused (args_loop args c)"
proof (induction args arbitrary: c)
  case (Cons arg args)
  then show ?case by (simp add: Let_def) (auto simp: refused_def intro!: Cons.IH)
qed simp

lemma args_loop_flag:
  assumes "hd name = CHR ''-''" and "name \<noteq> []" and "\<not> version_flag name"
  shows "args_loop (name # rest) new_cli = new_cli \<or> refused (args_loop (name # rest) new_cli)"
proof -
  consider "name = ''--''" | "help_flag name" | "name \<noteq> ''--''" "\<not> help_flag name" by blast
  then show ?thesis
  proof cases
    case 2
    then have "args_loop (name # rest) new_cli = args_loop rest (new_cli\<lparr>cl_isHelp := True\<rparr>)" by auto
    then show ?thesis using args_loop_refused [of "new_cli\<lparr>cl_isHelp := True\<rparr>"] by (simp add: refused_def)
  next
    case 3
    then have "args_loop (name # rest) new_cli = args_loop rest (new_cli\<lparr>cl_topFlags := [name]\<rparr>)"
      using assms by (simp add: new_cli_def)
    then show ?thesis using args_loop_refused [of "new_cli\<lparr>cl_topFlags := [name]\<rparr>"] by (simp add: refused_def)
  qed simp
qed

section \<open>Exit codes\<close>

lemma signal_loop_code: "signal_loop E A args conf server sigs h = (Ret code, h') \<Longrightarrow> code = 1"
proof (induction sigs arbitrary: server h)
  case (Cons s sigs)
  then show ?case by (cases s) (auto simp: ret_app elim!: bnd_RetE split: option.splits)
qed (simp add: block_app)

lemma agent_Run_code: "agent_Run E A args sigs h = (Ret code, h') \<Longrightarrow> code = 1"
  by (auto simp: agent_Run_def ret_app elim!: bnd_RetE split: option.splits sum.splits dest!: signal_loop_code)

lemma confirm_code: "confirm answer = Cancelled code \<Longrightarrow> code \<in> {0, 1}"
  by (auto simp: confirm_def split: sum.splits if_splits)

lemma failsafe_Run_code: "failsafe_Run E C n conf clients p answer h = (Ret code, h') \<Longrightarrow> code \<in> {0, 1}"
  by (auto simp: failsafe_Run_def ret_app Let_def elim!: bnd_RetE dest!: confirm_code
      split: option.splits if_splits confirmation.splits)

lemma failsafe_command_code: "failsafe_command E A args answer h = (Ret code, h') \<Longrightarrow> code \<in> {0, 1}"
  by (auto simp: failsafe_command_def ret_app elim!: bnd_RetE dest!: failsafe_Run_code split: option.splits if_splits)

lemma init_Run_code: "snd (init_Run d args) \<in> {0, 1}"
  by (auto simp: init_Run_def split: option.splits prod.splits)

lemma command_Run_code: "command_Run E A answer sigs d c args h = (Ret (d', out, code), h') \<Longrightarrow> code \<in> {0, 1}"
  using init_Run_code [of d args]
  by (cases c) (auto simp: ret_app elim!: bnd_RetE dest: agent_Run_code failsafe_command_code split: prod.splits)

lemma cli_Run_command:
  assumes "processArgs Commands args = c" and "map_of Commands (cl_subcommand c) = Some (Inr command)" and "\<not> refused c"
  shows "bnd (cli_Run (command_Run E A answer sigs d) [] Commands args d) (\<lambda>(d', out, r).
      ret (d', out, case r of Inl e \<Rightarrow> 1 | Inr exitCode \<Rightarrow> exitCode)) h =
    command_Run E A answer sigs d command (cl_subcommandArgs c) h"
proof -
  obtain r h' where r: "command_Run E A answer sigs d command (cl_subcommandArgs c) h = (r, h')" by fastforce
  show ?thesis
  proof (cases r)
    case (Ret x)
    obtain d' out code where x: "x = (d', out, code)" by (cases x)
    have "code \<noteq> RunResultHelp" using command_Run_code [of E A answer sigs d command] r Ret x by (fastforce simp: RunResultHelp_def)
    with assms r Ret x show ?thesis by (simp add: cli_Run_def refused_def bnd_app ret_app)
  qed (use assms r in \<open>simp_all add: cli_Run_def refused_def bnd_app\<close>)
qed

lemma cli_Run_nothing:
  assumes "processArgs Commands args = c" and "map_of Commands (cl_subcommand c) = None \<or> refused c"
  shows "bnd (cli_Run (command_Run E A answer sigs d) [] Commands args d) (\<lambda>(d', out, r).
      ret (d', out, case r of Inl e \<Rightarrow> 1 | Inr exitCode \<Rightarrow> exitCode)) h = (Ret (d, [], 1), h)"
proof (cases "map_of Commands (cl_subcommand c)")
  case (Some r)
  then obtain command where "r = Inr command" by (auto simp: Commands_def split: if_splits)
  with Some assms show ?thesis by (auto simp: cli_Run_def refused_def bnd_app ret_app)
qed (use assms(1) in \<open>simp add: cli_Run_def bnd_app ret_app\<close>)

section \<open>Properties\<close>

lemma map_of_Commands:
  "map_of Commands name =
     (if name = ''agent'' then Some (Inr AgentCommand) else if name = ''init'' then Some (Inr InitCommand)
      else if name = ''failsafe'' then Some (Inr FailsafeCommand)
      else if name = ''version'' then Some (Inr (VersionCommand Version VersionPrerelease)) else None)"
  by (simp add: Commands_def)

lemma processArgs_Commands: "processArgs Commands args = args_loop args new_cli"
  by (simp add: processArgs_def Commands_def Let_def)

lemma no_command: "map_of Commands [] = None"
  by (simp add: map_of_Commands)

lemma Run_version:
  assumes "list_ex version_flag args"
  shows "Run E A answer sigs d args h =
    (if asks_help args then (Ret (d, [], 1), h) else command_Run E A answer sigs d (VersionCommand Version VersionPrerelease) args h)"
proof -
  let ?c = "new_cli\<lparr>cl_isHelp := asks_help args, cl_subcommand := ''version'', cl_subcommandArgs := args\<rparr>"
  have c: "processArgs Commands (''version'' # args) = ?c"
    using args_loop_name [of "''version''" args] by (simp add: processArgs_Commands)
  show ?thesis
    using cli_Run_nothing [OF c, where A = A] cli_Run_command [OF c, where A = A and command = "VersionCommand Version VersionPrerelease"] assms
    by (simp add: Run_def RunCustom_def has_version_flag_ex map_of_Commands refused_def new_cli_def del: command_Run.simps)
qed

lemma Run_selected:
  "Run E A answer sigs d args h =
     (case selected args of
        None \<Rightarrow> (Ret (d, [], 1), h)
      | Some (command, rest) \<Rightarrow> command_Run E A answer sigs d command rest h)"
proof (cases "list_ex version_flag args")
  case True
  then show ?thesis by (simp add: Run_version selected_def)
next
  case False
  let ?c = "args_loop args new_cli"
  have R: "Run E A answer sigs d args h = bnd (cli_Run (command_Run E A answer sigs d) [] Commands args d)
      (\<lambda>(d', out, r). ret (d', out, case r of Inl e \<Rightarrow> 1 | Inr exitCode \<Rightarrow> exitCode)) h"
    using False by (simp add: Run_def RunCustom_def has_version_flag_ex)
  have idle: "Run E A answer sigs d args h = (Ret (d, [], 1), h)" if "map_of Commands (cl_subcommand ?c) = None \<or> refused ?c"
    unfolding R by (rule cli_Run_nothing [OF processArgs_Commands that])
  have command: "Run E A answer sigs d args h = command_Run E A answer sigs d cmd (cl_subcommandArgs ?c) h"
    if "map_of Commands (cl_subcommand ?c) = Some (Inr cmd)" "\<not> refused ?c" for cmd
    unfolding R by (rule cli_Run_command [OF processArgs_Commands that])
  show ?thesis
  proof (cases "dropWhile (\<lambda>arg. arg = []) args")
    case Nil
    then have "?c = new_cli" using args_loop_skip [of args new_cli] by (simp only: args_loop.simps)
    then have "map_of Commands (cl_subcommand ?c) = None \<or> refused ?c" by (simp add: new_cli_def no_command)
    moreover have "selected args = None" using False Nil by (simp add: selected_def del: dropWhile_eq_Nil_conv)
    ultimately show ?thesis by (simp only: idle option.case)
  next
    case (Cons name rest)
    then have c: "?c = args_loop (name # rest) new_cli" by (subst args_loop_skip) simp
    have "name \<in> set args" using Cons set_dropWhileD [of name "\<lambda>arg. arg = []" args] by simp
    with False hd_dropWhile [of "\<lambda>arg. arg = []" args] Cons have n: "name \<noteq> []" "\<not> version_flag name"
      by (auto simp: list_ex_iff)
    show ?thesis
    proof (cases "hd name = CHR ''-''")
      case True
      then have "map_of Commands (cl_subcommand ?c) = None \<or> refused ?c"
        using args_loop_flag [OF True n, of rest] unfolding c by (elim disjE) (simp_all add: new_cli_def no_command del: args_loop.simps)
      moreover have "name \<notin> {''agent'', ''init'', ''failsafe'', ''version''}" using True by auto
      then have "selected args = None" using False by (simp add: selected_def Cons)
      ultimately show ?thesis by (simp only: idle option.case)
    next
      case False
      note c = c [unfolded args_loop_name [OF n(1) False]]
      have r: "refused ?c = asks_help rest" "cl_subcommand ?c = name" "cl_subcommandArgs ?c = rest"
        unfolding c by (simp_all add: refused_def new_cli_def)
      have s: "selected args = (if asks_help rest then None else
          case map_of Commands name of Some (Inr cmd) \<Rightarrow> Some (cmd, rest) | _ \<Rightarrow> None)"
        using \<open>\<not> list_ex version_flag args\<close> by (simp add: selected_def Cons map_of_Commands)
      show ?thesis
      proof (cases "asks_help rest \<or> map_of Commands name = None")
        case True
        then have "map_of Commands (cl_subcommand ?c) = None \<or> refused ?c" unfolding r by blast
        moreover have "selected args = None" using True s by auto
        ultimately show ?thesis by (simp only: idle option.case)
      next
        case False
        then obtain cmd where "map_of Commands name = Some (Inr cmd)" by (simp add: map_of_Commands split: if_splits)
        moreover from this False have "selected args = Some (cmd, rest)" by (simp add: s)
        ultimately show ?thesis using command [of cmd, unfolded r] False by (simp del: command_Run.simps)
      qed
    qed
  qed
qed

lemma command_effects:
  assumes "command_Run E A answer sigs d c args h = (Ret (d', out, code), h')"
  shows "h' = h \<or> c = AgentCommand \<or> c = FailsafeCommand" and "d' = d \<or> c = InitCommand"
    and "out = [] \<or> (\<exists>ver rel. c = VersionCommand ver rel \<and> out = [version_Run ver rel []])"
  using assms by (cases c; auto simp: ret_app elim!: bnd_RetE split: prod.splits)+

lemma selected_version: "selected args = Some (VersionCommand ver rel, rest) \<Longrightarrow> ver = Version \<and> rel = VersionPrerelease"
  by (simp add: selected_def split: if_splits list.splits)



end
