(* ===== verification/Spec2Isabelle.thy ===== *)
theory Spec2Isabelle
  imports Notifier Main_Program
begin

text \<open>
  Replicator, an autoscaler for HashiCorp Nomad: a verification development.

  \<^bold>\<open>The program.\<close>  Replicator runs as a daemon beside a Nomad cluster.  The replicas elect a leader
  through a lock in Consul.  The leader watches the nodes of the cluster, which form worker pools, and the
  jobs that carry a scaling policy; at every tick it evaluates each pool and each job, and
  scales a pool through its provider, an autoscaling group of AWS, and a job by registering it
  with another count.  The state of every pool and job group is kept in Consul, so that a new leader
  goes on where the last one stopped.  A breaker, the failsafe mode, takes a pool or a group that
  failed too often out of scaling until an operator resets it.

  \<^bold>\<open>The theories.\<close>  Names are those of the Go code; a definition that stands for a part of a
  function is named in the text beside it.

  \<^item> \<open>Go_Float\<close>, \<open>Go_Base\<close>: the language.  Floats as rounded rationals with infinities and NaN; 64-bit
    integers with wrap-around (\<open>i64\<close>); errors; maps as association lists, ranged over in an order the
    runtime chooses; computations as functions of the history of external calls, which
    return, panic or never proceed; the logic \<open>obeys\<close> and \<open>returns\<close> for them.
  \<^item> \<open>Structs\<close>, \<open>World\<close>: the structs of \<open>replicator/structs\<close> and the records of the APIs; the
    environment \<open>env\<close>, whose answers to Consul, Nomad and AWS calls are arbitrary functions
    of the history.
  \<^item> \<open>State_Store\<close> (\<open>client/state.go\<close>): state in Consul, with its JSON form.  Locale \<open>state_store\<close>.
  \<^item> \<open>Failsafe\<close> (\<open>replicator/failsafe.go\<close>, \<open>command/failsafe.go\<close>): the breaker and its command.
  \<^item> \<open>Helper\<close> (\<open>helper/funcs.go\<close>): the extraction of addresses and the search for nodes.
  \<^item> \<open>Aws_Provider\<close> (\<open>cloud\<close>): the scaling provider.  Locale \<open>scaling_provider\<close>.
  \<^item> \<open>Node_Registry\<close> (\<open>client/node_discovery.go\<close>): worker pools and the node watcher.
  \<^item> \<open>Pool_Capacity\<close> (\<open>client/cluster_scaling.go\<close>, \<open>client/nomad.go\<close>): capacity, consumption and reserve of a
    pool, the direction it scales in, the node to remove.  Locale \<open>pool_evaluator\<close>.
  \<^item> \<open>Cluster_Scaling\<close> (\<open>replicator/cluster_scaling.go\<close>, \<open>node_protection.go\<close>): the evaluation of a pool
    over the three interfaces before it.  Locale \<open>cluster_scaler\<close>, which extends \<open>state_store\<close> and
    \<open>pool_evaluator\<close>.
  \<^item> \<open>Job_Policies\<close> (\<open>client/job_scaling_policies.go\<close>): the job watcher and its goroutines, with the
    policies in a heap, since the code shares pointers to them.
  \<^item> \<open>Job_Scaling\<close> (\<open>client/job_scaling.go\<close>, \<open>client/nomad.go\<close>, \<open>replicator/job_scaling.go\<close>): evaluation and
    scaling of a job.  Locales \<open>nomad_job_client\<close> and \<open>job_scaler\<close>.
  \<^item> \<open>Leader\<close> (\<open>replicator/leader.go\<close>, \<open>client/consul.go\<close>, \<open>status_endpoint.go\<close>): election and sessions, the
    replicas as a step relation.
  \<^item> \<open>Server\<close> (\<open>replicator/server.go\<close>): the workers of a tick as a step relation, the ticks, start and
    shutdown.
  \<^item> \<open>Flags\<close>, \<open>Config\<close> (\<open>command/base\<close>, \<open>structs/config.go\<close>, the flags of \<open>agent.go\<close> and \<open>command/failsafe.go\<close>): the
    command line as Go's \<open>flag\<close> package reads it, configuration files and directories, merging.
  \<^item> \<open>Http_Api\<close> (\<open>replicator/rpc.go\<close>, \<open>command/agent/http.go\<close>, \<open>api\<close>): the RPC listener, the HTTP interface and
    its client.
  \<^item> \<open>Agent\<close> (\<open>command/agent/agent.go\<close>): the agent from its command line through its signals.
  \<^item> \<open>Notifier\<close> (\<open>notifier\<close>): the alerts that the configured backends raise.
  \<^item> \<open>Failsafe_Command\<close> (\<open>command/failsafe.go\<close>): the command of the operator, from its arguments to the store.
  \<^item> \<open>Init_Command\<close> (\<open>command/init.go\<close>): the example documents.
  \<^item> \<open>Main_Program\<close> (\<open>main.go\<close>, \<open>commands.go\<close>, \<open>command/version.go\<close>): the entry point, from the command line
    to the command it selects.

  \<^bold>\<open>How the parts rely on each other.\<close>  A component that calls another through a Go interface
  takes a record of operations, as the Go code does, and its lemmas are proved in a locale that
  assumes the contract of these operations; each locale is interpreted on the program's own
  implementation, where the contract is proved of the code.

  \<^bold>\<open>What is shown.\<close>  Gating: an evaluation of a pool or group changes the cluster only past the
  breaker, the cooldown and the threshold, and the threshold counts what its specification
  says.  Safety of the actions: a scale-in removes one instance and leaves room for the load, a
  scale-out adds one, a job's count moves by one within its limits, the node that hosts
  Replicator is not drained.  Invariants: of the registry and of the policies, over every
  iteration of their watchers and every tick.  Termination and progress: the retry loop of the
  provider, the evaluation of a pool, the workers of a tick, the tickers under every configuration
  the agent accepts.  The election: exclusive as far as the lock goes, and where it does not.
  Configuration: merging, precedence, directories.  From end to end: what the operator's command
  does to the store and to every replica, which command a command line runs and what it can touch, which alerts a tripped breaker raises under which
  configuration, what a client of the HTTP interface learns.  Error paths: the theorems on panics, on a
  lock that is not released, on two leaders and on reloads state what the code does where it
  fails.

  \<^bold>\<open>Bounds.\<close>  No theorem depends on a bound of the model.  Loops over a ticker run for the number of
  ticks the environment gives before the timeout, which is arbitrary; the retry loop of a
  scale-out has fuel for one attempt more than the failures left up to its threshold, and is shown
  to return within it; the loop that removes
  from a slice it ranges over runs for the length at its start, as in Go.  A loop without an
  end of its own (the watchers, the replicas, the workers) is a step relation or one iteration
  with an invariant.

  \<^bold>\<open>What is assumed.\<close>  Only named hypotheses: that a key/value store returns what was written
  (\<open>kv_law\<close>), that a lock has one holder and sessions are fresh (\<open>lock_law\<close>, \<open>session_law\<close>), that a
  query for a node returns that node (\<open>info_law\<close>), that the decoder of pool settings sets only
  settings (\<open>decode_law\<close>), that AWS answers and a pool is registered (\<open>aws_responsive\<close>), that writes
  succeed (\<open>store_works\<close>), that two JSON libraries agree.  Every theorem that has one is applied to a concrete instance.

  \<^bold>\<open>What is not modelled.\<close>  The text of log messages, metrics and help texts; sockets, the bytes of
  compressed bodies and of the RPC's messages; how the notification services answer, which the program
  only logs; nested commands, which the command line library has and the program does not use; the
  parsers and decoders of third-party packages, which are parameters.  Two goroutines that
  write the same field without a lock are a data race in Go, and the model gives one order of
  their steps at a time.
\<close>

end
